(* ===== verification/Prelude.thy ===== *)
theory Prelude
  imports Main "HOL-Library.Word" "HOL-Library.List_Lexorder"
begin

text \<open>
  Shared vocabulary of the development: the machine integers of the Rust sources, the
  checked and saturating arithmetic of the standard library, the error enum of
  \<^verbatim>\<open>ragnordb-common/src/result.rs\<close>, and the result type with the combinators that
  stand for the \<^verbatim>\<open>?\<close> operator and for loops whose body uses it.

  Human-readable messages inside errors are diagnostic text only (no branch of the code
  reads them back), so the error constructors carry the structured fields of the source
  and drop the formatted strings.
\<close>

section \<open>Machine integers\<close>

type_synonym u8 = "8 word"
type_synonym u32 = "32 word"
type_synonym u64 = "64 word"
type_synonym u128 = "128 word"
type_synonym i64 = "64 word"
type_synonym bytes = "u8 list"

text \<open>
  Lengths and indices of Rust slices are \<^typ>\<open>nat\<close> here, with the 64-bit bound of
  \<^verbatim>\<open>usize\<close> written out. A Rust allocation never exceeds \<^verbatim>\<open>isize::MAX\<close> bytes.
\<close>

definition usize_max :: nat where
  "usize_max = 2 ^ 64 - 1"

definition isize_max :: nat where
  "isize_max = 2 ^ 63 - 1"

definition checked_add_usize :: "nat \<Rightarrow> nat \<Rightarrow> nat option" where
  "checked_add_usize a b = (if a + b \<le> usize_max then Some (a + b) else None)"

definition saturating_add_usize :: "nat \<Rightarrow> nat \<Rightarrow> nat" where
  "saturating_add_usize a b = min (a + b) usize_max"

definition saturating_mul_usize :: "nat \<Rightarrow> nat \<Rightarrow> nat" where
  "saturating_mul_usize a b = min (a * b) usize_max"

definition checked_add :: "'a::len word \<Rightarrow> 'a word \<Rightarrow> 'a word option" where
  "checked_add a b = (if unat a + unat b < 2 ^ LENGTH('a) then Some (a + b) else None)"

definition checked_sub :: "'a::len word \<Rightarrow> 'a word \<Rightarrow> 'a word option" where
  "checked_sub a b = (if b \<le> a then Some (a - b) else None)"

definition saturating_add :: "'a::len word \<Rightarrow> 'a word \<Rightarrow> 'a word" where
  "saturating_add a b = (if unat a + unat b < 2 ^ LENGTH('a) then a + b else - 1)"

definition saturating_sub :: "'a::len word \<Rightarrow> 'a word \<Rightarrow> 'a word" where
  "saturating_sub a b = (if b \<le> a then a - b else 0)"

lemma unat_bound: "unat (w :: 'a::len word) < 2 ^ LENGTH('a)"
  by simp

text \<open>Executable forms that compare as integers, not as unary naturals.\<close>

lemma usize_code [code]:
  "checked_add_usize a b = (if int a + int b \<le> 18446744073709551615 then Some (a + b) else None)"
  "saturating_add_usize a b = (if int a + int b \<le> 18446744073709551615 then a + b else usize_max)"
  "saturating_mul_usize a b = (if int a * int b \<le> 18446744073709551615 then a * b else usize_max)"
  by (auto simp: checked_add_usize_def saturating_add_usize_def saturating_mul_usize_def
      usize_max_def min_def simp flip: of_nat_add of_nat_mult)

lemma add_overflows:
  fixes a b :: "'a::len word"
  shows "unat a + unat b < 2 ^ LENGTH('a) \<longleftrightarrow> a \<le> a + b"
proof (cases "unat a + unat b < 2 ^ LENGTH('a)")
  case True
  then show ?thesis by (simp add: word_le_nat_alt unat_word_ariths)
next
  case False
  have bounds: "unat b < 2 ^ LENGTH('a)" "unat a < 2 ^ LENGTH('a)" by simp_all
  then have "unat a + unat b - 2 ^ LENGTH('a) < 2 ^ LENGTH('a)" by linarith
  with False have "(unat a + unat b) mod 2 ^ LENGTH('a) = unat a + unat b - 2 ^ LENGTH('a)"
    by (simp add: le_mod_geq)
  with False bounds(1) have "\<not> unat a \<le> unat (a + b)" unfolding unat_word_ariths by linarith
  with False show ?thesis by (simp add: word_le_nat_alt)
qed

lemma word_add_code [code]:
  fixes a b :: "'a::len word"
  shows "checked_add a b = (if a \<le> a + b then Some (a + b) else None)"
    and "saturating_add a b = (if a \<le> a + b then a + b else - 1)"
  by (simp_all add: checked_add_def saturating_add_def add_overflows)

lemma checked_add_usize_eq_Some [simp]:
  "checked_add_usize a b = Some c \<longleftrightarrow> c = a + b \<and> a + b \<le> usize_max"
  by (auto simp: checked_add_usize_def)

lemma checked_add_SomeD:
  fixes a b c :: "'a::len word"
  assumes "checked_add a b = Some c"
  shows "unat c = unat a + unat b"
proof -
  from assms have "unat a + unat b < 2 ^ LENGTH('a)" and "c = a + b"
    by (auto simp: checked_add_def split: if_splits)
  then show ?thesis
    by (simp add: unat_word_ariths)
qed

lemma checked_add_le:
  fixes a b c :: "'a::len word"
  shows "checked_add a b = Some c \<Longrightarrow> a \<le> c"
  by (drule checked_add_SomeD) (simp add: word_le_nat_alt)

lemma checked_add_less:
  fixes a b c :: "'a::len word"
  assumes "checked_add a b = Some c" and "0 < b"
  shows "a < c"
proof -
  from assms(2) have "0 < unat b"
    by (simp add: unat_gt_0 word_neq_0_conv)
  with checked_add_SomeD [OF assms(1)] show ?thesis
    by (simp add: word_less_nat_alt)
qed

lemma checked_add_Some_iff:
  fixes a b :: "'a::len word"
  shows "(\<exists>c. checked_add a b = Some c) \<longleftrightarrow> unat a + unat b < 2 ^ LENGTH('a)"
  by (auto simp: checked_add_def)

section \<open>Errors\<close>

text \<open>The enum \<^verbatim>\<open>Error\<close> of \<^verbatim>\<open>result.rs\<close>, without its message strings.\<close>

datatype Error =
    NotImplemented
  | InvalidArgument
  | CorruptData
  | WriteConflict
  | SnapshotTooOld
  | SqlParse
  | UnsupportedSql
  | SchemaMismatch
  | ConstraintViolation
  | Configuration
  | StatementTimeout u64
  | NotLeader "u64 option"
  | StaleTabletEpoch u64 u64
  | LeaderUnknown
  | TabletUnavailable
  | RequestOutcomeUnknown
  | RequestIdExpired
  | ClientSessionExpired u64
  | ProposalUnavailable
  | DistributedScanFailed u64 bool
  | WalAppendNotStaged bool
  | CommitOutcomeUnknown u64 u64
  | RecoveryRequired
  | CatalogOutcomeUnknown u64 u64
  | RecoveryFailed
  | RecoveryFailedWithSource
  | SnapshotPublicationFailed
  | CheckpointOutcomeUnknown u64 u64

type_synonym 'a result = "Error + 'a"

datatype RetryAction = NoRetry | RetrySameRequest | RestartTransaction | QueryOriginalOutcome

fun retry_action :: "Error \<Rightarrow> RetryAction" where
  "retry_action (NotLeader _) = RetrySameRequest"
| "retry_action (StaleTabletEpoch _ _) = RetrySameRequest"
| "retry_action LeaderUnknown = RetrySameRequest"
| "retry_action TabletUnavailable = RetrySameRequest"
| "retry_action ProposalUnavailable = RetrySameRequest"
| "retry_action (StatementTimeout _) = RetrySameRequest"
| "retry_action (DistributedScanFailed _ retryable) = (if retryable then RetrySameRequest else NoRetry)"
| "retry_action RequestOutcomeUnknown = QueryOriginalOutcome"
| "retry_action (CommitOutcomeUnknown _ _) = QueryOriginalOutcome"
| "retry_action (CatalogOutcomeUnknown _ _) = QueryOriginalOutcome"
| "retry_action (CheckpointOutcomeUnknown _ _) = QueryOriginalOutcome"
| "retry_action WriteConflict = RestartTransaction"
| "retry_action _ = NoRetry"

section \<open>Results\<close>

text \<open>
  \<open>and_then r f\<close> is \<^verbatim>\<open>let x = r?; f(x)\<close>, \<open>ensure c e\<close> is an early
  \<^verbatim>\<open>if !c { return Err(e) }\<close>, \<open>ok_or\<close> and \<open>map_err\<close> are the methods of
  the standard library.
\<close>

named_theorems result_simps \<open>equations and inversions of the result combinators\<close>

definition and_then :: "'e + 'a \<Rightarrow> ('a \<Rightarrow> 'e + 'b) \<Rightarrow> 'e + 'b" where
  "and_then r f = (case r of Inl e \<Rightarrow> Inl e | Inr x \<Rightarrow> f x)"

definition ensure :: "bool \<Rightarrow> 'e \<Rightarrow> 'e + unit" where
  "ensure c e = (if c then Inr () else Inl e)"

definition ok_or :: "'a option \<Rightarrow> 'e \<Rightarrow> 'e + 'a" where
  "ok_or m e = (case m of None \<Rightarrow> Inl e | Some x \<Rightarrow> Inr x)"

definition map_err :: "('e \<Rightarrow> 'f) \<Rightarrow> 'e + 'a \<Rightarrow> 'f + 'a" where
  "map_err g r = (case r of Inl e \<Rightarrow> Inl (g e) | Inr x \<Rightarrow> Inr x)"

definition is_ok :: "'e + 'a \<Rightarrow> bool" where
  "is_ok r = (case r of Inl _ \<Rightarrow> False | Inr _ \<Rightarrow> True)"

lemma and_then_simps [simp]:
  "and_then (Inl e) f = Inl e"
  "and_then (Inr x) f = f x"
  by (simp_all add: and_then_def)

lemma and_then_assoc: "and_then (and_then r f) g = and_then r (\<lambda>x. and_then (f x) g)"
  by (cases r) simp_all

lemma and_then_eq_Inr [result_simps]: "and_then r f = Inr y \<longleftrightarrow> (\<exists>x. r = Inr x \<and> f x = Inr y)"
  by (cases r) auto

lemma and_then_eq_Inl [result_simps]: "and_then r f = Inl e \<longleftrightarrow> r = Inl e \<or> (\<exists>x. r = Inr x \<and> f x = Inl e)"
  by (cases r) auto

lemma ensure_eq_Inr [result_simps]: "ensure c e = Inr u \<longleftrightarrow> c"
  by (simp add: ensure_def)

lemma ensure_eq_Inl [result_simps]: "ensure c e = Inl e' \<longleftrightarrow> \<not> c \<and> e' = e"
  by (auto simp: ensure_def)

lemma ensure_simps [simp]:
  "ensure True e = Inr ()"
  "ensure False e = Inl e"
  by (simp_all add: ensure_def)

lemma ok_or_simps [simp]:
  "ok_or None e = Inl e"
  "ok_or (Some x) e = Inr x"
  by (simp_all add: ok_or_def)

lemma ok_or_eq_Inr [result_simps]: "ok_or m e = Inr x \<longleftrightarrow> m = Some x"
  by (cases m) auto

lemma ok_or_eq_Inl [result_simps]: "ok_or m e = Inl e' \<longleftrightarrow> m = None \<and> e' = e"
  by (cases m) auto

lemma map_err_simps [simp]:
  "map_err g (Inl e) = Inl (g e)"
  "map_err g (Inr x) = Inr x"
  by (simp_all add: map_err_def)

lemma map_err_eq_Inr [result_simps]: "map_err g r = Inr x \<longleftrightarrow> r = Inr x"
  by (cases r) auto

lemma map_err_eq_Inl [result_simps]: "map_err g r = Inl e \<longleftrightarrow> (\<exists>e'. r = Inl e' \<and> e = g e')"
  by (cases r) auto

lemma is_ok_simps [simp]: "\<not> is_ok (Inl e)" "is_ok (Inr x)"
  by (simp_all add: is_ok_def)

lemma is_ok_iff: "is_ok r \<longleftrightarrow> (\<exists>x. r = Inr x)"
  by (cases r) auto

lemma not_is_ok_iff: "\<not> is_ok r \<longleftrightarrow> (\<exists>e. r = Inl e)"
  by (cases r) auto

subsection \<open>Loops that stop at the first error\<close>

primrec try_each :: "('a \<Rightarrow> 'e + unit) \<Rightarrow> 'a list \<Rightarrow> 'e + unit" where
  "try_each f [] = Inr ()"
| "try_each f (x # xs) = and_then (f x) (\<lambda>_. try_each f xs)"

primrec try_map :: "('a \<Rightarrow> 'e + 'b) \<Rightarrow> 'a list \<Rightarrow> 'e + 'b list" where
  "try_map f [] = Inr []"
| "try_map f (x # xs) = and_then (f x) (\<lambda>y. and_then (try_map f xs) (\<lambda>ys. Inr (y # ys)))"

primrec try_filter_map :: "('a \<Rightarrow> 'e + 'b option) \<Rightarrow> 'a list \<Rightarrow> 'e + 'b list" where
  "try_filter_map f [] = Inr []"
| "try_filter_map f (x # xs) =
     and_then (f x) (\<lambda>y. and_then (try_filter_map f xs) (\<lambda>ys.
       Inr (case y of None \<Rightarrow> ys | Some z \<Rightarrow> z # ys)))"

primrec try_fold :: "('s \<Rightarrow> 'a \<Rightarrow> 'e + 's) \<Rightarrow> 's \<Rightarrow> 'a list \<Rightarrow> 'e + 's" where
  "try_fold f s [] = Inr s"
| "try_fold f s (x # xs) = and_then (f s x) (\<lambda>s'. try_fold f s' xs)"

text \<open>\<^verbatim>\<open>Iterator::position\<close>.\<close>

fun position :: "('a \<Rightarrow> bool) \<Rightarrow> 'a list \<Rightarrow> nat option" where
  "position p [] = None"
| "position p (x # xs) = (if p x then Some 0 else map_option Suc (position p xs))"

lemma try_each_eq_Inr [result_simps]: "try_each f xs = Inr u \<longleftrightarrow> (\<forall>x \<in> set xs. f x = Inr ())"
  by (induction xs) (auto simp: result_simps)

lemma try_each_eq_Inl: "try_each f xs = Inl e \<Longrightarrow> \<exists>x \<in> set xs. f x = Inl e"
  by (induction xs) (auto simp: result_simps)

lemma try_map_eq_Inr: "try_map f xs = Inr ys \<longleftrightarrow> list_all2 (\<lambda>x y. f x = Inr y) xs ys"
proof (induction xs arbitrary: ys)
  case Nil
  then show ?case by auto
next
  case (Cons x xs)
  then show ?case by (cases ys) (auto simp: result_simps)
qed

lemma try_map_eq_Inl: "try_map f xs = Inl e \<Longrightarrow> \<exists>x \<in> set xs. f x = Inl e"
  by (induction xs) (auto simp: result_simps)

lemma try_filter_map_Inr_all:
  "try_filter_map f xs = Inr ys \<Longrightarrow> x \<in> set xs \<Longrightarrow> \<exists>y. f x = Inr y"
  by (induction xs arbitrary: ys) (auto simp: result_simps split: option.splits)

lemma try_filter_map_eq_Inl: "try_filter_map f xs = Inl e \<Longrightarrow> \<exists>x \<in> set xs. f x = Inl e"
  by (induction xs) (auto simp: result_simps)

lemma try_filter_map_mem:
  "try_filter_map f xs = Inr ys \<Longrightarrow> y \<in> set ys \<longleftrightarrow> (\<exists>x \<in> set xs. f x = Inr (Some y))"
  by (induction xs arbitrary: ys) (auto simp: result_simps split: option.splits)

lemma try_filter_map_None:
  "(\<And>x. x \<in> set xs \<Longrightarrow> f x = Inr None) \<Longrightarrow> try_filter_map f xs = Inr []"
  by (induction xs) auto

lemma try_filter_map_all_Inr:
  "(\<And>x. x \<in> set xs \<Longrightarrow> \<exists>y. f x = Inr y) \<Longrightarrow> \<exists>ys. try_filter_map f xs = Inr ys"
proof (induction xs)
  case (Cons x xs)
  then obtain y ys where "f x = Inr y" "try_filter_map f xs = Inr ys" by fastforce
  then show ?case by simp
qed simp

lemma try_filter_map_cong:
  "(\<And>x. x \<in> set xs \<Longrightarrow> f x = g x) \<Longrightarrow> try_filter_map f xs = try_filter_map g xs"
  by (induction xs) auto

lemma try_filter_map_filter:
  assumes "try_filter_map f xs = Inr ys" and "\<And>x y. f x = Inr (Some y) \<Longrightarrow> Q y = P x"
  shows "try_filter_map f (filter P xs) = Inr (filter Q ys)"
  using assms(1)
proof (induction xs arbitrary: ys)
  case (Cons x xs)
  from Cons.prems obtain y ys' where y: "f x = Inr y" and ys': "try_filter_map f xs = Inr ys'"
    and ys: "ys = (case y of None \<Rightarrow> ys' | Some z \<Rightarrow> z # ys')"
    by (auto simp: result_simps)
  with Cons.IH [OF ys'] assms(2) show ?case by (cases y) auto
qed simp

lemma try_filter_map_sorted:
  assumes "try_filter_map f xs = Inr ys" and "\<And>x y. f x = Inr (Some y) \<Longrightarrow> h y = x"
    and "sorted_wrt R xs"
  shows "sorted_wrt R (map h ys)"
  using assms(1,3)
proof (induction xs arbitrary: ys)
  case (Cons x xs)
  from Cons.prems obtain y ys' where y: "f x = Inr y" and ys': "try_filter_map f xs = Inr ys'"
    and ys: "ys = (case y of None \<Rightarrow> ys' | Some z \<Rightarrow> z # ys')"
    by (auto simp: result_simps)
  have "\<forall>z \<in> set ys'. h z \<in> set xs" using try_filter_map_mem [OF ys'] assms(2) by auto
  with Cons.IH [OF ys'] Cons.prems(2) y ys assms(2) show ?case by (cases y) auto
qed simp

lemma try_filter_map_distinct:
  assumes "try_filter_map f xs = Inr ys" and "\<And>x y. f x = Inr (Some y) \<Longrightarrow> h y = g x"
    and "distinct (map g xs)"
  shows "distinct (map h ys)"
  using assms(1,3)
proof (induction xs arbitrary: ys)
  case Nil
  then show ?case by auto
next
  case (Cons x xs)
  from Cons.prems obtain y ys' where y: "f x = Inr y" and ys': "try_filter_map f xs = Inr ys'"
    and ys: "ys = (case y of None \<Rightarrow> ys' | Some z \<Rightarrow> z # ys')"
    by (auto simp: result_simps)
  have "distinct (map h ys')" using Cons ys' by simp
  moreover have "h z \<notin> h ` set ys'" if "y = Some z" for z
  proof
    assume "h z \<in> h ` set ys'"
    then obtain z' x' where "h z' = h z" "x' \<in> set xs" "f x' = Inr (Some z')"
      using try_filter_map_mem [OF ys'] by auto
    with assms(2) [of x z] assms(2) [of x' z'] y that have "g x = g x'" by simp
    with \<open>x' \<in> set xs\<close> Cons.prems(2) show False by simp
  qed
  ultimately show ?case using ys by (cases y) simp_all
qed

lemma try_each_cong [fundef_cong]:
  "xs = ys \<Longrightarrow> (\<And>x. x \<in> set ys \<Longrightarrow> f x = g x) \<Longrightarrow> try_each f xs = try_each g ys"
  by (induction ys arbitrary: xs) auto

text \<open>\<open>try_option f o\<close> is \<^verbatim>\<open>o.map(f).transpose()?\<close>.\<close>

definition try_option :: "('a \<Rightarrow> 'e + 'b) \<Rightarrow> 'a option \<Rightarrow> 'e + 'b option" where
  "try_option f m = (case m of None \<Rightarrow> Inr None | Some x \<Rightarrow> and_then (f x) (\<lambda>y. Inr (Some y)))"

lemma try_option_simps [simp]:
  "try_option f None = Inr None"
  "try_option f (Some x) = and_then (f x) (\<lambda>y. Inr (Some y))"
  by (simp_all add: try_option_def)

lemma try_option_eq_Inr [result_simps]:
  "try_option f m = Inr r \<longleftrightarrow>
     (case m of None \<Rightarrow> r = None | Some x \<Rightarrow> (\<exists>y. f x = Inr y \<and> r = Some y))"
  by (cases m) (auto simp: result_simps)

subsection \<open>Wire formats\<close>

text \<open>
  The contract of a message codec: exactly the well-formed values have an encoding, and decoding
  an encoding gives the value back. It lifts to optional and repeated fields.
\<close>

locale wire_codec =
  fixes valid :: "'a \<Rightarrow> bool"
    and enc :: "'a \<Rightarrow> 'e + 'p"
    and dec :: "'p \<Rightarrow> 'e + 'a"
  assumes enc_ok: "enc a = Inr p \<Longrightarrow> valid a"
    and enc_total: "valid a \<Longrightarrow> \<exists>p. enc a = Inr p"
    and dec_enc: "enc a = Inr p \<Longrightarrow> dec p = Inr a"
begin

lemma roundtrip: "valid a \<Longrightarrow> \<exists>p. enc a = Inr p \<and> dec p = Inr a"
  using enc_total dec_enc by blast

lemma valid_iff: "valid a \<longleftrightarrow> (\<exists>p. enc a = Inr p)"
  using enc_ok enc_total by blast

lemma enc_inj: "enc a = Inr p \<Longrightarrow> enc b = Inr p \<Longrightarrow> a = b"
  by (drule dec_enc, drule dec_enc) simp

lemma option_total: "(\<And>x. m = Some x \<Longrightarrow> valid x) \<Longrightarrow> \<exists>p. try_option enc m = Inr p"
  using enc_total by (cases m) fastforce+

lemma option_ok: "try_option enc m = Inr p \<Longrightarrow> m = Some x \<Longrightarrow> valid x"
  using enc_ok by (auto simp: result_simps)

lemma option_dec_enc: "try_option enc m = Inr p \<Longrightarrow> try_option dec p = Inr m"
  by (cases m) (auto simp: result_simps dest: dec_enc)

lemma list_total: "(\<And>x. x \<in> set xs \<Longrightarrow> valid x) \<Longrightarrow> \<exists>ps. try_map enc xs = Inr ps"
proof (induction xs)
  case (Cons x xs)
  then obtain p ps where "enc x = Inr p" "try_map enc xs = Inr ps"
    using enc_total [of x] by auto
  then show ?case by simp
qed simp

lemma list_ok: "try_map enc xs = Inr ps \<Longrightarrow> x \<in> set xs \<Longrightarrow> valid x"
  using enc_ok by (induction xs arbitrary: ps) (auto simp: result_simps)

lemma list_dec_enc: "try_map enc xs = Inr ps \<Longrightarrow> try_map dec ps = Inr xs"
  by (induction xs arbitrary: ps) (auto simp: result_simps dest: dec_enc)

end

subsection \<open>Running maxima\<close>

lemma fold_inflate:
  fixes f :: "'x \<Rightarrow> 'a::preorder \<Rightarrow> 'a"
  shows "(\<And>x a. a \<le> f x a) \<Longrightarrow> a \<le> fold f xs a"
  by (induction xs arbitrary: a) (auto intro: order_trans)

lemma fold_covers:
  fixes f :: "'x \<Rightarrow> 'a::preorder \<Rightarrow> 'a"
  assumes "\<And>x a. a \<le> f x a" and "\<And>a. b \<le> f x a" and "x \<in> set xs"
  shows "b \<le> fold f xs a"
  using assms(3)
proof (induction xs arbitrary: a)
  case (Cons y ys)
  show ?case
  proof (cases "x \<in> set ys")
    case False
    with Cons.prems have "x = y" by simp
    with assms(2) have "b \<le> f y a" by simp
    also have "\<dots> \<le> fold f ys (f y a)" using assms(1) by (rule fold_inflate)
    finally show ?thesis by simp
  qed (use Cons in simp)
qed simp

lemma fold_max_pair:
  "fold (\<lambda>x (a, b). (max a (f x), max b (g x))) xs (a, b) =
     (fold (\<lambda>x a. max a (f x)) xs a, fold (\<lambda>x b. max b (g x)) xs b)"
  by (induction xs arbitrary: a b) auto

section \<open>Step systems\<close>

text \<open>
  The contract of a state machine with an invariant: the initial state has it and every step
  keeps it. Then every state reached by any sequence of steps has it.
\<close>

locale step_invariant =
  fixes init :: "'s \<Rightarrow> bool"
    and step :: "'s \<Rightarrow> 's \<Rightarrow> bool"
    and inv :: "'s \<Rightarrow> bool"
  assumes init_inv: "init s \<Longrightarrow> inv s"
    and step_inv: "inv s \<Longrightarrow> step s s' \<Longrightarrow> inv s'"
begin

lemma steps_inv: "step\<^sup>*\<^sup>* s s' \<Longrightarrow> inv s \<Longrightarrow> inv s'"
  by (induction rule: rtranclp_induct) (auto intro: step_inv)

lemma reachable_inv: "init s \<Longrightarrow> step\<^sup>*\<^sup>* s s' \<Longrightarrow> inv s'"
  using init_inv steps_inv by blast

lemma steps_preserve:
  assumes "step\<^sup>*\<^sup>* s s'" and "inv s" and "P s"
    and "\<And>s s'. inv s \<Longrightarrow> P s \<Longrightarrow> step s s' \<Longrightarrow> P s'"
  shows "P s'"
proof -
  have "inv s' \<and> P s'"
    using assms(1) by (induction rule: rtranclp_induct) (auto intro: assms step_inv)
  then show ?thesis ..
qed

end

section \<open>Lists of bytes\<close>

text \<open>
  Comparison of byte strings is the lexicographic order of \<^theory_text>\<open>HOL-Library.List_Lexorder\<close>,
  which is the order of Rust slices and of \<^verbatim>\<open>Vec<u8>\<close>.
\<close>

lemma list_less_same_prefix [simp]:
  fixes xs ys zs :: "'a::linorder list"
  shows "(xs @ ys < xs @ zs) = (ys < zs)"
  by (induction xs) auto

lemma list_le_same_prefix [simp]:
  fixes xs ys zs :: "'a::linorder list"
  shows "(xs @ ys \<le> xs @ zs) = (ys \<le> zs)"
  by (simp add: le_less)

end
