(* ===== verification/BTreeMap.thy ===== *)
theory BTreeMap
  imports Prelude
begin

text \<open>
  \<^verbatim>\<open>std::collections::BTreeMap\<close> as the sources use it: a finite map that iterates in
  ascending key order. A map is a list of bindings with strictly ascending keys; the type
  makes that invariant part of every value, so two maps are equal exactly when they hold the
  same bindings, as in Rust. A \<^verbatim>\<open>BTreeSet\<close> is a map to \<^typ>\<open>unit\<close>.

  The locale \<open>ordered_map\<close> is the interface the components rely on: what a lookup
  returns after an insertion or a removal, and that iteration enumerates exactly the
  bindings, ascending. It is interpreted on the operations below.
\<close>

section \<open>The interface\<close>

locale ordered_map =
  fixes empty :: "'m"
    and insert :: "'k::linorder \<Rightarrow> 'v \<Rightarrow> 'm \<Rightarrow> 'm"
    and remove :: "'k \<Rightarrow> 'm \<Rightarrow> 'm"
    and get :: "'m \<Rightarrow> 'k \<Rightarrow> 'v option"
    and iter :: "'m \<Rightarrow> ('k \<times> 'v) list"
  assumes get_empty: "get empty k = None"
    and get_insert: "get (insert k v m) = (get m)(k \<mapsto> v)"
    and get_remove: "get (remove k m) = (get m)(k := None)"
    and iter_ascending: "sorted_wrt (<) (map fst (iter m))"
    and iter_get: "map_of (iter m) = get m"
begin

lemma iter_distinct: "distinct (map fst (iter m))"
  using iter_ascending strict_sorted_iff by blast

lemma iter_mem: "(k, v) \<in> set (iter m) \<longleftrightarrow> get m k = Some v"
  using iter_distinct [of m] by (simp add: map_of_eq_Some_iff flip: iter_get)

lemma finite_bindings: "finite (dom (get m))"
  by (simp add: finite_dom_map_of flip: iter_get)

lemma iter_keys: "fst ` set (iter m) = dom (get m)"
  by (simp add: dom_map_of_conv_image_fst flip: iter_get)

lemma iter_unique:
  assumes "get m = get m'"
  shows "iter m = iter m'"
proof (rule map_sorted_distinct_set_unique [where f = fst])
  from assms have "set (iter m) = set (iter m')"
    using iter_mem by auto
  then show "set (iter m) = set (iter m')" .
  show "inj_on fst (set (iter m) \<union> set (iter m'))"
    using iter_mem assms by (auto intro!: inj_onI)
  show "sorted (map fst (iter m))" "sorted (map fst (iter m'))"
    "distinct (map fst (iter m))" "distinct (map fst (iter m'))"
    using iter_ascending iter_distinct strict_sorted_iff by blast+
qed

lemma iter_empty: "iter empty = []"
  using iter_mem get_empty by (metis list.set_intros(1) neq_Nil_conv option.distinct(1) surj_pair)

end

section \<open>Ascending association lists\<close>

definition ascending :: "('k::linorder \<times> 'v) list \<Rightarrow> bool" where
  "ascending xs \<longleftrightarrow> sorted_wrt (<) (map fst xs)"

fun al_insert :: "'k::linorder \<Rightarrow> 'v \<Rightarrow> ('k \<times> 'v) list \<Rightarrow> ('k \<times> 'v) list" where
  "al_insert k v [] = [(k, v)]"
| "al_insert k v ((k', v') # r) =
     (if k < k' then (k, v) # (k', v') # r
      else if k = k' then (k, v) # r
      else (k', v') # al_insert k v r)"

definition al_retain :: "('k::linorder \<Rightarrow> 'v \<Rightarrow> bool) \<Rightarrow> ('k \<times> 'v) list \<Rightarrow> ('k \<times> 'v) list" where
  "al_retain P xs = filter (\<lambda>(k, v). P k v) xs"

lemma ascending_Nil [simp]: "ascending []"
  by (simp add: ascending_def)

lemma ascending_Cons [simp]:
  "ascending ((k, v) # r) \<longleftrightarrow> (\<forall>p \<in> set r. k < fst p) \<and> ascending r"
  by (simp add: ascending_def)

lemma set_al_insert: "p \<in> set (al_insert k v xs) \<Longrightarrow> p = (k, v) \<or> p \<in> set xs"
  by (induction xs) (auto split: if_splits)

lemma ascending_al_insert: "ascending xs \<Longrightarrow> ascending (al_insert k v xs)"
proof (induction xs)
  case Nil
  then show ?case by simp
next
  case (Cons p xs)
  then show ?case
    by (cases p) (auto dest: set_al_insert)
qed

lemma map_of_al_insert:
  "ascending xs \<Longrightarrow> map_of (al_insert k v xs) = (map_of xs)(k \<mapsto> v)"
  by (induction k v xs rule: al_insert.induct) (auto simp: fun_eq_iff)

lemma ascending_filter: "ascending xs \<Longrightarrow> ascending (filter P xs)"
  by (induction xs) auto

lemma ascending_al_retain: "ascending xs \<Longrightarrow> ascending (al_retain P xs)"
  by (simp add: al_retain_def ascending_filter)

lemma ascending_map_of_None:
  fixes k :: "'k::linorder"
  shows "(\<forall>p \<in> set xs. k < fst p) \<Longrightarrow> map_of xs k = None"
  by (induction xs) auto

lemma map_of_al_retain:
  "ascending xs \<Longrightarrow>
     map_of (al_retain P xs) k =
       (case map_of xs k of None \<Rightarrow> None | Some v \<Rightarrow> if P k v then Some v else None)"
proof (induction xs)
  case Nil
  then show ?case by (simp add: al_retain_def)
next
  case (Cons p xs)
  then have "map_of (al_retain P xs) (fst p) = None"
    by (cases p) (auto simp: al_retain_def intro!: ascending_map_of_None)
  with Cons show ?case
    by (cases p) (auto simp: al_retain_def)
qed

section \<open>The map type\<close>

typedef (overloaded) ('k::linorder, 'v) btree = "{xs :: ('k \<times> 'v) list. ascending xs}"
  morphisms bt_iter BTree
  by (rule exI [of _ "[]"]) simp

setup_lifting type_definition_btree

lift_definition bt_new :: "('k::linorder, 'v) btree" is "[]" by simp

lift_definition bt_insert :: "'k::linorder \<Rightarrow> 'v \<Rightarrow> ('k, 'v) btree \<Rightarrow> ('k, 'v) btree" is al_insert
  by (rule ascending_al_insert)

lift_definition bt_retain :: "('k::linorder \<Rightarrow> 'v \<Rightarrow> bool) \<Rightarrow> ('k, 'v) btree \<Rightarrow> ('k, 'v) btree" is al_retain
  by (rule ascending_al_retain)

definition bt_remove :: "'k::linorder \<Rightarrow> ('k, 'v) btree \<Rightarrow> ('k, 'v) btree" where
  "bt_remove k m = bt_retain (\<lambda>k' _. k' \<noteq> k) m"

definition bt_get :: "('k::linorder, 'v) btree \<Rightarrow> 'k \<Rightarrow> 'v option" where
  "bt_get m = map_of (bt_iter m)"

definition bt_contains_key :: "('k::linorder, 'v) btree \<Rightarrow> 'k \<Rightarrow> bool" where
  "bt_contains_key m k = (bt_get m k \<noteq> None)"

definition bt_is_empty :: "('k::linorder, 'v) btree \<Rightarrow> bool" where
  "bt_is_empty m = (bt_iter m = [])"

definition bt_len :: "('k::linorder, 'v) btree \<Rightarrow> nat" where
  "bt_len m = length (bt_iter m)"

definition bt_keys :: "('k::linorder, 'v) btree \<Rightarrow> 'k list" where
  "bt_keys m = map fst (bt_iter m)"

definition bt_values :: "('k::linorder, 'v) btree \<Rightarrow> 'v list" where
  "bt_values m = map snd (bt_iter m)"

definition bt_last_key_value :: "('k::linorder, 'v) btree \<Rightarrow> ('k \<times> 'v) option" where
  "bt_last_key_value m = (case bt_iter m of [] \<Rightarrow> None | _ \<Rightarrow> Some (last (bt_iter m)))"

definition bt_from_list :: "('k::linorder \<times> 'v) list \<Rightarrow> ('k, 'v) btree" where
  "bt_from_list xs = fold (\<lambda>(k, v). bt_insert k v) xs bt_new"

definition bt_extend :: "('k::linorder, 'v) btree \<Rightarrow> ('k, 'v) btree \<Rightarrow> ('k, 'v) btree" where
  "bt_extend m m' = fold (\<lambda>(k, v). bt_insert k v) (bt_iter m') m"

type_synonym 'k bset = "('k, unit) btree"

definition bs_insert :: "'k::linorder \<Rightarrow> 'k bset \<Rightarrow> 'k bset" where
  "bs_insert k s = bt_insert k () s"

definition bs_from_list :: "'k::linorder list \<Rightarrow> 'k bset" where
  "bs_from_list xs = fold bs_insert xs bt_new"

subsection \<open>Ranges\<close>

datatype 'k Bound = Included 'k | Excluded 'k | Unbounded

fun above :: "'k::linorder Bound \<Rightarrow> 'k \<Rightarrow> bool" where
  "above (Included b) k = (b \<le> k)"
| "above (Excluded b) k = (b < k)"
| "above Unbounded k = True"

fun below :: "'k::linorder Bound \<Rightarrow> 'k \<Rightarrow> bool" where
  "below (Included b) k = (k \<le> b)"
| "below (Excluded b) k = (k < b)"
| "below Unbounded k = True"

definition bt_range :: "('k::linorder, 'v) btree \<Rightarrow> 'k Bound \<Rightarrow> 'k Bound \<Rightarrow> ('k \<times> 'v) list" where
  "bt_range m lo hi = filter (\<lambda>p. above lo (fst p) \<and> below hi (fst p)) (bt_iter m)"

text \<open>
  \<^verbatim>\<open>BTreeMap::range\<close> panics when the lower bound is above the upper one and when both
  exclude the same key.
\<close>

fun range_panics :: "'k::linorder Bound \<Rightarrow> 'k Bound \<Rightarrow> bool" where
  "range_panics (Included a) (Included b) = (b < a)"
| "range_panics (Included a) (Excluded b) = (b < a)"
| "range_panics (Excluded a) (Included b) = (b < a)"
| "range_panics (Excluded a) (Excluded b) = (b \<le> a)"
| "range_panics _ _ = False"

text \<open>The call with its panic: \<open>panic\<close> stands for the unwinding.\<close>

definition range_or_panic ::
  "'e \<Rightarrow> ('k::linorder, 'v) btree \<Rightarrow> 'k Bound \<Rightarrow> 'k Bound \<Rightarrow> 'e + ('k \<times> 'v) list" where
  "range_or_panic panic m lo hi = (if range_panics lo hi then Inl panic else Inr (bt_range m lo hi))"

section \<open>The operations implement the interface\<close>

lemma bt_iter_ascending: "ascending (bt_iter m)"
  using bt_iter [of m] by simp

interpretation bt: ordered_map bt_new bt_insert bt_remove bt_get bt_iter
proof
  fix k k' :: "'k::linorder" and v :: 'v and m :: "('k, 'v) btree"
  show "bt_get (bt_new :: ('k, 'v) btree) k = None"
    by (simp add: bt_get_def bt_new.rep_eq)
  show "bt_get (bt_insert k v m) = (bt_get m)(k \<mapsto> v)"
    by (simp add: bt_get_def bt_insert.rep_eq map_of_al_insert bt_iter_ascending)
  show "bt_get (bt_remove k m) = (bt_get m)(k := None)"
    by (auto simp: bt_get_def bt_remove_def bt_retain.rep_eq map_of_al_retain bt_iter_ascending
        fun_eq_iff split: option.splits)
  show "sorted_wrt (<) (map fst (bt_iter m))"
    using bt_iter_ascending [of m] by (simp add: ascending_def)
  show "map_of (bt_iter m) = bt_get m"
    by (simp add: bt_get_def)
qed

lemmas bt_get_simps [simp] = bt.get_empty bt.get_insert bt.get_remove

lemma bt_get_new_fun: "bt_get bt_new = Map.empty"
  by (rule ext) simp

lemma bt_get_retain:
  "bt_get (bt_retain P m) k =
     (case bt_get m k of None \<Rightarrow> None | Some v \<Rightarrow> if P k v then Some v else None)"
  by (simp add: bt_get_def bt_retain.rep_eq map_of_al_retain bt_iter_ascending)

lemma bt_ext:
  assumes "bt_get m = bt_get m'"
  shows "m = m'"
  using bt.iter_unique [OF assms] by (simp add: bt_iter_inject)

lemma bt_eq_iff: "m = m' \<longleftrightarrow> (\<forall>k. bt_get m k = bt_get m' k)"
  by (auto intro: bt_ext ext)

lemma bt_insert_same: "bt_get m k = Some v \<Longrightarrow> bt_insert k v m = m"
  by (rule bt_ext) auto

lemma bt_insert_commute: "k \<noteq> k' \<Longrightarrow> bt_insert k v (bt_insert k' v' m) = bt_insert k' v' (bt_insert k v m)"
  by (rule bt_ext) auto

lemma bt_insert_insert [simp]: "bt_insert k v (bt_insert k v' m) = bt_insert k v m"
  by (rule bt_ext) auto

lemma bt_remove_insert: "bt_remove k (bt_insert k v m) = bt_remove k m"
  by (rule bt_ext) auto

lemma bt_remove_absent: "bt_get m k = None \<Longrightarrow> bt_remove k m = m"
  by (rule bt_ext) auto

lemma bt_is_empty_iff: "bt_is_empty m \<longleftrightarrow> (\<forall>k. bt_get m k = None)"
proof -
  have "bt_iter m = [] \<longleftrightarrow> dom (bt_get m) = {}"
    using bt.iter_keys [of m] by (metis image_is_empty set_empty)
  then show ?thesis
    by (simp add: bt_is_empty_def dom_def fun_eq_iff)
qed

lemma bt_contains_key_iff [simp]: "bt_contains_key m k \<longleftrightarrow> (\<exists>v. bt_get m k = Some v)"
  by (auto simp: bt_contains_key_def)

lemma set_bt_keys [simp]: "set (bt_keys m) = dom (bt_get m)"
  by (simp add: bt_keys_def bt.iter_keys)

lemma bt_keys_sorted: "sorted_wrt (<) (bt_keys m)"
  by (simp add: bt_keys_def bt.iter_ascending)

lemma bt_keys_distinct: "distinct (bt_keys m)"
  by (simp add: bt_keys_def bt.iter_distinct)

lemma bt_len_card: "bt_len m = card (dom (bt_get m))"
proof -
  have "card (dom (bt_get m)) = card (set (map fst (bt_iter m)))"
    by (simp add: bt.iter_keys)
  also have "\<dots> = length (bt_iter m)"
    using distinct_card [OF bt.iter_distinct [of m]] by simp
  finally show ?thesis
    by (simp add: bt_len_def)
qed

lemma bt_last_key_value_None: "bt_last_key_value m = None \<longleftrightarrow> bt_is_empty m"
  by (auto simp: bt_last_key_value_def bt_is_empty_def split: list.splits)

lemma ascending_last:
  "ascending xs \<Longrightarrow> (k, v) \<in> set xs \<Longrightarrow> k \<le> fst (last xs)"
  by (induction xs) (auto simp: less_imp_le)

lemma bt_last_key_value_max:
  assumes "bt_last_key_value m = Some (k, v)"
  shows "bt_get m k = Some v" and "bt_get m k' = Some v' \<Longrightarrow> k' \<le> k"
proof -
  from assms have ne: "bt_iter m \<noteq> []" and l: "last (bt_iter m) = (k, v)"
    by (auto simp: bt_last_key_value_def split: list.splits)
  from ne l have "(k, v) \<in> set (bt_iter m)"
    by (metis last_in_set)
  then show "bt_get m k = Some v"
    by (simp add: bt.iter_mem)
  assume "bt_get m k' = Some v'"
  then have "(k', v') \<in> set (bt_iter m)"
    by (simp add: bt.iter_mem)
  from ascending_last [OF bt_iter_ascending this] l show "k' \<le> k"
    by simp
qed

lemma set_bt_range:
  "(k, v) \<in> set (bt_range m lo hi) \<longleftrightarrow> bt_get m k = Some v \<and> above lo k \<and> below hi k"
  by (auto simp: bt_range_def bt.iter_mem)

lemma bt_range_ascending: "ascending (bt_range m lo hi)"
  by (simp add: bt_range_def ascending_filter bt_iter_ascending)

lemma bt_range_unbounded: "bt_range m Unbounded Unbounded = bt_iter m"
  by (simp add: bt_range_def)

lemma find_rev_ascending:
  "ascending xs \<Longrightarrow> find P (rev xs) = Some (k, v) \<longleftrightarrow>
     (k, v) \<in> set xs \<and> P (k, v) \<and> (\<forall>(k', v') \<in> set xs. P (k', v') \<longrightarrow> k' \<le> k)"
proof (induction xs rule: rev_induct)
  case Nil
  then show ?case by simp
next
  case (snoc x xs)
  obtain a b where x: "x = (a, b)" by (cases x)
  from snoc.prems have asc: "ascending xs" and below: "\<And>k v. (k, v) \<in> set xs \<Longrightarrow> k < a"
    by (auto simp: ascending_def sorted_wrt_append x)
  show ?case
  proof (cases "P (a, b)")
    case True
    then show ?thesis
      using below by (fastforce simp: x dest: less_imp_le)
  next
    case False
    then show ?thesis
      using snoc.IH [OF asc] by (auto simp: x)
  qed
qed

lemma find_rev_range_Some:
  "find P (rev (bt_range m lo hi)) = Some (k, v) \<longleftrightarrow>
     bt_get m k = Some v \<and> above lo k \<and> below hi k \<and> P (k, v) \<and>
     (\<forall>k' v'. bt_get m k' = Some v' \<longrightarrow> above lo k' \<longrightarrow> below hi k' \<longrightarrow> P (k', v') \<longrightarrow> k' \<le> k)"
  by (auto simp: find_rev_ascending bt_range_ascending set_bt_range)

lemma find_rev_range_None:
  "find P (rev (bt_range m lo hi)) = None \<longleftrightarrow>
     (\<forall>k v. bt_get m k = Some v \<longrightarrow> above lo k \<longrightarrow> below hi k \<longrightarrow> \<not> P (k, v))"
  by (auto simp: find_None_iff set_bt_range)

lemma bt_get_fold_insert:
  "bt_get (fold (\<lambda>(k, v). bt_insert k v) xs m) = bt_get m ++ map_of (rev xs)"
proof (induction xs arbitrary: m)
  case Nil
  then show ?case by simp
next
  case (Cons p xs)
  then show ?case
    by (cases p) (auto simp: fun_eq_iff map_add_def split: option.splits)
qed

lemma bt_get_extend: "bt_get (bt_extend m m') = bt_get m ++ bt_get m'"
proof -
  have "map_of (rev (bt_iter m')) = bt_get m'"
    using bt.iter_distinct [of m'] map_of_inject_set [of "rev (bt_iter m')" "bt_iter m'"]
    by (simp add: bt_get_def distinct_rev flip: rev_map)
  then show ?thesis
    by (simp add: bt_extend_def bt_get_fold_insert)
qed

lemma bt_get_from_list:
  assumes "distinct (map fst xs)"
  shows "bt_get (bt_from_list xs) = map_of xs"
proof -
  have "map_of (rev xs) = map_of xs"
    using assms map_of_inject_set [of "rev xs" xs] by (simp add: distinct_rev flip: rev_map)
  then show ?thesis
    by (simp add: bt_from_list_def bt_get_fold_insert bt_get_new_fun)
qed

lemma bt_from_list_iter [simp]: "bt_from_list (bt_iter m) = m"
  by (rule bt_ext) (simp add: bt_get_from_list bt.iter_distinct bt.iter_get)

lemma bt_get_bs_from_list: "bt_get (bs_from_list xs) k = (if k \<in> set xs then Some () else None)"
proof -
  have "bt_get (fold bs_insert xs s) k = (if k \<in> set xs then Some () else bt_get s k)" for s
    by (induction xs arbitrary: s) (auto simp: bs_insert_def)
  then show ?thesis
    by (simp add: bs_from_list_def)
qed

lemma bt_values_mem: "v \<in> set (bt_values m) \<longleftrightarrow> (\<exists>k. bt_get m k = Some v)"
  by (force simp: bt_values_def image_iff simp flip: bt.iter_mem)

lemma bt_iter_single: "bt_iter (bt_insert k v bt_new) = [(k, v)]"
  by (simp add: bt_insert.rep_eq bt_new.rep_eq)

lemma bt_keys_single: "bt_keys (bt_insert k v bt_new) = [k]"
  by (simp add: bt_keys_def bt_iter_single)

lemma bt_single_nonempty: "\<not> bt_is_empty (bt_insert k v bt_new)"
  by (simp add: bt_is_empty_def bt_iter_single)

section \<open>Equality\<close>

text \<open>Maps are compared by their bindings, as \<^verbatim>\<open>PartialEq\<close> on \<^verbatim>\<open>BTreeMap\<close> does.\<close>

instantiation btree :: (linorder, equal) equal
begin

definition equal_btree :: "('a, 'b) btree \<Rightarrow> ('a, 'b) btree \<Rightarrow> bool" where
  "equal_btree m m' \<longleftrightarrow>
     list_all2 (\<lambda>a b. fst a \<le> fst b \<and> fst b \<le> fst a \<and> snd a = snd b) (bt_iter m) (bt_iter m')"

instance
proof
  fix m m' :: "('a, 'b) btree"
  have "(\<lambda>a b. fst a \<le> fst b \<and> fst b \<le> fst a \<and> snd a = snd b) = ((=) :: 'a \<times> 'b \<Rightarrow> _)"
    by (auto simp: fun_eq_iff)
  then show "equal_class.equal m m' \<longleftrightarrow> m = m'"
    by (simp add: equal_btree_def list.rel_eq bt_iter_inject)
qed

end

section \<open>Maps rebuilt from entries\<close>

text \<open>
  \<open>insert_unique\<close> is \<^verbatim>\<open>if m.insert(k, v).is_some() { return Err(dup) }\<close>: a loop that
  rebuilds a map from a list of entries and refuses a repeated key.
\<close>

definition insert_unique ::
  "('k::linorder \<Rightarrow> 'e) \<Rightarrow> ('k, 'v) btree \<Rightarrow> 'k \<times> 'v \<Rightarrow> 'e + ('k, 'v) btree" where
  "insert_unique dup m kv =
     (if bt_contains_key m (fst kv) then Inl (dup (fst kv)) else Inr (bt_insert (fst kv) (snd kv) m))"

lemma try_fold_insert_unique:
  assumes "list_all2 (\<lambda>x kv. parse x = Inr kv) xs kvs" and "distinct (map fst kvs)"
    and "\<forall>kv \<in> set kvs. bt_get m (fst kv) = None"
  shows "try_fold (\<lambda>m x. and_then (parse x) (insert_unique dup m)) m xs =
    Inr (fold (\<lambda>(k, v). bt_insert k v) kvs m)"
  using assms
proof (induction xs kvs arbitrary: m rule: list_all2_induct)
  case (Cons x xs kv kvs)
  have "insert_unique dup m kv = Inr (bt_insert (fst kv) (snd kv) m)"
    using Cons.prems by (simp add: insert_unique_def)
  moreover have "try_fold (\<lambda>m x. and_then (parse x) (insert_unique dup m)) (bt_insert (fst kv) (snd kv) m) xs =
    Inr (fold (\<lambda>(k, v). bt_insert k v) kvs (bt_insert (fst kv) (snd kv) m))"
    using Cons.prems by (intro Cons.IH) (auto simp: image_iff)
  ultimately show ?case using Cons.hyps by (simp add: case_prod_unfold)
qed simp

lemma rebuild_map:
  assumes "\<And>k v. bt_get m k = Some v \<Longrightarrow> parse (enc (k, v)) = Inr (k, v)"
  shows "try_fold (\<lambda>m x. and_then (parse x) (insert_unique dup m)) bt_new (map enc (bt_iter m)) = Inr m"
proof -
  have "list_all2 (\<lambda>x kv. parse x = Inr kv) (map enc (bt_iter m)) (bt_iter m)"
    using assms by (auto simp: list_all2_conv_all_nth) (metis bt.iter_mem nth_mem surj_pair)
  from try_fold_insert_unique [OF this bt.iter_distinct, of bt_new dup]
  show ?thesis by (simp flip: bt_from_list_def)
qed

section \<open>Two-level maps\<close>

text \<open>
  The MVCC maps nest one map per row key. \<open>get2\<close> is
  \<^verbatim>\<open>m.get(k).and_then(|v| v.get(t))\<close>, \<open>insert2\<close> is
  \<^verbatim>\<open>m.entry(k).or_default().insert(t, v)\<close>.
\<close>

type_synonym ('k, 't, 'v) btree2 = "('k, ('t, 'v) btree) btree"

definition or_default :: "('t::linorder, 'v) btree option \<Rightarrow> ('t, 'v) btree" where
  "or_default m = (case m of None \<Rightarrow> bt_new | Some v \<Rightarrow> v)"

definition get2 :: "('k::linorder, 't::linorder, 'v) btree2 \<Rightarrow> 'k \<Rightarrow> 't \<Rightarrow> 'v option" where
  "get2 m k t = Option.bind (bt_get m k) (\<lambda>versions. bt_get versions t)"

definition insert2 ::
  "'k::linorder \<Rightarrow> 't::linorder \<Rightarrow> 'v \<Rightarrow> ('k, 't, 'v) btree2 \<Rightarrow> ('k, 't, 'v) btree2" where
  "insert2 k t v m = bt_insert k (bt_insert t v (or_default (bt_get m k))) m"

lemma or_default_simps [simp]:
  "or_default None = bt_new"
  "or_default (Some m) = m"
  by (simp_all add: or_default_def)

lemma get2_new [simp]: "get2 bt_new k t = None"
  by (simp add: get2_def)

lemma get2_insert2 [simp]:
  "get2 (insert2 k t v m) k' t' = (if k' = k \<and> t' = t then Some v else get2 m k' t')"
  by (cases "bt_get m k") (auto simp: get2_def insert2_def or_default_def)

lemma get2_Some: "get2 m k t = Some v \<longleftrightarrow> (\<exists>vs. bt_get m k = Some vs \<and> bt_get vs t = Some v)"
  by (cases "bt_get m k") (auto simp: get2_def)

lemma get2_None_key: "bt_get m k = None \<Longrightarrow> get2 m k t = None"
  by (simp add: get2_def)

lemma get2_Some_key: "bt_get m k = Some vs \<Longrightarrow> get2 m k t = bt_get vs t"
  by (simp add: get2_def)

end
