(* ===== verification/Bytes.thy ===== *)
theory Bytes
  imports Prelude
begin

text \<open>
  Byte-level primitives of the Rust standard library that the codecs use:
  \<^verbatim>\<open>to_be_bytes\<close>, \<^verbatim>\<open>from_be_bytes\<close> and \<^verbatim>\<open>from_le_bytes\<close> on the fixed-width
  integers, and the UTF-8 validation of \<^verbatim>\<open>String::from_utf8\<close>. The locale
  \<open>byte_codec\<close> states what a canonical codec promises; each codec of the program is
  interpreted in it. The locale \<open>ordered_code\<close> states what an order-preserving,
  prefix-free component encoding gives for tuples.
\<close>

unbundle bit_operations_syntax

section \<open>Fixed-width integers\<close>

primrec be_bytes :: "nat \<Rightarrow> nat \<Rightarrow> bytes" where
  "be_bytes 0 x = []"
| "be_bytes (Suc n) x = be_bytes n (x div 256) @ [of_nat x]"

fun be_nat_from :: "nat \<Rightarrow> bytes \<Rightarrow> nat" where
  "be_nat_from acc [] = acc"
| "be_nat_from acc (b # bs) = be_nat_from (acc * 256 + unat b) bs"

definition be_nat :: "bytes \<Rightarrow> nat" where
  "be_nat bs = be_nat_from 0 bs"

definition u64_to_be_bytes :: "u64 \<Rightarrow> bytes" where
  "u64_to_be_bytes w = be_bytes 8 (unat w)"

definition u64_from_be_bytes :: "bytes \<Rightarrow> u64" where
  "u64_from_be_bytes bs = of_nat (be_nat bs)"

definition u32_to_be_bytes :: "u32 \<Rightarrow> bytes" where
  "u32_to_be_bytes w = be_bytes 4 (unat w)"

definition u32_from_be_bytes :: "bytes \<Rightarrow> u32" where
  "u32_from_be_bytes bs = of_nat (be_nat bs)"

definition u64_to_le_bytes :: "u64 \<Rightarrow> bytes" where
  "u64_to_le_bytes w = rev (be_bytes 8 (unat w))"

definition u64_from_le_bytes :: "bytes \<Rightarrow> u64" where
  "u64_from_le_bytes bs = of_nat (be_nat (rev bs))"

definition u128_to_le_bytes :: "u128 \<Rightarrow> bytes" where
  "u128_to_le_bytes w = rev (be_bytes 16 (unat w))"

definition u128_from_le_bytes :: "bytes \<Rightarrow> u128" where
  "u128_from_le_bytes bs = of_nat (be_nat (rev bs))"

lemma length_be_bytes [simp]: "length (be_bytes n x) = n"
  by (induction n arbitrary: x) auto

lemma be_nat_from_eq: "be_nat_from acc bs = acc * 256 ^ length bs + be_nat bs"
proof (induction bs arbitrary: acc)
  case Nil
  then show ?case by (simp add: be_nat_def)
next
  case (Cons b bs)
  have "be_nat_from acc (b # bs) = (acc * 256 + unat b) * 256 ^ length bs + be_nat bs"
    using Cons.IH [of "acc * 256 + unat b"] by simp
  moreover have "be_nat (b # bs) = unat b * 256 ^ length bs + be_nat bs"
    using Cons.IH [of "unat b"] by (simp add: be_nat_def)
  ultimately show ?case
    by (simp add: algebra_simps)
qed

lemma be_nat_Nil [simp]: "be_nat [] = 0"
  by (simp add: be_nat_def)

lemma be_nat_Cons: "be_nat (b # bs) = unat b * 256 ^ length bs + be_nat bs"
  by (simp add: be_nat_def be_nat_from_eq [of "unat b"])

lemma be_nat_append: "be_nat (xs @ ys) = be_nat xs * 256 ^ length ys + be_nat ys"
  by (induction xs) (auto simp: be_nat_Cons power_add algebra_simps)

lemma byte_unat_lt: "unat (b :: u8) < 256"
  using unat_bound [of b] by simp

lemma be_nat_lt: "be_nat bs < 256 ^ length bs"
proof (induction bs)
  case Nil
  then show ?case by simp
next
  case (Cons b bs)
  have "unat b * 256 ^ length bs + be_nat bs < (unat b + 1) * 256 ^ length bs"
    using Cons.IH by (simp add: algebra_simps)
  also have "\<dots> \<le> 256 * 256 ^ length bs"
    using byte_unat_lt [of b] by (intro mult_right_mono) auto
  finally show ?case
    by (simp add: be_nat_Cons)
qed

lemma unat_of_nat_byte: "unat (of_nat x :: u8) = x mod 256"
  by (simp add: unat_of_nat)

lemma be_nat_be_bytes: "be_nat (be_bytes n x) = x mod 256 ^ n"
proof (induction n arbitrary: x)
  case 0
  then show ?case by simp
next
  case (Suc n)
  have "x mod (256 * 256 ^ n) = 256 * (x div 256 mod 256 ^ n) + x mod 256"
    by (rule mod_mult2_eq)
  with Suc show ?case
    by (simp add: be_nat_append be_nat_Cons unat_of_nat_byte)
qed

lemma be_bytes_be_nat: "be_bytes (length bs) (be_nat bs) = bs"
proof (induction bs rule: rev_induct)
  case Nil
  then show ?case by simp
next
  case (snoc b bs)
  have "(be_nat bs * 256 + unat b) div 256 = be_nat bs"
    using byte_unat_lt [of b] by simp
  moreover have "(of_nat (be_nat bs * 256 + unat b) :: u8) = b"
  proof (rule word_unat_eq_iff [THEN iffD2])
    show "unat (of_nat (be_nat bs * 256 + unat b) :: u8) = unat b"
      unfolding unat_of_nat_byte using byte_unat_lt [of b] by simp
  qed
  ultimately show ?case
    using snoc by (simp add: be_nat_append be_nat_Cons)
qed

lemma be_nat_less_iff:
  "length xs = length ys \<Longrightarrow> xs < ys \<longleftrightarrow> be_nat xs < be_nat ys"
proof (induction xs ys rule: list_induct2)
  case Nil
  then show ?case by simp
next
  case (Cons x xs y ys)
  let ?p = "(256 :: nat) ^ length ys"
  have lx: "be_nat xs < ?p" and ly: "be_nat ys < ?p"
    using be_nat_lt [of xs] be_nat_lt [of ys] Cons.hyps by auto
  consider "x = y" | "x < y" | "y < x"
    by (rule linorder_cases)
  then show ?case
  proof cases
    case 1
    with Cons show ?thesis by (simp add: be_nat_Cons)
  next
    case 2
    then have "unat x + 1 \<le> unat y" by (simp add: word_less_nat_alt)
    then have "(unat x + 1) * ?p \<le> unat y * ?p" by (rule mult_right_mono) simp
    with lx have "unat x * ?p + be_nat xs < unat y * ?p + be_nat ys"
      by (simp add: algebra_simps)
    with 2 Cons.hyps show ?thesis by (simp add: be_nat_Cons)
  next
    case 3
    then have "unat y + 1 \<le> unat x" by (simp add: word_less_nat_alt)
    then have "(unat y + 1) * ?p \<le> unat x * ?p" by (rule mult_right_mono) simp
    with ly have "\<not> unat x * ?p + be_nat xs < unat y * ?p + be_nat ys"
      by (simp add: algebra_simps)
    with 3 Cons.hyps show ?thesis by (auto simp: be_nat_Cons)
  qed
qed

lemma u64_be_length [simp]: "length (u64_to_be_bytes w) = 8"
  by (simp add: u64_to_be_bytes_def)

lemma u32_be_length [simp]: "length (u32_to_be_bytes w) = 4"
  by (simp add: u32_to_be_bytes_def)

lemma u64_be_roundtrip [simp]: "u64_from_be_bytes (u64_to_be_bytes w) = w"
  using unat_bound [of w] by (simp add: u64_from_be_bytes_def u64_to_be_bytes_def be_nat_be_bytes)

lemma u32_be_roundtrip [simp]: "u32_from_be_bytes (u32_to_be_bytes w) = w"
  using unat_bound [of w] by (simp add: u32_from_be_bytes_def u32_to_be_bytes_def be_nat_be_bytes)

lemma u64_be_inverse: "length bs = 8 \<Longrightarrow> u64_to_be_bytes (u64_from_be_bytes bs) = bs"
  using be_nat_lt [of bs] be_bytes_be_nat [of bs]
  by (simp add: u64_from_be_bytes_def u64_to_be_bytes_def unat_of_nat)

lemma u32_be_inverse: "length bs = 4 \<Longrightarrow> u32_to_be_bytes (u32_from_be_bytes bs) = bs"
  using be_nat_lt [of bs] be_bytes_be_nat [of bs]
  by (simp add: u32_from_be_bytes_def u32_to_be_bytes_def unat_of_nat)

lemma u64_be_less: "u64_to_be_bytes a < u64_to_be_bytes b \<longleftrightarrow> a < b"
  using unat_bound [of a] unat_bound [of b]
  by (simp add: be_nat_less_iff u64_to_be_bytes_def be_nat_be_bytes word_less_nat_alt)

lemma u64_be_inj [simp]: "u64_to_be_bytes a = u64_to_be_bytes b \<longleftrightarrow> a = b"
  by (metis u64_be_roundtrip)

lemma u64_le_roundtrip [simp]: "u64_from_le_bytes (u64_to_le_bytes w) = w"
  using unat_bound [of w] by (simp add: u64_from_le_bytes_def u64_to_le_bytes_def be_nat_be_bytes)

lemma u64_le_length [simp]: "length (u64_to_le_bytes w) = 8"
  by (simp add: u64_to_le_bytes_def)

lemma u128_le_roundtrip [simp]: "u128_from_le_bytes (u128_to_le_bytes w) = w"
  using unat_bound [of w] by (simp add: u128_from_le_bytes_def u128_to_le_bytes_def be_nat_be_bytes)

lemma u128_le_length [simp]: "length (u128_to_le_bytes w) = 16"
  by (simp add: u128_to_le_bytes_def)

text \<open>Code equations that compute on binary integers instead of unary naturals.\<close>

primrec be_bytes_int :: "nat \<Rightarrow> int \<Rightarrow> bytes" where
  "be_bytes_int 0 x = []"
| "be_bytes_int (Suc n) x = be_bytes_int n (x div 256) @ [of_int x]"

fun be_int_from :: "int \<Rightarrow> bytes \<Rightarrow> int" where
  "be_int_from acc [] = acc"
| "be_int_from acc (b # bs) = be_int_from (acc * 256 + uint b) bs"

lemma be_bytes_int: "be_bytes n x = be_bytes_int n (int x)"
  by (induction n arbitrary: x) (simp_all add: zdiv_int)

lemma be_int_from: "int (be_nat_from acc bs) = be_int_from (int acc) bs"
  by (induction acc bs rule: be_nat_from.induct) simp_all

lemma be_nat_int: "of_nat (be_nat bs) = (of_int (be_int_from 0 bs) :: 'a::len word)"
proof -
  have "of_nat (be_nat bs) = (of_int (int (be_nat bs)) :: 'a word)" by simp
  also have "int (be_nat bs) = be_int_from 0 bs"
    unfolding be_nat_def be_int_from by simp
  finally show ?thesis .
qed

lemma fixed_width_code [code]:
  "u64_to_be_bytes w = be_bytes_int 8 (uint w)"
  "u32_to_be_bytes v = be_bytes_int 4 (uint v)"
  "u64_from_be_bytes bs = of_int (be_int_from 0 bs)"
  "u32_from_be_bytes bs = of_int (be_int_from 0 bs)"
  by (simp_all only: u64_to_be_bytes_def u32_to_be_bytes_def u64_from_be_bytes_def
      u32_from_be_bytes_def be_bytes_int be_nat_int uint_nat)

section \<open>UTF-8\<close>

text \<open>
  Well-formed UTF-8 byte sequences (Unicode table 3-7), which is what
  \<^verbatim>\<open>std::str::from_utf8\<close> accepts. A Rust \<^verbatim>\<open>String\<close> is a byte list that
  satisfies this predicate.
\<close>

definition utf8_between :: "u8 \<Rightarrow> u8 \<Rightarrow> u8 \<Rightarrow> bool" where
  "utf8_between lo hi b \<longleftrightarrow> lo \<le> b \<and> b \<le> hi"

definition utf8_cont :: "u8 \<Rightarrow> bool" where
  "utf8_cont b \<longleftrightarrow> utf8_between 0x80 0xBF b"

definition utf8_second3 :: "u8 \<Rightarrow> u8 \<Rightarrow> bool" where
  "utf8_second3 b0 b1 \<longleftrightarrow>
     (if b0 = 0xE0 then utf8_between 0xA0 0xBF b1
      else if b0 = 0xED then utf8_between 0x80 0x9F b1
      else utf8_cont b1)"

definition utf8_second4 :: "u8 \<Rightarrow> u8 \<Rightarrow> bool" where
  "utf8_second4 b0 b1 \<longleftrightarrow>
     (if b0 = 0xF0 then utf8_between 0x90 0xBF b1
      else if b0 = 0xF4 then utf8_between 0x80 0x8F b1
      else utf8_cont b1)"

fun utf8_valid :: "bytes \<Rightarrow> bool" where
  "utf8_valid [] = True"
| "utf8_valid (b0 # r) =
     (if b0 \<le> 0x7F then utf8_valid r
      else if utf8_between 0xC2 0xDF b0 then
        (case r of b1 # r' \<Rightarrow> utf8_cont b1 \<and> utf8_valid r' | _ \<Rightarrow> False)
      else if utf8_between 0xE0 0xEF b0 then
        (case r of b1 # b2 # r' \<Rightarrow> utf8_second3 b0 b1 \<and> utf8_cont b2 \<and> utf8_valid r' | _ \<Rightarrow> False)
      else if utf8_between 0xF0 0xF4 b0 then
        (case r of b1 # b2 # b3 # r' \<Rightarrow>
           utf8_second4 b0 b1 \<and> utf8_cont b2 \<and> utf8_cont b3 \<and> utf8_valid r' | _ \<Rightarrow> False)
      else False)"

lemma utf8_valid_ascii: "\<forall>b \<in> set bs. b \<le> 0x7F \<Longrightarrow> utf8_valid bs"
  by (induction bs) auto

section \<open>Canonical codecs\<close>

text \<open>
  A codec is canonical when decoding an encoding gives the value back and when every
  accepted byte string is the encoding of what it decodes to. \<open>ok\<close> restricts the
  values (a Rust \<^verbatim>\<open>String\<close> holds valid UTF-8), \<open>fits\<close> the byte strings (an
  allocation fits the address space).
\<close>

locale byte_codec =
  fixes ok :: "'a \<Rightarrow> bool"
    and fits :: "bytes \<Rightarrow> bool"
    and enc :: "'a \<Rightarrow> 'e + bytes"
    and dec :: "bytes \<Rightarrow> 'f + 'a"
  assumes dec_enc: "ok x \<Longrightarrow> enc x = Inr bs \<Longrightarrow> fits bs \<Longrightarrow> dec bs = Inr x"
    and enc_dec: "dec bs = Inr x \<Longrightarrow> enc x = Inr bs"
begin

lemma enc_inj: "ok x \<Longrightarrow> ok y \<Longrightarrow> enc x = Inr bs \<Longrightarrow> enc y = Inr bs \<Longrightarrow> fits bs \<Longrightarrow> x = y"
  using dec_enc by (metis sum.inject(2))

lemma dec_inj: "dec bs = Inr x \<Longrightarrow> dec bs' = Inr x \<Longrightarrow> bs = bs'"
  using enc_dec by (metis sum.inject(2))

lemma dec_iff: "ok x \<Longrightarrow> fits bs \<Longrightarrow> dec bs = Inr x \<longleftrightarrow> enc x = Inr bs"
  using dec_enc enc_dec by blast

end

section \<open>Order-preserving component codes\<close>

text \<open>
  Concatenating components preserves the lexicographic order of tuples when the code of
  each component decides the comparison whatever follows it. That one law contains both
  monotonicity and prefix-freedom.
\<close>

fun tuple_less :: "('a \<Rightarrow> 'a \<Rightarrow> bool) \<Rightarrow> 'a list \<Rightarrow> 'a list \<Rightarrow> bool" where
  "tuple_less lt _ [] = False"
| "tuple_less lt [] (_ # _) = True"
| "tuple_less lt (a # as) (b # bs) = (if a = b then tuple_less lt as bs else lt a b)"

lemma tuple_less_irrefl: "\<not> tuple_less lt as as"
  by (induction as) auto

locale ordered_code =
  fixes comparable :: "'a \<Rightarrow> 'a \<Rightarrow> bool"
    and less_than :: "'a \<Rightarrow> 'a \<Rightarrow> bool"
    and code :: "'a \<Rightarrow> bytes"
  assumes code_decides: "comparable a b \<Longrightarrow> less_than a b \<Longrightarrow> code a @ xs < code b @ ys"
    and comparable_sym: "comparable a b \<Longrightarrow> comparable b a"
    and comparable_total: "comparable a b \<Longrightarrow> a = b \<or> less_than a b \<or> less_than b a"
begin

lemma code_not_less: "comparable a b \<Longrightarrow> a \<noteq> b \<Longrightarrow> \<not> less_than a b \<Longrightarrow> \<not> code a @ xs < code b @ ys"
  using code_decides comparable_sym comparable_total by (meson order_less_asym)

lemma concat_code_less:
  "list_all2 comparable as bs \<Longrightarrow>
     concat (map code as) < concat (map code bs) \<longleftrightarrow> tuple_less less_than as bs"
proof (induction as bs rule: list_all2_induct)
  case Nil
  then show ?case by simp
next
  case (Cons a as b bs)
  show ?case
  proof (cases "a = b")
    case True
    with Cons show ?thesis by simp
  next
    case False
    with Cons.hyps show ?thesis
      using code_decides code_not_less by (cases "less_than a b") auto
  qed
qed

lemma tuple_less_total:
  "list_all2 comparable as bs \<Longrightarrow> as \<noteq> bs \<Longrightarrow> tuple_less less_than as bs \<or> tuple_less less_than bs as"
proof (induction as bs rule: list_all2_induct)
  case Nil
  then show ?case by simp
next
  case (Cons a as b bs)
  then show ?case
    using comparable_total by auto
qed

lemma concat_code_inj:
  assumes "list_all2 comparable as bs" and "concat (map code as) = concat (map code bs)"
  shows "as = bs"
proof (rule ccontr)
  assume "as \<noteq> bs"
  with assms(1) consider "tuple_less less_than as bs" | "tuple_less less_than bs as"
    using tuple_less_total by blast
  then show False
  proof cases
    case 1
    with assms(2) show False
      using concat_code_less [OF assms(1)] by simp
  next
    case 2
    have "list_all2 comparable bs as"
      using assms(1) comparable_sym by (auto simp: list_all2_conv_all_nth)
    with 2 assms(2) show False
      using concat_code_less [of bs as] by simp
  qed
qed

end

end
