(* ===== verification/Value_Encoding.thy ===== *)
theory Value_Encoding
  imports Bytes
begin

text \<open>
  The canonical storage encoding of SQL values and rows
  (\<^verbatim>\<open>ragnordb-common/src/encoding.rs\<close>, with \<^verbatim>\<open>Value\<close> and \<^verbatim>\<open>Row\<close>
  of \<^verbatim>\<open>codec.rs\<close>): the encoders, the bounds-checked decoder cursor, the decoders, and
  the proof that the codec is canonical.
\<close>

section \<open>Values and rows\<close>

datatype Value = VInt i64 | VText bytes | VBool bool | VNull

record Row =
  row_values :: "Value list"

text \<open>A \<^verbatim>\<open>String\<close> holds valid UTF-8.\<close>

fun wf_value :: "Value \<Rightarrow> bool" where
  "wf_value (VText bs) = utf8_valid bs"
| "wf_value _ = True"

definition wf_row :: "Row \<Rightarrow> bool" where
  "wf_row row \<longleftrightarrow> list_all wf_value (row_values row)"

section \<open>The decoder cursor\<close>

record Decoder =
  d_bytes :: bytes
  d_position :: nat

definition Decoder_new :: "bytes \<Rightarrow> Decoder" where
  "Decoder_new bs = \<lparr>d_bytes = bs, d_position = 0\<rparr>"

definition Decoder_remaining :: "Decoder \<Rightarrow> nat" where
  "Decoder_remaining d = length (d_bytes d) - d_position d"

definition Decoder_read_exact :: "Decoder \<Rightarrow> nat \<Rightarrow> (bytes \<times> Decoder) result" where
  "Decoder_read_exact d n =
     and_then (ok_or (checked_add_usize (d_position d) n) CorruptData) (\<lambda>end_pos.
       if end_pos > length (d_bytes d) then Inl CorruptData
       else Inr (take (end_pos - d_position d) (drop (d_position d) (d_bytes d)),
                 d\<lparr>d_position := end_pos\<rparr>))"

definition Decoder_read_u8 :: "Decoder \<Rightarrow> (u8 \<times> Decoder) result" where
  "Decoder_read_u8 d = and_then (Decoder_read_exact d 1) (\<lambda>(bs, d'). Inr (bs ! 0, d'))"

definition Decoder_read_u32 :: "Decoder \<Rightarrow> (u32 \<times> Decoder) result" where
  "Decoder_read_u32 d =
     and_then (Decoder_read_exact d 4) (\<lambda>(bs, d'). Inr (u32_from_be_bytes bs, d'))"

definition Decoder_finish :: "Decoder \<Rightarrow> unit result" where
  "Decoder_finish d = ensure (d_position d = length (d_bytes d)) CorruptData"

section \<open>Encoders\<close>

definition ROW_FORMAT_VERSION :: u8 where [simp]: "ROW_FORMAT_VERSION = 1"
definition VALUE_TAG_NULL :: u8 where [simp]: "VALUE_TAG_NULL = 0x00"
definition VALUE_TAG_INT :: u8 where [simp]: "VALUE_TAG_INT = 0x01"
definition VALUE_TAG_TEXT :: u8 where [simp]: "VALUE_TAG_TEXT = 0x02"
definition VALUE_TAG_BOOL :: u8 where [simp]: "VALUE_TAG_BOOL = 0x03"

definition u32_try_from :: "nat \<Rightarrow> u32 result" where
  "u32_try_from n = (if n < 2 ^ 32 then Inr (of_nat n) else Inl InvalidArgument)"

lemma u32_try_from_code [code]:
  "u32_try_from n = (if int n < 4294967296 then Inr (of_nat n) else Inl InvalidArgument)"
  by (auto simp: u32_try_from_def)

fun encode_value_into :: "Value \<Rightarrow> bytes \<Rightarrow> bytes result" where
  "encode_value_into VNull output = Inr (output @ [VALUE_TAG_NULL])"
| "encode_value_into (VInt v) output = Inr (output @ [VALUE_TAG_INT] @ u64_to_be_bytes v)"
| "encode_value_into (VText v) output =
     and_then (u32_try_from (length v)) (\<lambda>len.
       Inr (output @ [VALUE_TAG_TEXT] @ u32_to_be_bytes len @ v))"
| "encode_value_into (VBool v) output =
     Inr (output @ [VALUE_TAG_BOOL] @ [if v then 1 else 0])"

definition encode_value :: "Value \<Rightarrow> bytes result" where
  "encode_value v = encode_value_into v []"

definition encode_row :: "Row \<Rightarrow> bytes result" where
  "encode_row row =
     and_then (u32_try_from (length (row_values row))) (\<lambda>value_count.
       try_fold (\<lambda>output v. encode_value_into v output)
         ([ROW_FORMAT_VERSION] @ u32_to_be_bytes value_count) (row_values row))"

section \<open>Decoders\<close>

definition decode_value_from :: "Decoder \<Rightarrow> (Value \<times> Decoder) result" where
  "decode_value_from d =
     and_then (Decoder_read_u8 d) (\<lambda>(tag, d1).
       if tag = VALUE_TAG_NULL then Inr (VNull, d1)
       else if tag = VALUE_TAG_INT then
         and_then (Decoder_read_exact d1 8) (\<lambda>(bs, d2). Inr (VInt (u64_from_be_bytes bs), d2))
       else if tag = VALUE_TAG_TEXT then
         and_then (Decoder_read_u32 d1) (\<lambda>(len, d2).
         and_then (Decoder_read_exact d2 (unat len)) (\<lambda>(bs, d3).
           if utf8_valid bs then Inr (VText bs, d3) else Inl CorruptData))
       else if tag = VALUE_TAG_BOOL then
         and_then (Decoder_read_u8 d1) (\<lambda>(b, d2).
           if b = 0 then Inr (VBool False, d2)
           else if b = 1 then Inr (VBool True, d2)
           else Inl CorruptData)
       else Inl CorruptData)"

primrec decode_values :: "nat \<Rightarrow> Decoder \<Rightarrow> (Value list \<times> Decoder) result" where
  "decode_values 0 d = Inr ([], d)"
| "decode_values (Suc n) d =
     and_then (decode_value_from d) (\<lambda>(v, d').
     and_then (decode_values n d') (\<lambda>(vs, d''). Inr (v # vs, d'')))"

definition decode_value :: "bytes \<Rightarrow> Value result" where
  "decode_value bs =
     and_then (decode_value_from (Decoder_new bs)) (\<lambda>(v, d).
     and_then (Decoder_finish d) (\<lambda>_. Inr v))"

definition decode_row :: "bytes \<Rightarrow> Row result" where
  "decode_row bs =
     and_then (Decoder_read_u8 (Decoder_new bs)) (\<lambda>(version, d1).
     if version \<noteq> ROW_FORMAT_VERSION then Inl CorruptData else
     and_then (Decoder_read_u32 d1) (\<lambda>(value_count, d2).
     if unat value_count > Decoder_remaining d2 then Inl CorruptData else
     and_then (decode_values (unat value_count) d2) (\<lambda>(vs, d3).
     and_then (Decoder_finish d3) (\<lambda>_. Inr \<lparr>row_values = vs\<rparr>))))"

section \<open>The cursor reads the unread suffix\<close>

definition d_rest :: "Decoder \<Rightarrow> bytes" where
  "d_rest d = drop (d_position d) (d_bytes d)"

definition d_ok :: "Decoder \<Rightarrow> bool" where
  "d_ok d \<longleftrightarrow> d_position d \<le> length (d_bytes d)"

definition d_fits :: "Decoder \<Rightarrow> bool" where
  "d_fits d \<longleftrightarrow> length (d_bytes d) \<le> usize_max"

definition d_advance :: "Decoder \<Rightarrow> nat \<Rightarrow> Decoder" where
  "d_advance d n = d\<lparr>d_position := d_position d + n\<rparr>"

lemma d_advance_simps [simp]:
  "d_bytes (d_advance d n) = d_bytes d"
  "d_position (d_advance d n) = d_position d + n"
  "d_rest (d_advance d n) = drop n (d_rest d)"
  "d_fits (d_advance d n) = d_fits d"
  "d_advance (d_advance d n) m = d_advance d (n + m)"
  "d_advance d 0 = d"
  by (simp_all add: d_advance_def d_rest_def d_fits_def add.commute add.left_commute)

lemma d_rest_new [simp]: "d_rest (Decoder_new bs) = bs"
  by (simp add: d_rest_def Decoder_new_def)

lemma d_new_simps [simp]:
  "d_bytes (Decoder_new bs) = bs" "d_position (Decoder_new bs) = 0" "d_ok (Decoder_new bs)"
  "d_fits (Decoder_new bs) \<longleftrightarrow> length bs \<le> usize_max"
  by (simp_all add: Decoder_new_def d_ok_def d_fits_def)

lemma length_d_rest: "length (d_rest d) = length (d_bytes d) - d_position d"
  by (simp add: d_rest_def)

lemma read_exact_Inr:
  "Decoder_read_exact d n = Inr (bs, d') \<longleftrightarrow>
     d_position d + n \<le> usize_max \<and> d_position d + n \<le> length (d_bytes d) \<and>
     bs = take n (d_rest d) \<and> d' = d_advance d n"
  by (auto simp: Decoder_read_exact_def result_simps d_rest_def d_advance_def not_less
      split: if_splits)

lemma read_exact_advances:
  assumes "d_ok d" and "Decoder_read_exact d n = Inr (bs, d')"
  shows "d_rest d = bs @ d_rest d'" and "length bs = n" and "d_ok d'" and "d_bytes d' = d_bytes d"
  using assms by (auto simp: read_exact_Inr d_ok_def length_d_rest)

lemma read_exact_prefix:
  assumes "d_ok d" and "d_fits d" and "d_rest d = bs @ r"
  shows "Decoder_read_exact d (length bs) = Inr (bs, d_advance d (length bs))"
    and "d_ok (d_advance d (length bs))"
proof -
  from assms have "d_position d + length bs \<le> length (d_bytes d)"
    using length_d_rest [of d] by (simp add: d_ok_def)
  with assms show "Decoder_read_exact d (length bs) = Inr (bs, d_advance d (length bs))"
    and "d_ok (d_advance d (length bs))"
    by (simp_all add: read_exact_Inr d_fits_def d_ok_def)
qed

lemma read_u8_advances:
  assumes "d_ok d" and "Decoder_read_u8 d = Inr (b, d')"
  shows "d_rest d = b # d_rest d'" and "d_ok d'" and "d_bytes d' = d_bytes d"
proof -
  from assms(2) obtain bs where r: "Decoder_read_exact d 1 = Inr (bs, d')" and b: "b = bs ! 0"
    by (auto simp: Decoder_read_u8_def result_simps)
  note a = read_exact_advances [OF assms(1) r]
  from a(2) b have "bs = [b]" by (cases bs) auto
  with a show "d_rest d = b # d_rest d'" and "d_ok d'" and "d_bytes d' = d_bytes d"
    by auto
qed

lemma read_u8_prefix:
  assumes "d_ok d" and "d_fits d" and "d_rest d = b # r"
  shows "Decoder_read_u8 d = Inr (b, d_advance d 1)" and "d_ok (d_advance d 1)"
  using read_exact_prefix [of d "[b]" r] assms by (simp_all add: Decoder_read_u8_def)

lemma read_u32_advances:
  assumes "d_ok d" and "Decoder_read_u32 d = Inr (w, d')"
  shows "d_rest d = u32_to_be_bytes w @ d_rest d'" and "d_ok d'" and "d_bytes d' = d_bytes d"
proof -
  from assms(2) obtain bs where r: "Decoder_read_exact d 4 = Inr (bs, d')"
    and w: "w = u32_from_be_bytes bs"
    by (auto simp: Decoder_read_u32_def result_simps)
  note a = read_exact_advances [OF assms(1) r]
  then show "d_rest d = u32_to_be_bytes w @ d_rest d'" and "d_ok d'" and "d_bytes d' = d_bytes d"
    using w by (auto simp: u32_be_inverse)
qed

lemma read_u32_prefix:
  assumes "d_ok d" and "d_fits d" and "d_rest d = u32_to_be_bytes w @ r"
  shows "Decoder_read_u32 d = Inr (w, d_advance d 4)" and "d_ok (d_advance d 4)"
  using read_exact_prefix [of d "u32_to_be_bytes w" r] assms by (simp_all add: Decoder_read_u32_def)

section \<open>The code of one value\<close>

fun value_code :: "Value \<Rightarrow> bytes" where
  "value_code VNull = [0]"
| "value_code (VInt v) = 1 # u64_to_be_bytes v"
| "value_code (VText v) = 2 # u32_to_be_bytes (of_nat (length v)) @ v"
| "value_code (VBool v) = [3, if v then 1 else 0]"

fun value_fits :: "Value \<Rightarrow> bool" where
  "value_fits (VText v) = (length v < 2 ^ 32)"
| "value_fits _ = True"

lemma encode_value_into_eq:
  "encode_value_into v output =
     (if value_fits v then Inr (output @ value_code v) else Inl InvalidArgument)"
  by (cases v) (auto simp: u32_try_from_def)

lemma encode_values_eq:
  "try_fold (\<lambda>output v. encode_value_into v output) pre vs =
     (if list_all value_fits vs then Inr (pre @ concat (map value_code vs))
      else Inl InvalidArgument)"
  by (induction vs arbitrary: pre) (auto simp: encode_value_into_eq)

definition row_code :: "Row \<Rightarrow> bytes" where
  "row_code row =
     1 # u32_to_be_bytes (of_nat (length (row_values row))) @ concat (map value_code (row_values row))"

lemma encode_row_eq:
  "encode_row row =
     (if length (row_values row) < 2 ^ 32 \<and> list_all value_fits (row_values row)
      then Inr (row_code row) else Inl InvalidArgument)"
  by (auto simp: encode_row_def u32_try_from_def encode_values_eq row_code_def)

lemma length_value_code: "0 < length (value_code v)"
  by (cases v) auto

lemma length_values_code: "length vs \<le> length (concat (map value_code vs))"
proof (induction vs)
  case (Cons v vs)
  then show ?case using length_value_code [of v] unfolding list.map concat.simps length_append
      list.size by linarith
qed simp

section \<open>Decoding inverts encoding\<close>

lemma decode_value_from_code:
  assumes "d_ok d" and "d_fits d" and "d_rest d = value_code v @ r"
    and "value_fits v" and "wf_value v"
  shows "decode_value_from d = Inr (v, d_advance d (length (value_code v)))"
    and "d_ok (d_advance d (length (value_code v)))"
proof -
  obtain t c where tc: "value_code v = t # c" by (cases v) auto
  let ?d1 = "d_advance d 1"
  have u: "Decoder_read_u8 d = Inr (t, ?d1)" "d_ok ?d1"
    using read_u8_prefix assms tc by auto
  have r1: "d_rest ?d1 = c @ r" using assms(3) tc by simp
  note p = read_exact_prefix [of ?d1, OF u(2)]
  show "decode_value_from d = Inr (v, d_advance d (length (value_code v)))"
  proof (cases v)
    case (VText s)
    let ?d2 = "d_advance d 5"
    have c: "c = u32_to_be_bytes (of_nat (length s)) @ s" and t: "t = 2"
      using tc VText by auto
    have w: "Decoder_read_u32 ?d1 = Inr (of_nat (length s), ?d2)" "d_ok ?d2"
      using read_u32_prefix [of ?d1 "of_nat (length s)" "s @ r"] u(2) r1 c assms(2) by simp_all
    have r2: "d_rest ?d2 = s @ r" using assms(3) VText by simp
    have l: "unat (of_nat (length s) :: u32) = length s"
      using assms(4) VText by (simp add: unat_of_nat)
    show ?thesis
      using read_exact_prefix [of ?d2 s r] w r2 u assms(2,5) t l VText
      by (simp add: decode_value_from_def)
  next
    case (VInt i)
    then have "c = u64_to_be_bytes i" and "t = 1" using tc by auto
    with VInt show ?thesis
      using p [of "u64_to_be_bytes i" r] u r1 assms(2) by (simp add: decode_value_from_def)
  next
    case (VBool b)
    then show ?thesis
      using read_u8_prefix [of ?d1 "if b then 1 else 0" r] u r1 tc assms(2)
      by (auto simp: decode_value_from_def)
  next
    case VNull
    then show ?thesis
      using u tc by (simp add: decode_value_from_def)
  qed
  show "d_ok (d_advance d (length (value_code v)))"
    using read_exact_prefix(2) assms(1-3) by blast
qed

lemma decode_values_code:
  assumes "d_ok d" and "d_fits d" and "d_rest d = concat (map value_code vs) @ r"
    and "list_all value_fits vs" and "list_all wf_value vs"
  shows "decode_values (length vs) d = Inr (vs, d_advance d (length (concat (map value_code vs))))"
  using assms
proof (induction vs arbitrary: d)
  case Nil
  then show ?case by simp
next
  case (Cons v vs)
  note s = decode_value_from_code [of d v "concat (map value_code vs) @ r"]
  have "decode_value_from d = Inr (v, d_advance d (length (value_code v)))"
    and ok: "d_ok (d_advance d (length (value_code v)))"
    using s Cons.prems by auto
  moreover have "decode_values (length vs) (d_advance d (length (value_code v))) =
      Inr (vs, d_advance (d_advance d (length (value_code v))) (length (concat (map value_code vs))))"
    by (rule Cons.IH) (use Cons.prems ok in auto)
  ultimately show ?case by simp
qed

lemma decode_row_code:
  assumes "wf_row row" and "encode_row row = Inr bs" and "length bs \<le> usize_max"
  shows "decode_row bs = Inr row"
proof -
  let ?vs = "row_values row" and ?d = "Decoder_new bs"
  let ?n = "of_nat (length ?vs) :: u32"
  from assms(2) have len: "length ?vs < 2 ^ 32" and fits: "list_all value_fits ?vs"
    and bs: "bs = 1 # u32_to_be_bytes ?n @ concat (map value_code ?vs)"
    by (auto simp: encode_row_eq row_code_def split: if_splits)
  have n: "unat ?n = length ?vs" using len by (simp add: unat_of_nat)
  have 1: "Decoder_read_u8 ?d = Inr (1, d_advance ?d 1)" "d_ok (d_advance ?d 1)"
    using read_u8_prefix [of ?d] bs assms(3) by auto
  have 2: "Decoder_read_u32 (d_advance ?d 1) = Inr (?n, d_advance ?d 5)" "d_ok (d_advance ?d 5)"
    using read_u32_prefix [of "d_advance ?d 1" ?n] 1 bs assms(3) by auto
  have 3: "decode_values (length ?vs) (d_advance ?d 5) =
      Inr (?vs, d_advance ?d (5 + length (concat (map value_code ?vs))))"
    using decode_values_code [of "d_advance ?d 5" ?vs "[]"] 2 bs fits assms(1,3)
    by (simp add: wf_row_def)
  have "length ?vs \<le> Decoder_remaining (d_advance ?d 5)"
    using length_values_code [of ?vs] bs by (simp add: Decoder_remaining_def)
  then show ?thesis
    using 1 2 3 n bs
    by (simp add: decode_row_def Decoder_finish_def)
qed

lemma decode_value_code:
  assumes "wf_value v" and "encode_value v = Inr bs" and "length bs \<le> usize_max"
  shows "decode_value bs = Inr v"
proof -
  from assms(2) have "value_fits v" and "bs = value_code v"
    by (auto simp: encode_value_def encode_value_into_eq split: if_splits)
  with assms show ?thesis
    using decode_value_from_code [of "Decoder_new bs" v "[]"]
    by (simp add: decode_value_def Decoder_finish_def)
qed

section \<open>Only canonical bytes decode\<close>

lemma decode_value_from_canonical:
  assumes "d_ok d" and "decode_value_from d = Inr (v, d')"
  shows "d_rest d = value_code v @ d_rest d'" and "value_fits v" and "wf_value v"
    and "d_ok d'" and "d_bytes d' = d_bytes d"
proof -
  from assms(2) obtain t d1 where u: "Decoder_read_u8 d = Inr (t, d1)"
    by (auto simp: decode_value_from_def result_simps)
  note a = read_u8_advances [OF assms(1) u]
  have "d_rest d = value_code v @ d_rest d' \<and> value_fits v \<and> wf_value v \<and> d_ok d' \<and>
    d_bytes d' = d_bytes d"
  proof -
    consider "t = 0" | "t = 1" | "t = 2" | "t = 3"
      using assms(2) u by (auto simp: decode_value_from_def split: if_splits)
    then show ?thesis
    proof cases
      case 1
      then show ?thesis using assms(2) u a by (auto simp: decode_value_from_def)
    next
      case 2
      with assms(2) u obtain bs where r: "Decoder_read_exact d1 8 = Inr (bs, d')"
        and v: "v = VInt (u64_from_be_bytes bs)"
        by (auto simp: decode_value_from_def result_simps)
      show ?thesis
        using read_exact_advances [OF a(2) r] a v 2 by (auto simp: u64_be_inverse)
    next
      case 3
      with assms(2) u obtain len d2 bs where l: "Decoder_read_u32 d1 = Inr (len, d2)"
        and r: "Decoder_read_exact d2 (unat len) = Inr (bs, d')"
        and v: "v = VText bs" and ok: "utf8_valid bs"
        by (auto simp: decode_value_from_def result_simps split: if_splits)
      note b = read_u32_advances [OF a(2) l]
      note c = read_exact_advances [OF b(2) r]
      have "length bs < 2 ^ 32" using c(2) unat_bound [of len] by simp
      moreover have "of_nat (length bs) = len" using c(2) by simp
      ultimately show ?thesis
        using a b c v ok 3 by auto
    next
      case 4
      with assms(2) u obtain b where r: "Decoder_read_u8 d1 = Inr (b, d')"
        and v: "(b = 0 \<and> v = VBool False) \<or> (b = 1 \<and> v = VBool True)"
        by (auto simp: decode_value_from_def result_simps split: if_splits)
      show ?thesis
        using read_u8_advances [OF a(2) r] a v 4 by auto
    qed
  qed
  then show "d_rest d = value_code v @ d_rest d'" and "value_fits v" and "wf_value v"
    and "d_ok d'" and "d_bytes d' = d_bytes d" by blast+
qed

lemma decode_values_canonical:
  assumes "d_ok d" and "decode_values n d = Inr (vs, d')"
  shows "d_rest d = concat (map value_code vs) @ d_rest d' \<and> length vs = n \<and>
    list_all value_fits vs \<and> list_all wf_value vs \<and> d_ok d' \<and> d_bytes d' = d_bytes d"
  using assms
proof (induction n arbitrary: d vs)
  case 0
  then show ?case by auto
next
  case (Suc n)
  from Suc.prems(2) obtain v d1 vs' where v: "decode_value_from d = Inr (v, d1)"
    and r: "decode_values n d1 = Inr (vs', d')" and vs: "vs = v # vs'"
    by (auto simp: result_simps)
  note a = decode_value_from_canonical [OF Suc.prems(1) v]
  from Suc.IH [OF a(4) r] a vs show ?case by auto
qed

lemma decode_row_canonical:
  assumes "decode_row bs = Inr row"
  shows "encode_row row = Inr bs" and "wf_row row"
proof -
  let ?d = "Decoder_new bs"
  from assms obtain d1 count d2 vs d3 where
    1: "Decoder_read_u8 ?d = Inr (1, d1)" and 2: "Decoder_read_u32 d1 = Inr (count, d2)"
    and 3: "decode_values (unat count) d2 = Inr (vs, d3)"
    and 4: "d_position d3 = length (d_bytes d3)" and row: "row = \<lparr>row_values = vs\<rparr>"
    by (auto simp: decode_row_def Decoder_finish_def result_simps split: if_splits)
  note a = read_u8_advances [OF _ 1]
  have a: "bs = 1 # d_rest d1" "d_ok d1" using a by auto
  note b = read_u32_advances [OF a(2) 2]
  note c = decode_values_canonical [OF b(2) 3]
  have "d_rest d3 = []" using 4 by (simp add: d_rest_def)
  moreover have "of_nat (length vs) = count" using c by simp
  moreover have "length vs < 2 ^ 32" using c unat_bound [of count] by simp
  ultimately show "encode_row row = Inr bs"
    using a b c row by (simp add: encode_row_eq row_code_def)
  show "wf_row row" using c row by (simp add: wf_row_def)
qed

lemma decode_value_canonical:
  assumes "decode_value bs = Inr v"
  shows "encode_value v = Inr bs"
proof -
  from assms obtain d where d: "decode_value_from (Decoder_new bs) = Inr (v, d)"
    and f: "d_position d = length (d_bytes d)"
    by (auto simp: decode_value_def Decoder_finish_def result_simps)
  from f have "d_rest d = []" by (simp add: d_rest_def)
  with decode_value_from_canonical [OF _ d] show ?thesis
    by (simp add: encode_value_def encode_value_into_eq)
qed

interpretation value_codec:
  byte_codec wf_value "\<lambda>bs. length bs \<le> usize_max" encode_value decode_value
  by unfold_locales (auto intro: decode_value_code decode_value_canonical)

interpretation row_codec:
  byte_codec wf_row "\<lambda>bs. length bs \<le> usize_max" encode_row decode_row
  by unfold_locales (auto intro: decode_row_code decode_row_canonical)

section \<open>Decoding errors are corruption\<close>

lemma read_exact_Inl: "Decoder_read_exact d n = Inl e \<Longrightarrow> e = CorruptData"
  by (auto simp: Decoder_read_exact_def result_simps split: if_splits)

lemma read_u8_Inl: "Decoder_read_u8 d = Inl e \<Longrightarrow> e = CorruptData"
  by (auto simp: Decoder_read_u8_def result_simps dest: read_exact_Inl)

lemma read_u32_Inl: "Decoder_read_u32 d = Inl e \<Longrightarrow> e = CorruptData"
  by (auto simp: Decoder_read_u32_def result_simps dest: read_exact_Inl)

lemma decode_value_from_Inl: "decode_value_from d = Inl e \<Longrightarrow> e = CorruptData"
  by (auto simp: decode_value_from_def result_simps split: if_splits
      dest: read_exact_Inl read_u8_Inl read_u32_Inl)

lemma decode_values_Inl: "decode_values n d = Inl e \<Longrightarrow> e = CorruptData"
  by (induction n arbitrary: d) (auto simp: result_simps dest: decode_value_from_Inl)

lemma decode_row_Inl: "decode_row bs = Inl e \<Longrightarrow> e = CorruptData"
  by (auto simp: decode_row_def Decoder_finish_def result_simps split: if_splits
      dest: read_u8_Inl read_u32_Inl decode_values_Inl)

section \<open>Properties\<close>

text \<open>
  C35. The row codec is canonical: for a well-formed row and bytes that fit the address
  space, the bytes decode to the row exactly when they are its encoding. Trailing bytes,
  unknown tags, oversized counts and non-UTF-8 text never decode.
\<close>

theorem row_canonical:
  assumes "wf_row row" and "length bs \<le> usize_max"
  shows "decode_row bs = Inr row \<longleftrightarrow> encode_row row = Inr bs"
  using row_codec.dec_iff assms by blast

theorem row_canonical_witness:
  "(decode_row [1, 0, 0, 0, 2, 2, 0, 0, 0, 1, 0x61, 3, 1] =
      Inr \<lparr>row_values = [VText [0x61], VBool True]\<rparr> \<longleftrightarrow>
    encode_row \<lparr>row_values = [VText [0x61], VBool True]\<rparr> =
      Inr [1, 0, 0, 0, 2, 2, 0, 0, 0, 1, 0x61, 3, 1]) \<and>
   encode_row \<lparr>row_values = [VText [0x61], VBool True]\<rparr> =
      Inr [1, 0, 0, 0, 2, 2, 0, 0, 0, 1, 0x61, 3, 1]"
proof
  show "decode_row [1, 0, 0, 0, 2, 2, 0, 0, 0, 1, 0x61, 3, 1] =
      Inr \<lparr>row_values = [VText [0x61], VBool True]\<rparr> \<longleftrightarrow>
    encode_row \<lparr>row_values = [VText [0x61], VBool True]\<rparr> =
      Inr [1, 0, 0, 0, 2, 2, 0, 0, 0, 1, 0x61, 3, 1]"
    by (rule row_canonical) (code_simp, simp add: usize_max_def)
qed code_simp

end
