(* ===== verification/Row_Key.thy ===== *)
theory Row_Key
  imports Value_Encoding
begin

text \<open>
  The ordered storage keys (\<^verbatim>\<open>ragnordb-storage/src/key.rs\<close>, with \<^verbatim>\<open>RowKey\<close> of
  \<^verbatim>\<open>ragnordb-common/src/ids.rs\<close>): primary-key tuples and complete row keys, their
  decoders, canonicality, and the order-preservation that lets a byte-ordered map stand
  for the logical order of rows.
\<close>

unbundle bit_operations_syntax

section \<open>Row keys\<close>

type_synonym TableId = u64

datatype RowKey = RowKey (table_id: TableId) (primary_key_bytes: bytes)

text \<open>The derived \<^verbatim>\<open>Ord\<close> of the struct compares the fields in declaration order.\<close>

instantiation RowKey :: linorder
begin

definition less_RowKey :: "RowKey \<Rightarrow> RowKey \<Rightarrow> bool" where
  "less_RowKey a b \<longleftrightarrow> table_id a < table_id b \<or>
     (table_id a = table_id b \<and> primary_key_bytes a < primary_key_bytes b)"

definition less_eq_RowKey :: "RowKey \<Rightarrow> RowKey \<Rightarrow> bool" where
  "less_eq_RowKey a b \<longleftrightarrow> a = b \<or> a < b"

instance
  by standard (auto simp: less_RowKey_def less_eq_RowKey_def intro: RowKey.expand)

end

definition ROW_KEY_NAMESPACE :: u8 where [simp]: "ROW_KEY_NAMESPACE = 0x01"
definition KEY_TAG_INT :: u8 where [simp]: "KEY_TAG_INT = 0x10"
definition KEY_TAG_TEXT :: u8 where [simp]: "KEY_TAG_TEXT = 0x20"
definition KEY_TAG_BOOL :: u8 where [simp]: "KEY_TAG_BOOL = 0x30"
definition TEXT_ESCAPE :: u8 where [simp]: "TEXT_ESCAPE = 0x00"
definition TEXT_TERMINATOR :: u8 where [simp]: "TEXT_TERMINATOR = 0x00"
definition TEXT_ESCAPED_ZERO :: u8 where [simp]: "TEXT_ESCAPED_ZERO = 0xff"
definition SIGN_BIT :: u64 where "SIGN_BIT = push_bit 63 1"
definition ROW_KEY_HEADER_LENGTH :: nat where [simp]: "ROW_KEY_HEADER_LENGTH = 1 + 8"

section \<open>The key decoder\<close>

text \<open>
  \<^verbatim>\<open>KeyDecoder\<close> has the fields of the row codec's \<^verbatim>\<open>Decoder\<close>, and its own methods.
\<close>

type_synonym KeyDecoder = Decoder

definition KeyDecoder_new :: "bytes \<Rightarrow> KeyDecoder" where
  "KeyDecoder_new bs = \<lparr>d_bytes = bs, d_position = 0\<rparr>"

definition KeyDecoder_is_finished :: "KeyDecoder \<Rightarrow> bool" where
  "KeyDecoder_is_finished d \<longleftrightarrow> d_position d = length (d_bytes d)"

definition KeyDecoder_read_exact :: "KeyDecoder \<Rightarrow> nat \<Rightarrow> (bytes \<times> KeyDecoder) result" where
  "KeyDecoder_read_exact d n =
     and_then (ok_or (checked_add_usize (d_position d) n) CorruptData) (\<lambda>end_pos.
       if end_pos > length (d_bytes d) then Inl CorruptData
       else Inr (take (end_pos - d_position d) (drop (d_position d) (d_bytes d)),
                 d\<lparr>d_position := end_pos\<rparr>))"

definition KeyDecoder_read_u8 :: "KeyDecoder \<Rightarrow> (u8 \<times> KeyDecoder) result" where
  "KeyDecoder_read_u8 d = and_then (KeyDecoder_read_exact d 1) (\<lambda>(bs, d'). Inr (bs ! 0, d'))"

lemma key_decoder_eqs:
  "KeyDecoder_new = Decoder_new"
  "KeyDecoder_read_exact = Decoder_read_exact"
  "KeyDecoder_read_u8 = Decoder_read_u8"
  by (simp_all add: fun_eq_iff KeyDecoder_new_def Decoder_new_def KeyDecoder_read_exact_def
      Decoder_read_exact_def KeyDecoder_read_u8_def Decoder_read_u8_def)

lemma key_read_u8_progress:
  "KeyDecoder_read_u8 d = Inr (b, d') \<Longrightarrow>
     d_bytes d' = d_bytes d \<and> d_position d < length (d_bytes d) \<and>
     d_position d' = Suc (d_position d)"
  by (auto simp: key_decoder_eqs Decoder_read_u8_def result_simps read_exact_Inr)

section \<open>Encoding and decoding of primary keys\<close>

definition escape_text :: "bytes \<Rightarrow> bytes" where
  "escape_text bs =
     concat (map (\<lambda>b. if b = TEXT_ESCAPE then [TEXT_ESCAPE, TEXT_ESCAPED_ZERO] else [b]) bs)"

fun encode_primary_key_value :: "Value \<Rightarrow> bytes \<Rightarrow> bytes result" where
  "encode_primary_key_value (VInt v) output =
     Inr (output @ [KEY_TAG_INT] @ u64_to_be_bytes (v XOR SIGN_BIT))"
| "encode_primary_key_value (VText v) output =
     Inr (output @ [KEY_TAG_TEXT] @ escape_text v @ [TEXT_ESCAPE, TEXT_TERMINATOR])"
| "encode_primary_key_value (VBool v) output =
     Inr (output @ [KEY_TAG_BOOL] @ [if v then 1 else 0])"
| "encode_primary_key_value VNull output = Inl InvalidArgument"

definition encode_primary_key :: "Value list \<Rightarrow> bytes result" where
  "encode_primary_key vs =
     (if vs = [] then Inl InvalidArgument
      else try_fold (\<lambda>output v. encode_primary_key_value v output) [] vs)"

function decode_text_bytes :: "KeyDecoder \<Rightarrow> bytes \<Rightarrow> (bytes \<times> KeyDecoder) result" where
  "decode_text_bytes d text_bytes =
     (case KeyDecoder_read_u8 d of
        Inl e \<Rightarrow> Inl e
      | Inr (b, d1) \<Rightarrow>
          if b \<noteq> TEXT_ESCAPE then decode_text_bytes d1 (text_bytes @ [b])
          else (case KeyDecoder_read_u8 d1 of
              Inl e \<Rightarrow> Inl e
            | Inr (escaped, d2) \<Rightarrow>
                if escaped = TEXT_TERMINATOR then Inr (text_bytes, d2)
                else if escaped = TEXT_ESCAPED_ZERO
                then decode_text_bytes d2 (text_bytes @ [TEXT_ESCAPE])
                else Inl CorruptData))"
  by pat_completeness auto
termination
  by (relation "measure (\<lambda>(d, _). length (d_bytes d) - d_position d)")
    (auto dest!: key_read_u8_progress)

declare decode_text_bytes.simps [simp del]

definition decode_text_key :: "KeyDecoder \<Rightarrow> (Value \<times> KeyDecoder) result" where
  "decode_text_key d =
     and_then (decode_text_bytes d []) (\<lambda>(text_bytes, d').
       if utf8_valid text_bytes then Inr (VText text_bytes, d') else Inl CorruptData)"

definition decode_primary_key_value :: "KeyDecoder \<Rightarrow> (Value \<times> KeyDecoder) result" where
  "decode_primary_key_value d =
     and_then (KeyDecoder_read_u8 d) (\<lambda>(tag, d1).
       if tag = KEY_TAG_INT then
         and_then (KeyDecoder_read_exact d1 8) (\<lambda>(bs, d2).
           Inr (VInt (u64_from_be_bytes bs XOR SIGN_BIT), d2))
       else if tag = KEY_TAG_TEXT then decode_text_key d1
       else if tag = KEY_TAG_BOOL then
         and_then (KeyDecoder_read_u8 d1) (\<lambda>(encoded, d2).
           if encoded = 0 then Inr (VBool False, d2)
           else if encoded = 1 then Inr (VBool True, d2)
           else Inl CorruptData)
       else Inl CorruptData)"

text \<open>
  The loop of \<^verbatim>\<open>decode_primary_key\<close> ends because every component read moves the cursor.
\<close>

lemma decode_text_bytes_progress:
  "decode_text_bytes d acc = Inr (bs, d') \<Longrightarrow>
     d_bytes d' = d_bytes d \<and> d_position d < d_position d' \<and> d_position d' \<le> length (d_bytes d)"
proof (induction d acc rule: decode_text_bytes.induct)
  case (1 d acc)
  then obtain b d1 where u: "KeyDecoder_read_u8 d = Inr (b, d1)"
    by (auto simp: decode_text_bytes.simps [of d] split: sum.splits)
  note p = key_read_u8_progress [OF u]
  show ?case
  proof (cases "b = 0")
    case False
    then show ?thesis
      using "1.IH"(1) [OF u refl] "1.prems" u p
      by (simp add: decode_text_bytes.simps [of d acc])
  next
    case True
    then obtain e d2 where v: "KeyDecoder_read_u8 d1 = Inr (e, d2)"
      using "1.prems" u by (auto simp: decode_text_bytes.simps [of d] split: sum.splits)
    show ?thesis
      using "1.IH"(2) [OF u refl _ v refl] "1.prems" u v p key_read_u8_progress [OF v] True
      by (auto simp: decode_text_bytes.simps [of d acc] split: if_splits)
  qed
qed

lemma decode_primary_key_value_progress:
  "decode_primary_key_value d = Inr (v, d') \<Longrightarrow>
     d_bytes d' = d_bytes d \<and> d_position d < d_position d' \<and> d_position d' \<le> length (d_bytes d)"
  by (auto simp: decode_primary_key_value_def decode_text_key_def key_decoder_eqs(2)
      read_exact_Inr result_simps split: if_splits
      dest!: key_read_u8_progress decode_text_bytes_progress)

function decode_primary_key_values :: "KeyDecoder \<Rightarrow> Value list \<Rightarrow> Value list result" where
  "decode_primary_key_values d vs =
     (if KeyDecoder_is_finished d then Inr vs
      else case decode_primary_key_value d of
          Inl e \<Rightarrow> Inl e
        | Inr (v, d') \<Rightarrow> decode_primary_key_values d' (vs @ [v]))"
  by pat_completeness auto
termination
  by (relation "measure (\<lambda>(d, _). length (d_bytes d) - d_position d)")
    (auto dest!: decode_primary_key_value_progress)

declare decode_primary_key_values.simps [simp del]

definition decode_primary_key :: "bytes \<Rightarrow> Value list result" where
  "decode_primary_key bs =
     (if bs = [] then Inl CorruptData
      else decode_primary_key_values (KeyDecoder_new bs) [])"

section \<open>Complete row keys\<close>

definition validate_table_id :: "TableId \<Rightarrow> unit result" where
  "validate_table_id t = ensure (t \<noteq> 0) InvalidArgument"

definition make_row_key :: "TableId \<Rightarrow> Value list \<Rightarrow> RowKey result" where
  "make_row_key t vs =
     and_then (validate_table_id t) (\<lambda>_.
     and_then (encode_primary_key vs) (\<lambda>bs. Inr (RowKey t bs)))"

definition encode_row_key :: "RowKey \<Rightarrow> bytes result" where
  "encode_row_key row_key =
     and_then (validate_table_id (table_id row_key)) (\<lambda>_.
     and_then (map_err (\<lambda>_. InvalidArgument) (decode_primary_key (primary_key_bytes row_key))) (\<lambda>_.
       Inr ([ROW_KEY_NAMESPACE] @ u64_to_be_bytes (table_id row_key) @ primary_key_bytes row_key)))"

definition decode_row_key :: "bytes \<Rightarrow> RowKey result" where
  "decode_row_key bs =
     (if length bs \<le> ROW_KEY_HEADER_LENGTH then Inl CorruptData
      else if bs ! 0 \<noteq> ROW_KEY_NAMESPACE then Inl CorruptData
      else
        let t = u64_from_be_bytes (take (ROW_KEY_HEADER_LENGTH - 1) (drop 1 bs)) in
        if t = 0 then Inl CorruptData
        else
          let pk = drop ROW_KEY_HEADER_LENGTH bs in
          and_then (decode_primary_key pk) (\<lambda>_. Inr (RowKey t pk)))"

section \<open>The code of one key component\<close>

fun key_code :: "Value \<Rightarrow> bytes" where
  "key_code (VInt v) = 0x10 # u64_to_be_bytes (v XOR SIGN_BIT)"
| "key_code (VText v) = 0x20 # escape_text v @ [0, 0]"
| "key_code (VBool v) = [0x30, if v then 1 else 0]"
| "key_code VNull = []"

lemma escape_text_simps [simp]:
  "escape_text [] = []"
  "escape_text (b # bs) = (if b = 0 then [0, 0xff] else [b]) @ escape_text bs"
  by (simp_all add: escape_text_def)

lemma encode_primary_key_value_eq:
  "encode_primary_key_value v output =
     (if v = VNull then Inl InvalidArgument else Inr (output @ key_code v))"
  by (cases v) auto

lemma encode_primary_key_values_eq:
  "try_fold (\<lambda>output v. encode_primary_key_value v output) pre vs =
     (if VNull \<in> set vs then Inl InvalidArgument else Inr (pre @ concat (map key_code vs)))"
  by (induction vs arbitrary: pre) (auto simp: encode_primary_key_value_eq)

lemma encode_primary_key_eq:
  "encode_primary_key vs =
     (if vs = [] \<or> VNull \<in> set vs then Inl InvalidArgument else Inr (concat (map key_code vs)))"
  by (simp add: encode_primary_key_def encode_primary_key_values_eq)

lemma key_code_nonempty [simp]: "key_code v = [] \<longleftrightarrow> v = VNull"
  by (cases v) auto

section \<open>Decoding inverts encoding\<close>

lemma decode_text_bytes_code:
  assumes "d_ok d" and "d_fits d" and "d_rest d = escape_text s @ 0 # 0 # r"
  shows "decode_text_bytes d acc = Inr (acc @ s, d_advance d (length (escape_text s) + 2))"
  using assms
proof (induction s arbitrary: d acc)
  case Nil
  have 1: "KeyDecoder_read_u8 d = Inr (0, d_advance d 1)" "d_ok (d_advance d 1)"
    using read_u8_prefix [of d 0 "0 # r"] Nil by (auto simp: key_decoder_eqs)
  have "KeyDecoder_read_u8 (d_advance d 1) = Inr (0, d_advance d 2)"
    using read_u8_prefix [of "d_advance d 1" 0 r] 1 Nil by (auto simp: key_decoder_eqs)
  with 1 show ?case by (simp add: decode_text_bytes.simps [of d])
next
  case (Cons b s)
  show ?case
  proof (cases "b = 0")
    case True
    have 1: "KeyDecoder_read_u8 d = Inr (0, d_advance d 1)" "d_ok (d_advance d 1)"
      using read_u8_prefix [of d 0] Cons.prems True by (auto simp: key_decoder_eqs)
    have 2: "KeyDecoder_read_u8 (d_advance d 1) = Inr (0xff, d_advance d 2)" "d_ok (d_advance d 2)"
      using read_u8_prefix [of "d_advance d 1" "0xff"] 1 Cons.prems True
      by (auto simp: key_decoder_eqs numeral_2_eq_2)
    show ?thesis
      using Cons.IH [of "d_advance d 2" "acc @ [0]"] 1 2 Cons.prems True
      by (simp add: decode_text_bytes.simps [of d])
  next
    case False
    have 1: "KeyDecoder_read_u8 d = Inr (b, d_advance d 1)" "d_ok (d_advance d 1)"
      using read_u8_prefix [of d b] Cons.prems False by (auto simp: key_decoder_eqs)
    show ?thesis
      using Cons.IH [of "d_advance d 1" "acc @ [b]"] 1 Cons.prems False
      by (simp add: decode_text_bytes.simps [of d])
  qed
qed

lemma decode_primary_key_value_code:
  assumes "d_ok d" and "d_fits d" and "d_rest d = key_code v @ r" and "v \<noteq> VNull" and "wf_value v"
  shows "decode_primary_key_value d = Inr (v, d_advance d (length (key_code v)))"
    and "d_ok (d_advance d (length (key_code v)))"
proof -
  obtain t c where tc: "key_code v = t # c" using assms(4) by (cases v) auto
  let ?d1 = "d_advance d 1"
  have u: "KeyDecoder_read_u8 d = Inr (t, ?d1)" "d_ok ?d1"
    using read_u8_prefix assms tc by (auto simp: key_decoder_eqs)
  have r1: "d_rest ?d1 = c @ r" using assms(3) tc by simp
  show "decode_primary_key_value d = Inr (v, d_advance d (length (key_code v)))"
  proof (cases v)
    case (VInt i)
    then have c: "c = u64_to_be_bytes (i XOR SIGN_BIT)" and "t = 0x10" using tc by auto
    with VInt show ?thesis
      using read_exact_prefix [of ?d1 c r] u r1 assms(2)
      by (simp add: decode_primary_key_value_def key_decoder_eqs(2) xor.assoc)
  next
    case (VText s)
    then have "d_rest ?d1 = escape_text s @ 0 # 0 # r" "t = 0x20" using tc r1 by auto
    with VText show ?thesis
      using decode_text_bytes_code [of ?d1 s r "[]"] u assms
      by (simp add: decode_primary_key_value_def decode_text_key_def)
  next
    case (VBool b)
    then show ?thesis
      using read_u8_prefix [of ?d1 "if b then 1 else 0" r] u r1 tc assms(2)
      by (auto simp: decode_primary_key_value_def key_decoder_eqs)
  next
    case VNull
    with assms(4) show ?thesis by simp
  qed
  show "d_ok (d_advance d (length (key_code v)))"
    using read_exact_prefix(2) assms(1-3) by blast
qed

lemma decode_primary_key_values_code:
  assumes "d_ok d" and "d_fits d" and "d_rest d = concat (map key_code vs)"
    and "VNull \<notin> set vs" and "list_all wf_value vs"
  shows "decode_primary_key_values d acc = Inr (acc @ vs)"
  using assms
proof (induction vs arbitrary: d acc)
  case Nil
  then have "KeyDecoder_is_finished d"
    by (simp add: KeyDecoder_is_finished_def d_rest_def d_ok_def)
  then show ?case by (simp add: decode_primary_key_values.simps [of d])
next
  case (Cons v vs)
  then have "d_rest d \<noteq> []" by auto
  then have nf: "\<not> KeyDecoder_is_finished d"
    by (auto simp: KeyDecoder_is_finished_def d_rest_def)
  note s = decode_primary_key_value_code [of d v "concat (map key_code vs)"]
  have "decode_primary_key_value d = Inr (v, d_advance d (length (key_code v)))"
    and ok: "d_ok (d_advance d (length (key_code v)))"
    using s Cons.prems by auto
  with nf show ?case
    using Cons.IH [of "d_advance d (length (key_code v))" "acc @ [v]"] Cons.prems
    by (simp add: decode_primary_key_values.simps [of d])
qed

lemma decode_primary_key_code:
  assumes "list_all wf_value vs" and "encode_primary_key vs = Inr bs" and "length bs \<le> usize_max"
  shows "decode_primary_key bs = Inr vs"
proof -
  from assms(2) have bs: "bs = concat (map key_code vs)" and n: "VNull \<notin> set vs" and "vs \<noteq> []"
    by (auto simp: encode_primary_key_eq split: if_splits)
  then have "bs \<noteq> []" by (cases vs) auto
  with bs n assms show ?thesis
    using decode_primary_key_values_code [of "Decoder_new bs" vs "[]"]
    by (simp add: decode_primary_key_def key_decoder_eqs)
qed

section \<open>Only canonical bytes decode\<close>

lemma decode_text_bytes_canonical:
  "decode_text_bytes d acc = Inr (bs, d') \<Longrightarrow> d_ok d \<Longrightarrow>
     d_ok d' \<and> (\<exists>s. bs = acc @ s \<and> d_rest d = escape_text s @ 0 # 0 # d_rest d')"
proof (induction d acc rule: decode_text_bytes.induct)
  case (1 d acc)
  then obtain b d1 where u: "KeyDecoder_read_u8 d = Inr (b, d1)"
    by (auto simp: decode_text_bytes.simps [of d] split: sum.splits)
  note p = read_u8_advances [OF "1.prems"(2) u [unfolded key_decoder_eqs]]
  show ?case
  proof (cases "b = 0")
    case False
    then have "decode_text_bytes d1 (acc @ [b]) = Inr (bs, d')"
      using "1.prems" u by (simp add: decode_text_bytes.simps [of d acc])
    with "1.IH"(1) [OF u refl] False p obtain s where
      "d_ok d'" "bs = acc @ b # s" "d_rest d1 = escape_text s @ 0 # 0 # d_rest d'"
      by auto
    with False p show ?thesis by (auto intro!: exI [of _ "b # s"])
  next
    case True
    then obtain e d2 where v: "KeyDecoder_read_u8 d1 = Inr (e, d2)"
      using "1.prems" u by (auto simp: decode_text_bytes.simps [of d] split: sum.splits)
    note q = read_u8_advances [OF p(2) v [unfolded key_decoder_eqs]]
    consider "e = 0" "bs = acc" "d' = d2"
      | "e = 0xff" "decode_text_bytes d2 (acc @ [0]) = Inr (bs, d')"
      using "1.prems" u v True by (auto simp: decode_text_bytes.simps [of d acc] split: if_splits)
    then show ?thesis
    proof cases
      case 1
      with True p q show ?thesis by (auto intro!: exI [of _ "[]"])
    next
      case 2
      with "1.IH"(2) [OF u refl _ v refl] True p q obtain s where
        "d_ok d'" "bs = acc @ 0 # s" "d_rest d2 = escape_text s @ 0 # 0 # d_rest d'"
        by auto
      with True p q 2 show ?thesis by (auto intro!: exI [of _ "0 # s"])
    qed
  qed
qed

lemma decode_primary_key_value_canonical:
  assumes "d_ok d" and "decode_primary_key_value d = Inr (v, d')"
  shows "d_rest d = key_code v @ d_rest d' \<and> v \<noteq> VNull \<and> wf_value v \<and> d_ok d'"
proof -
  from assms(2) obtain t d1 where u: "KeyDecoder_read_u8 d = Inr (t, d1)"
    by (auto simp: decode_primary_key_value_def result_simps)
  note a = read_u8_advances [OF assms(1) u [unfolded key_decoder_eqs]]
  consider "t = 0x10" | "t = 0x20" | "t = 0x30"
    using assms(2) u by (auto simp: decode_primary_key_value_def split: if_splits)
  then show ?thesis
  proof cases
    case 1
    with assms(2) u obtain bs where r: "Decoder_read_exact d1 8 = Inr (bs, d')"
      and v: "v = VInt (u64_from_be_bytes bs XOR SIGN_BIT)"
      by (auto simp: decode_primary_key_value_def key_decoder_eqs result_simps)
    show ?thesis
      using read_exact_advances [OF a(2) r] a v 1 by (auto simp: u64_be_inverse xor.assoc)
  next
    case 2
    with assms(2) u obtain bs where r: "decode_text_bytes d1 [] = Inr (bs, d')"
      and v: "v = VText bs" "utf8_valid bs"
      by (auto simp: decode_primary_key_value_def decode_text_key_def result_simps split: if_splits)
    show ?thesis
      using decode_text_bytes_canonical [OF r a(2)] a v 2 by auto
  next
    case 3
    with assms(2) u obtain b where r: "Decoder_read_u8 d1 = Inr (b, d')"
      and v: "(b = 0 \<and> v = VBool False) \<or> (b = 1 \<and> v = VBool True)"
      by (auto simp: decode_primary_key_value_def key_decoder_eqs result_simps split: if_splits)
    show ?thesis
      using read_u8_advances [OF a(2) r] a v 3 by auto
  qed
qed

lemma decode_primary_key_values_canonical:
  "decode_primary_key_values d acc = Inr vs \<Longrightarrow> d_ok d \<Longrightarrow>
     \<exists>ws. vs = acc @ ws \<and> d_rest d = concat (map key_code ws) \<and> VNull \<notin> set ws \<and>
       list_all wf_value ws"
proof (induction d acc rule: decode_primary_key_values.induct)
  case (1 d acc)
  show ?case
  proof (cases "KeyDecoder_is_finished d")
    case True
    with "1.prems" show ?thesis
      by (auto simp: decode_primary_key_values.simps [of d] KeyDecoder_is_finished_def d_rest_def)
  next
    case False
    with "1.prems" obtain v d1 where v: "decode_primary_key_value d = Inr (v, d1)"
      and r: "decode_primary_key_values d1 (acc @ [v]) = Inr vs"
      by (auto simp: decode_primary_key_values.simps [of d] split: sum.splits)
    note a = decode_primary_key_value_canonical [OF "1.prems"(2) v]
    with "1.IH" [OF False v refl r] obtain ws where
      "vs = (acc @ [v]) @ ws" "d_rest d1 = concat (map key_code ws)" "VNull \<notin> set ws"
      "list_all wf_value ws"
      by auto
    with a show ?thesis by (auto intro!: exI [of _ "v # ws"])
  qed
qed

lemma decode_primary_key_canonical:
  assumes "decode_primary_key bs = Inr vs"
  shows "encode_primary_key vs = Inr bs" and "list_all wf_value vs"
proof -
  from assms have ne: "bs \<noteq> []" and "decode_primary_key_values (Decoder_new bs) [] = Inr vs"
    by (auto simp: decode_primary_key_def key_decoder_eqs split: if_splits)
  from decode_primary_key_values_canonical [OF this(2)]
  have "bs = concat (map key_code vs)" and "VNull \<notin> set vs" and wf: "list_all wf_value vs" by auto
  with ne show "encode_primary_key vs = Inr bs" by (auto simp: encode_primary_key_eq)
  show "list_all wf_value vs" by (rule wf)
qed

interpretation primary_key_codec:
  byte_codec "list_all wf_value" "\<lambda>bs. length bs \<le> usize_max" encode_primary_key decode_primary_key
  by unfold_locales (auto intro: decode_primary_key_code decode_primary_key_canonical)

lemma decode_primary_key_nonempty: "decode_primary_key bs = Inr vs \<Longrightarrow> bs \<noteq> []"
  by (auto simp: decode_primary_key_def)

interpretation row_key_codec:
  byte_codec "\<lambda>_. True" "\<lambda>_. True" encode_row_key decode_row_key
proof
  fix k bs
  assume "encode_row_key k = Inr bs"
  then obtain vs where "table_id k \<noteq> 0" "decode_primary_key (primary_key_bytes k) = Inr vs"
    "bs = 1 # u64_to_be_bytes (table_id k) @ primary_key_bytes k"
    by (auto simp: encode_row_key_def validate_table_id_def result_simps)
  then show "decode_row_key bs = Inr k"
    using decode_primary_key_nonempty by (auto simp: decode_row_key_def)
next
  fix k bs
  assume dec: "decode_row_key bs = Inr k"
  then obtain vs where "length bs > 9" "bs ! 0 = 1" "table_id k = u64_from_be_bytes (take 8 (drop 1 bs))"
    "table_id k \<noteq> 0" "primary_key_bytes k = drop 9 bs" "decode_primary_key (drop 9 bs) = Inr vs"
    by (auto simp: decode_row_key_def Let_def result_simps split: if_splits)
  moreover from this obtain bs' where "bs = 1 # bs'" by (cases bs) auto
  ultimately show "encode_row_key k = Inr bs"
    by (simp add: encode_row_key_def validate_table_id_def u64_be_inverse)
qed

section \<open>The encoding preserves order\<close>

text \<open>
  Two components of the same SQL type compare as their type does: integers by value, text
  by bytes, booleans with \<^verbatim>\<open>false\<close> first.
\<close>

fun value_less :: "Value \<Rightarrow> Value \<Rightarrow> bool" where
  "value_less (VInt a) (VInt b) = (sint a < sint b)"
| "value_less (VText a) (VText b) = (a < b)"
| "value_less (VBool a) (VBool b) = (\<not> a \<and> b)"
| "value_less _ _ = False"

fun same_key_type :: "Value \<Rightarrow> Value \<Rightarrow> bool" where
  "same_key_type (VInt _) (VInt _) = True"
| "same_key_type (VText _) (VText _) = True"
| "same_key_type (VBool _) (VBool _) = True"
| "same_key_type _ _ = False"

lemma uint_xor_SIGN_BIT: "uint (a XOR SIGN_BIT) = sint a + 2 ^ 63"
proof -
  have f: "a XOR SIGN_BIT = flip_bit 63 a" by (simp add: flip_bit_def SIGN_BIT_def)
  have s: "sint a = uint a - 2 ^ 64 * of_bool (bit a 63)"
    using uint_bounded [of a]
    by (simp add: sint_uint signed_take_bit_eq_take_bit_minus bit_uint_iff take_bit_eq_mod)
  show ?thesis
  proof (cases "bit a 63")
    case True
    have "bit (uint a) 63" using True by (simp add: bit_uint_iff)
    then have "odd (uint a div 2 ^ 63)" by (rule bit_iff_odd [THEN iffD1])
    then have "(2 :: int) ^ 63 \<le> uint a"
      using div_pos_pos_trivial [of "uint a" "2 ^ 63"] by (cases "uint a < 2 ^ 63") auto
    then have "uint (a - 2 ^ 63) = uint a - 2 ^ 63"
      using uint_bounded [of a]
      by (simp add: uint_word_arith_bintrs(2) take_bit_eq_mod mod_pos_pos_trivial)
    with True s f show ?thesis by (simp add: flip_bit_eq_if unset_bit_eq)
  next
    case False
    with s have "uint a < 2 ^ 63" using sint_lt [of a] by simp
    then have "uint (a + 2 ^ 63) = uint a + 2 ^ 63"
      by (simp add: uint_word_arith_bintrs(1) take_bit_eq_mod mod_pos_pos_trivial)
    with False s f show ?thesis by (simp add: flip_bit_eq_if set_bit_eq)
  qed
qed

lemma xor_SIGN_BIT_less: "a XOR SIGN_BIT < b XOR SIGN_BIT \<longleftrightarrow> sint a < sint b"
  by (simp add: word_less_def uint_xor_SIGN_BIT)

lemma byte_pos: "b \<noteq> 0 \<Longrightarrow> 0 < (b :: u8)"
  by (simp add: word_gt_0)

lemma escape_text_less:
  "a < b \<Longrightarrow> escape_text a @ 0 # 0 # xs < escape_text b @ 0 # 0 # ys"
proof (induction a arbitrary: b)
  case Nil
  then obtain y b' where "b = y # b'" by (cases b) auto
  then show ?case by (cases "y = 0") (simp_all add: byte_pos)
next
  case (Cons x a)
  then obtain y b' where b: "b = y # b'" by (cases b) auto
  show ?case
  proof (cases "x = y")
    case True
    with Cons b show ?thesis by auto
  next
    case False
    with Cons.prems b have "x < y" by simp
    moreover from this have "y \<noteq> 0" by (metis word_not_simps(1))
    ultimately show ?thesis using b by (cases "x = 0") (simp_all add: byte_pos)
  qed
qed

lemma append_less_same_length: "length a = length b \<Longrightarrow> a < b \<Longrightarrow> a @ xs < b @ ys"
  for a b :: bytes
  by (induction a b rule: list_induct2) auto

lemma key_code_decides:
  assumes "same_key_type a b" and "value_less a b"
  shows "key_code a @ xs < key_code b @ ys"
proof (cases "(a, b)" rule: value_less.cases)
  case (1 i j)
  then have "u64_to_be_bytes (i XOR SIGN_BIT) < u64_to_be_bytes (j XOR SIGN_BIT)"
    using assms(2) by (simp add: u64_be_less xor_SIGN_BIT_less)
  then have "u64_to_be_bytes (i XOR SIGN_BIT) @ xs < u64_to_be_bytes (j XOR SIGN_BIT) @ ys"
    by (intro append_less_same_length) auto
  with 1 show ?thesis by simp
next
  case (2 s t)
  with assms(2) escape_text_less [of s t xs ys] show ?thesis by simp
qed (use assms in auto)

lemma sint_total: "a = b \<or> sint a < sint b \<or> sint b < sint a" for a b :: i64
proof -
  have "sint a = sint b \<Longrightarrow> a = b" by (rule signed_word_eqI)
  then show ?thesis by linarith
qed

interpretation key_order: ordered_code same_key_type value_less key_code
proof
  show "\<And>a b xs ys. same_key_type a b \<Longrightarrow> value_less a b \<Longrightarrow> key_code a @ xs < key_code b @ ys"
    by (rule key_code_decides)
  show "\<And>a b. same_key_type a b \<Longrightarrow> same_key_type b a"
    by (erule same_key_type.elims) auto
  show "\<And>a b. same_key_type a b \<Longrightarrow> a = b \<or> value_less a b \<or> value_less b a"
    using sint_total by (elim same_key_type.elims) auto
qed

lemma encode_row_key_bytes:
  "encode_row_key k = Inr bs \<Longrightarrow> bs = 1 # u64_to_be_bytes (table_id k) @ primary_key_bytes k"
  by (auto simp: encode_row_key_def result_simps)

lemma row_key_bytes_less:
  "(1 :: u8) # u64_to_be_bytes (table_id a) @ primary_key_bytes a <
     1 # u64_to_be_bytes (table_id b) @ primary_key_bytes b \<longleftrightarrow> a < b"
proof -
  consider "table_id a = table_id b" | "table_id a < table_id b" | "table_id b < table_id a"
    by fastforce
  then show ?thesis
  proof cases
    case 1
    then show ?thesis by (simp add: less_RowKey_def)
  next
    case 2
    then have "u64_to_be_bytes (table_id a) @ primary_key_bytes a <
        u64_to_be_bytes (table_id b) @ primary_key_bytes b"
      by (intro append_less_same_length) (auto simp: u64_be_less)
    with 2 show ?thesis by (simp add: less_RowKey_def)
  next
    case 3
    then have "u64_to_be_bytes (table_id b) @ primary_key_bytes b <
        u64_to_be_bytes (table_id a) @ primary_key_bytes a"
      by (intro append_less_same_length) (auto simp: u64_be_less)
    then have "\<not> u64_to_be_bytes (table_id a) @ primary_key_bytes a <
        u64_to_be_bytes (table_id b) @ primary_key_bytes b"
      by (rule order_less_not_sym)
    moreover from 3 have "\<not> a < b" by (simp add: less_RowKey_def order_less_not_sym)
    ultimately show ?thesis by simp
  qed
qed

section \<open>Properties\<close>

text \<open>
  C30. Comparing the encodings of two primary-key tuples of the same column types gives
  the lexicographic order of the tuples, with integers compared by signed value, text by
  bytes (zero bytes included) and booleans with false first.
\<close>

theorem primary_key_order:
  assumes "list_all2 same_key_type as bs"
    and "encode_primary_key as = Inr xs" and "encode_primary_key bs = Inr ys"
  shows "xs < ys \<longleftrightarrow> tuple_less value_less as bs"
  using assms key_order.concat_code_less [OF assms(1)]
  by (auto simp: encode_primary_key_eq split: if_splits)

theorem primary_key_order_witness:
  "(0x20 # 0x61 # 0 # 0xff # 0 # 0 # 0x10 # u64_to_be_bytes (- 1 XOR SIGN_BIT) <
    0x20 # 0x61 # 0 # 0xff # 0 # 0 # 0x10 # u64_to_be_bytes (3 XOR SIGN_BIT)) =
   tuple_less value_less [VText [0x61, 0], VInt (- 1)] [VText [0x61, 0], VInt 3]"
  by (rule primary_key_order)
    (simp_all add: encode_primary_key_eq)

text \<open>
  C31. The byte order of encoded row keys is the derived order of \<^verbatim>\<open>RowKey\<close>: table by table,
  and inside a table by primary-key bytes. Equal bytes come from equal keys.
\<close>

theorem row_key_order:
  assumes "encode_row_key a = Inr xs" and "encode_row_key b = Inr ys"
  shows "(xs < ys \<longleftrightarrow> a < b) \<and> (xs = ys \<longleftrightarrow> a = b)"
  using assms row_key_bytes_less [of a b] row_key_codec.enc_inj [where x = a and y = b]
  by (auto dest!: encode_row_key_bytes)

theorem row_key_order_witness:
  "([1, 0, 0, 0, 0, 0, 0, 0, 1, 0x30, 1] < [1, 0, 0, 0, 0, 0, 0, 0, 2, 0x30, (0 :: u8)] \<longleftrightarrow>
      RowKey 1 [0x30, 1] < RowKey 2 [0x30, 0]) \<and>
   ([1, 0, 0, 0, 0, 0, 0, 0, 1, 0x30, 1] = [1, 0, 0, 0, 0, 0, 0, 0, 2, 0x30, (0 :: u8)] \<longleftrightarrow>
      RowKey 1 [0x30, 1] = RowKey 2 [0x30, 0])"
  by (rule row_key_order) code_simp+

text \<open>
  C32. The row-key codec is canonical: a byte string decodes to a row key exactly when it is
  that key's encoding. So every stored key has one spelling, and reserved table ids,
  unknown namespaces and malformed components are rejected in both directions.
\<close>

theorem row_key_canonical: "decode_row_key bs = Inr k \<longleftrightarrow> encode_row_key k = Inr bs"
  using row_key_codec.dec_iff by simp

text \<open>
  C33. The primary-key codec is canonical: for tuples of well-formed values and byte strings
  that fit the address space, decoding and encoding are inverse to each other.
\<close>

theorem primary_key_canonical:
  assumes "list_all wf_value vs" and "length bs \<le> usize_max"
  shows "decode_primary_key bs = Inr vs \<longleftrightarrow> encode_primary_key vs = Inr bs"
  using primary_key_codec.dec_iff assms by blast

theorem primary_key_canonical_witness:
  "(decode_primary_key [0x20, 0, 0xff, 0x62, 0, 0, 0x30, 1] = Inr [VText [0, 0x62], VBool True] \<longleftrightarrow>
    encode_primary_key [VText [0, 0x62], VBool True] = Inr [0x20, 0, 0xff, 0x62, 0, 0, 0x30, 1]) \<and>
   encode_primary_key [VText [0, 0x62], VBool True] = Inr [0x20, 0, 0xff, 0x62, 0, 0, 0x30, 1]"
proof
  show "decode_primary_key [0x20, 0, 0xff, 0x62, 0, 0, 0x30, 1] = Inr [VText [0, 0x62], VBool True] \<longleftrightarrow>
    encode_primary_key [VText [0, 0x62], VBool True] = Inr [0x20, 0, 0xff, 0x62, 0, 0, 0x30, 1]"
    by (rule primary_key_canonical) (code_simp, simp add: usize_max_def)
qed code_simp

text \<open>
  C34. The key built for a row encodes without error, decodes back to the same key, and
  still holds exactly the values it was built from.
\<close>

theorem make_row_key_roundtrip:
  assumes "make_row_key t vs = Inr k" and "list_all wf_value vs"
    and "length (primary_key_bytes k) \<le> usize_max"
  shows "\<exists>bs. encode_row_key k = Inr bs \<and> decode_row_key bs = Inr k \<and>
    table_id k = t \<and> decode_primary_key (primary_key_bytes k) = Inr vs"
proof -
  from assms(1) obtain pk where t: "t \<noteq> 0" and pk: "encode_primary_key vs = Inr pk"
    and k: "k = RowKey t pk"
    by (auto simp: make_row_key_def validate_table_id_def result_simps)
  have dec: "decode_primary_key pk = Inr vs"
    using primary_key_codec.dec_enc [OF assms(2) pk] assms(3) k by simp
  then have "encode_row_key k = Inr (1 # u64_to_be_bytes t @ pk)"
    using t k by (simp add: encode_row_key_def validate_table_id_def)
  with dec k show ?thesis
    using row_key_codec.dec_enc by auto
qed

theorem make_row_key_roundtrip_witness:
  "\<exists>bs. encode_row_key (RowKey 7 [0x30, 1]) = Inr bs \<and> decode_row_key bs = Inr (RowKey 7 [0x30, 1]) \<and>
    table_id (RowKey 7 [0x30, 1]) = 7 \<and>
    decode_primary_key (primary_key_bytes (RowKey 7 [0x30, 1])) = Inr [VBool True]"
  by (rule make_row_key_roundtrip) (code_simp, code_simp, simp add: usize_max_def)

end
