(* ===== verification/Mvcc_Records.thy ===== *)
theory Mvcc_Records
  imports Bytes
begin

text \<open>
  The MVCC and transaction records (\<^verbatim>\<open>LockRecord\<close>, \<^verbatim>\<open>WriteRecord\<close> and
  \<^verbatim>\<open>TxnStatusRecord\<close> of \<^verbatim>\<open>ragnordb-common/src/codec.rs\<close>), their validation, and
  their conversion to and from the generated protobuf messages. A protobuf message with one
  integer field (\<^verbatim>\<open>TxnId\<close>, \<^verbatim>\<open>Timestamp\<close>) is that integer here.
\<close>

type_synonym Timestamp = u64
type_synonym TxnId = u64
type_synonym TabletId = u64
type_synonym 'a str_result = "string + 'a"

section \<open>Records\<close>

datatype WriteKind = Put | Delete | Rollback

record LockRecord =
  l_txn_id :: TxnId
  l_primary_key :: bytes
  l_start_timestamp :: Timestamp
  l_ttl_ms :: u64
  l_op :: WriteKind

record WriteRecord =
  w_start_timestamp :: Timestamp
  w_commit_timestamp :: Timestamp
  w_op :: WriteKind

datatype TxnStatus = Pending | Committed | Aborted

record TxnStatusRecord =
  s_txn_id :: TxnId
  s_start_timestamp :: Timestamp
  s_commit_timestamp :: "Timestamp option"
  s_status :: TxnStatus
  s_primary_key :: bytes
  s_participant_tablet_ids :: "u64 list"
  s_last_heartbeat_timestamp :: "Timestamp option"
  s_lease_deadline_ms :: "u64 option"

section \<open>Validation\<close>

definition LockRecord_validate :: "LockRecord \<Rightarrow> unit str_result" where
  "LockRecord_validate r =
     (if l_txn_id r = 0 then Inl ''lock record requires a non-zero transaction ID''
      else if l_primary_key r = [] then Inl ''lock record requires a non-empty primary key''
      else if l_start_timestamp r = 0 then Inl ''lock record requires a non-zero start timestamp''
      else if l_ttl_ms r = 0 then Inl ''lock record requires a non-zero TTL''
      else if l_op r = Rollback then Inl ''lock record cannot contain a rollback operation''
      else Inr ())"

definition WriteRecord_validate :: "WriteRecord \<Rightarrow> unit str_result" where
  "WriteRecord_validate r =
     (if w_start_timestamp r = 0 then Inl ''write record requires a non-zero start timestamp''
      else if w_commit_timestamp r = 0 then Inl ''write record requires a non-zero commit timestamp''
      else if (w_op r = Put \<or> w_op r = Delete) \<and> w_commit_timestamp r \<le> w_start_timestamp r
      then Inl ''committed write timestamp must be greater than start timestamp''
      else if w_op r = Rollback \<and> w_commit_timestamp r \<noteq> w_start_timestamp r
      then Inl ''rollback write timestamp must equal start timestamp''
      else Inr ())"

fun validate_outcome :: "TxnStatus \<Rightarrow> Timestamp option \<Rightarrow> Timestamp \<Rightarrow> unit str_result" where
  "validate_outcome Committed (Some commit_timestamp) start =
     (if commit_timestamp > start then Inr ()
      else Inl ''commit_timestamp must be greater than start_timestamp'')"
| "validate_outcome Committed None start = Inl ''committed transaction requires commit_timestamp''"
| "validate_outcome Pending None start = Inr ()"
| "validate_outcome Aborted None start = Inr ()"
| "validate_outcome Pending (Some _) start =
     Inl ''pending transaction must not contain commit_timestamp''"
| "validate_outcome Aborted (Some _) start =
     Inl ''aborted transaction must not contain commit_timestamp''"

definition TxnStatusRecord_validate :: "TxnStatusRecord \<Rightarrow> unit str_result" where
  "TxnStatusRecord_validate r =
     (let ids = s_participant_tablet_ids r in
      if s_txn_id r = 0 then Inl ''transaction status requires a non-zero transaction ID''
      else if s_start_timestamp r = 0
      then Inl ''transaction status requires a non-zero start timestamp''
      else if s_primary_key r = [] then Inl ''transaction status requires a non-empty primary key''
      else if ids = [] then Inl ''transaction status requires a primary participant tablet''
      else if hd ids = 0 then Inl ''transaction status requires a non-zero primary tablet ID''
      else if \<not> successively (<) (tl ids)
      then Inl ''participant tablet IDs after the primary must be strictly increasing''
      else if hd ids \<in> set (tl ids)
      then Inl ''primary tablet ID must not be repeated in participants''
      else if (case s_last_heartbeat_timestamp r of None \<Rightarrow> False | Some t \<Rightarrow> t < s_start_timestamp r)
      then Inl ''last heartbeat timestamp must not precede start timestamp''
      else if s_lease_deadline_ms r = Some 0
      then Inl ''lease deadline must be non-zero when present''
      else validate_outcome (s_status r) (s_commit_timestamp r) (s_start_timestamp r))"

definition primary_tablet_id :: "TxnStatusRecord \<Rightarrow> TabletId str_result" where
  "primary_tablet_id r =
     and_then (TxnStatusRecord_validate r) (\<lambda>_. Inr (hd (s_participant_tablet_ids r)))"

section \<open>Protobuf messages\<close>

type_synonym i32 = "32 word"

record proto_LockRecord =
  pl_txn_id :: "u64 option"
  pl_primary_key :: bytes
  pl_start_timestamp :: "u64 option"
  pl_ttl_ms :: u64
  pl_op :: i32

record proto_WriteRecord =
  pw_start_timestamp :: "u64 option"
  pw_commit_timestamp :: "u64 option"
  pw_op :: i32

record proto_TxnStatusRecord =
  ps_txn_id :: "u64 option"
  ps_start_timestamp :: "u64 option"
  ps_commit_timestamp :: "u64 option"
  ps_status :: i32
  ps_primary_key :: bytes
  ps_participant_tablet_ids :: "u64 list"
  ps_last_heartbeat_timestamp :: "u64 option"
  ps_lease_deadline_ms :: u64

fun WriteKind_to_proto :: "WriteKind \<Rightarrow> i32" where
  "WriteKind_to_proto Put = 1"
| "WriteKind_to_proto Delete = 2"
| "WriteKind_to_proto Rollback = 3"

definition WriteKind_from_proto :: "i32 \<Rightarrow> WriteKind str_result" where
  "WriteKind_from_proto op =
     (if op = 1 then Inr Put else if op = 2 then Inr Delete else if op = 3 then Inr Rollback
      else if op = 0 then Inl ''unspecified write kind'' else Inl ''inv'')"

fun TxnStatus_to_proto :: "TxnStatus \<Rightarrow> i32" where
  "TxnStatus_to_proto Pending = 1"
| "TxnStatus_to_proto Committed = 2"
| "TxnStatus_to_proto Aborted = 3"

definition TxnStatus_from_proto :: "i32 \<Rightarrow> TxnStatus str_result" where
  "TxnStatus_from_proto s =
     (if s = 1 then Inr Pending else if s = 2 then Inr Committed else if s = 3 then Inr Aborted
      else if s = 0 then Inl ''unspecified txn status'' else Inl ''invalid transaction status'')"

definition LockRecord_to_proto :: "LockRecord \<Rightarrow> proto_LockRecord str_result" where
  "LockRecord_to_proto r =
     and_then (LockRecord_validate r) (\<lambda>_. Inr
       \<lparr>pl_txn_id = Some (l_txn_id r), pl_primary_key = l_primary_key r,
        pl_start_timestamp = Some (l_start_timestamp r), pl_ttl_ms = l_ttl_ms r,
        pl_op = WriteKind_to_proto (l_op r)\<rparr>)"

definition LockRecord_from_proto :: "proto_LockRecord \<Rightarrow> LockRecord str_result" where
  "LockRecord_from_proto p =
     and_then (ok_or (pl_txn_id p) ''missing txn_id'') (\<lambda>txn.
     and_then (ok_or (pl_start_timestamp p) ''missing start_ts'') (\<lambda>start.
     and_then (WriteKind_from_proto (pl_op p)) (\<lambda>op.
       let r = \<lparr>l_txn_id = txn, l_primary_key = pl_primary_key p, l_start_timestamp = start,
                l_ttl_ms = pl_ttl_ms p, l_op = op\<rparr> in
       and_then (LockRecord_validate r) (\<lambda>_. Inr r))))"

definition WriteRecord_to_proto :: "WriteRecord \<Rightarrow> proto_WriteRecord str_result" where
  "WriteRecord_to_proto r =
     and_then (WriteRecord_validate r) (\<lambda>_. Inr
       \<lparr>pw_start_timestamp = Some (w_start_timestamp r),
        pw_commit_timestamp = Some (w_commit_timestamp r),
        pw_op = WriteKind_to_proto (w_op r)\<rparr>)"

definition WriteRecord_from_proto :: "proto_WriteRecord \<Rightarrow> WriteRecord str_result" where
  "WriteRecord_from_proto p =
     and_then (ok_or (pw_start_timestamp p) ''missing start_ts'') (\<lambda>start.
     and_then (ok_or (pw_commit_timestamp p) ''missing commit_ts'') (\<lambda>commit.
     and_then (WriteKind_from_proto (pw_op p)) (\<lambda>op.
       let r = \<lparr>w_start_timestamp = start, w_commit_timestamp = commit, w_op = op\<rparr> in
       and_then (WriteRecord_validate r) (\<lambda>_. Inr r))))"

definition TxnStatusRecord_to_proto :: "TxnStatusRecord \<Rightarrow> proto_TxnStatusRecord str_result" where
  "TxnStatusRecord_to_proto r =
     and_then (TxnStatusRecord_validate r) (\<lambda>_. Inr
       \<lparr>ps_txn_id = Some (s_txn_id r), ps_start_timestamp = Some (s_start_timestamp r),
        ps_commit_timestamp = s_commit_timestamp r, ps_status = TxnStatus_to_proto (s_status r),
        ps_primary_key = s_primary_key r,
        ps_participant_tablet_ids = s_participant_tablet_ids r,
        ps_last_heartbeat_timestamp = s_last_heartbeat_timestamp r,
        ps_lease_deadline_ms = (case s_lease_deadline_ms r of None \<Rightarrow> 0 | Some d \<Rightarrow> d)\<rparr>)"

definition TxnStatusRecord_from_proto :: "proto_TxnStatusRecord \<Rightarrow> TxnStatusRecord str_result" where
  "TxnStatusRecord_from_proto p =
     and_then (ok_or (ps_txn_id p) ''missing txn_id'') (\<lambda>txn.
     and_then (ok_or (ps_start_timestamp p) ''missing start_timestamp'') (\<lambda>start.
     and_then (TxnStatus_from_proto (ps_status p)) (\<lambda>status.
       let r = \<lparr>s_txn_id = txn, s_start_timestamp = start,
                s_commit_timestamp = ps_commit_timestamp p, s_status = status,
                s_primary_key = ps_primary_key p,
                s_participant_tablet_ids = ps_participant_tablet_ids p,
                s_last_heartbeat_timestamp = ps_last_heartbeat_timestamp p,
                s_lease_deadline_ms =
                  (if ps_lease_deadline_ms p \<noteq> 0 then Some (ps_lease_deadline_ms p) else None)\<rparr> in
       and_then (TxnStatusRecord_validate r) (\<lambda>_. Inr r))))"

section \<open>Validation as predicates\<close>

definition lock_valid :: "LockRecord \<Rightarrow> bool" where
  "lock_valid r \<longleftrightarrow> l_txn_id r \<noteq> 0 \<and> l_primary_key r \<noteq> [] \<and> l_start_timestamp r \<noteq> 0 \<and>
     l_ttl_ms r \<noteq> 0 \<and> l_op r \<noteq> Rollback"

lemma LockRecord_validate_Inr [result_simps]: "LockRecord_validate r = Inr u \<longleftrightarrow> lock_valid r"
  by (auto simp: LockRecord_validate_def lock_valid_def)

lemma WriteRecord_validate_Inr [result_simps]:
  "WriteRecord_validate r = Inr u \<longleftrightarrow>
     w_start_timestamp r \<noteq> 0 \<and> w_commit_timestamp r \<noteq> 0 \<and>
     (if w_op r = Rollback then w_commit_timestamp r = w_start_timestamp r
      else w_start_timestamp r < w_commit_timestamp r)"
  by (cases "w_op r") (auto simp: WriteRecord_validate_def)

lemma validate_outcome_Inr [result_simps]:
  "validate_outcome s c t = Inr u \<longleftrightarrow>
     (if s = Committed then (\<exists>ct. c = Some ct \<and> t < ct) else c = None)"
  by (cases "(s, c, t)" rule: validate_outcome.cases) auto

lemma TxnStatusRecord_validate_outcome:
  "TxnStatusRecord_validate r = Inr u \<Longrightarrow>
     (if s_status r = Committed
      then (\<exists>ct. s_commit_timestamp r = Some ct \<and> s_start_timestamp r < ct)
      else s_commit_timestamp r = None)"
  by (auto simp: TxnStatusRecord_validate_def Let_def result_simps split: if_splits)

lemma TxnStatusRecord_validate_lease:
  "TxnStatusRecord_validate r = Inr u \<Longrightarrow> s_lease_deadline_ms r \<noteq> Some 0"
  by (auto simp: TxnStatusRecord_validate_def Let_def split: if_splits)

text \<open>Well-formed write and status records, stated apart from the validators.\<close>

definition write_valid :: "WriteRecord \<Rightarrow> bool" where
  "write_valid r \<longleftrightarrow> 0 < w_start_timestamp r \<and>
     (case w_op r of
        Rollback \<Rightarrow> w_commit_timestamp r = w_start_timestamp r
      | _ \<Rightarrow> w_start_timestamp r < w_commit_timestamp r)"

definition status_valid :: "TxnStatusRecord \<Rightarrow> bool" where
  "status_valid r \<longleftrightarrow>
     s_txn_id r \<noteq> 0 \<and> s_start_timestamp r \<noteq> 0 \<and> s_primary_key r \<noteq> [] \<and>
     (case s_participant_tablet_ids r of
        [] \<Rightarrow> False
      | primary # others \<Rightarrow> primary \<noteq> 0 \<and> primary \<notin> set others \<and> sorted_wrt (<) others) \<and>
     (case s_last_heartbeat_timestamp r of None \<Rightarrow> True | Some t \<Rightarrow> s_start_timestamp r \<le> t) \<and>
     (case s_lease_deadline_ms r of None \<Rightarrow> True | Some d \<Rightarrow> 0 < d) \<and>
     (case s_commit_timestamp r of
        None \<Rightarrow> s_status r \<noteq> Committed
      | Some c \<Rightarrow> s_status r = Committed \<and> s_start_timestamp r < c)"

lemma WriteRecord_validate_iff: "WriteRecord_validate r = Inr u \<longleftrightarrow> write_valid r"
  by (cases "w_op r") (auto simp: WriteRecord_validate_Inr write_valid_def word_gt_0)

lemma TxnStatusRecord_validate_iff: "TxnStatusRecord_validate r = Inr u \<longleftrightarrow> status_valid r"
proof -
  have sorted: "successively (<) ids \<longleftrightarrow> sorted_wrt (<) ids" for ids :: "u64 list"
    by (simp add: successively_conv_sorted_wrt)
  show ?thesis
    by (cases "s_participant_tablet_ids r"; cases "s_commit_timestamp r"; cases "s_status r")
      (auto simp: TxnStatusRecord_validate_def status_valid_def Let_def sorted not_less word_gt_0
        split: option.splits)
qed

section \<open>Wire round trips\<close>

lemma WriteKind_roundtrip [simp]: "WriteKind_from_proto (WriteKind_to_proto k) = Inr k"
  by (cases k) (simp_all add: WriteKind_from_proto_def)

lemma WriteKind_from_proto_Inr: "WriteKind_from_proto op = Inr k \<longleftrightarrow> op = WriteKind_to_proto k"
  by (cases k) (auto simp: WriteKind_from_proto_def)

lemma TxnStatus_roundtrip [simp]: "TxnStatus_from_proto (TxnStatus_to_proto s) = Inr s"
  by (cases s) (simp_all add: TxnStatus_from_proto_def)

lemma TxnStatus_from_proto_Inr: "TxnStatus_from_proto op = Inr s \<longleftrightarrow> op = TxnStatus_to_proto s"
  by (cases s) (auto simp: TxnStatus_from_proto_def)

lemma LockRecord_wire: "LockRecord_from_proto pl = Inr l \<longleftrightarrow> LockRecord_to_proto l = Inr pl"
  by (cases pl; cases l)
    (auto simp: LockRecord_from_proto_def LockRecord_to_proto_def Let_def result_simps
      WriteKind_from_proto_Inr)

lemma WriteRecord_wire: "WriteRecord_from_proto pw = Inr w \<longleftrightarrow> WriteRecord_to_proto w = Inr pw"
  by (cases pw; cases w)
    (auto simp: WriteRecord_from_proto_def WriteRecord_to_proto_def Let_def and_then_eq_Inr
      ok_or_eq_Inr WriteKind_from_proto_Inr)

lemma TxnStatusRecord_wire:
  "TxnStatusRecord_from_proto ps = Inr s \<longleftrightarrow> TxnStatusRecord_to_proto s = Inr ps"
  by (cases ps; cases s)
    (auto simp: TxnStatusRecord_from_proto_def TxnStatusRecord_to_proto_def Let_def
      and_then_eq_Inr ok_or_eq_Inr TxnStatus_from_proto_Inr split: option.splits if_splits
      dest: TxnStatusRecord_validate_lease)

text \<open>
  C36. The wire format of each record is canonical: a record can be encoded exactly when it is
  well formed (the three predicates above), and a message decodes to a record exactly when it
  is that record's encoding. So encoding loses nothing, no second message spells the same
  record, and neither direction accepts a record that is not well formed or refuses one that
  is.
\<close>

theorem record_wire_canonical:
  "(is_ok (LockRecord_to_proto l) \<longleftrightarrow> lock_valid l) \<and>
   (LockRecord_from_proto pl = Inr l \<longleftrightarrow> LockRecord_to_proto l = Inr pl) \<and>
   (is_ok (WriteRecord_to_proto w) \<longleftrightarrow> write_valid w) \<and>
   (WriteRecord_from_proto pw = Inr w \<longleftrightarrow> WriteRecord_to_proto w = Inr pw) \<and>
   (is_ok (TxnStatusRecord_to_proto s) \<longleftrightarrow> status_valid s) \<and>
   (TxnStatusRecord_from_proto ps = Inr s \<longleftrightarrow> TxnStatusRecord_to_proto s = Inr ps)"
proof (intro conjI LockRecord_wire WriteRecord_wire TxnStatusRecord_wire)
  show "is_ok (LockRecord_to_proto l) \<longleftrightarrow> lock_valid l"
    by (simp add: LockRecord_to_proto_def is_ok_iff and_then_eq_Inr LockRecord_validate_Inr)
  show "is_ok (WriteRecord_to_proto w) \<longleftrightarrow> write_valid w"
    by (simp add: WriteRecord_to_proto_def is_ok_iff and_then_eq_Inr WriteRecord_validate_iff)
  show "is_ok (TxnStatusRecord_to_proto s) \<longleftrightarrow> status_valid s"
    by (simp add: TxnStatusRecord_to_proto_def is_ok_iff and_then_eq_Inr TxnStatusRecord_validate_iff)
qed

end
