(* ===== verification/Mvcc.thy ===== *)
theory Mvcc
  imports BTreeMap Row_Key Mvcc_Records
begin

text \<open>
  The in-memory MVCC engine (\<^verbatim>\<open>ragnordb-storage/src/mvcc.rs\<close>): the three maps, the
  validation helpers, snapshot reads, the local batch commit, and the distributed prewrite,
  commit and rollback of intents. A method on \<^verbatim>\<open>&mut self\<close> returns its result together
  with the state it leaves behind, so that what an error does to the state is visible.
\<close>

section \<open>State\<close>

datatype Mutation = PutMutation bytes | DeleteMutation

fun write_kind :: "Mutation \<Rightarrow> WriteKind" where
  "write_kind (PutMutation _) = Put"
| "write_kind DeleteMutation = Delete"

type_synonym mutations = "(bytes, Mutation) btree"
type_synonym key_set = "bytes bset"

record InMemoryMvcc =
  m_default :: "(bytes, Timestamp, bytes) btree2"
  m_locks :: "(bytes, LockRecord) btree"
  m_writes :: "(bytes, Timestamp, WriteRecord) btree2"

definition InMemoryMvcc_new :: InMemoryMvcc where
  "InMemoryMvcc_new = \<lparr>m_default = bt_new, m_locks = bt_new, m_writes = bt_new\<rparr>"

record PreparedPrewrite =
  pp_key :: bytes
  pp_default_value :: "bytes option"
  pp_lock :: LockRecord

record PreparedIntentCommit =
  pc_key :: bytes
  pc_write :: WriteRecord

record PreparedIntentRollback =
  pr_key :: bytes
  pr_remove_default_value :: bool

section \<open>Validation helpers\<close>

definition validate_encoded_key_argument :: "bytes \<Rightarrow> unit result" where
  "validate_encoded_key_argument key =
     map_err (\<lambda>_. InvalidArgument) (and_then (decode_row_key key) (\<lambda>_. Inr ()))"

definition validate_commit_preflight_metadata :: "TxnId \<Rightarrow> Timestamp \<Rightarrow> unit result" where
  "validate_commit_preflight_metadata txn_id start_ts =
     and_then (ensure (txn_id \<noteq> 0) InvalidArgument) (\<lambda>_.
       ensure (start_ts \<noteq> 0) InvalidArgument)"

definition validate_commit_metadata :: "TxnId \<Rightarrow> Timestamp \<Rightarrow> Timestamp \<Rightarrow> unit result" where
  "validate_commit_metadata txn_id start_ts commit_ts =
     and_then (validate_commit_preflight_metadata txn_id start_ts) (\<lambda>_.
     and_then (ensure (commit_ts \<noteq> 0) InvalidArgument) (\<lambda>_.
       ensure (\<not> commit_ts \<le> start_ts) InvalidArgument))"

definition validate_write_record :: "Timestamp \<Rightarrow> WriteRecord \<Rightarrow> unit result" where
  "validate_write_record stored_write_ts w =
     and_then (ensure (w_commit_timestamp w = stored_write_ts) CorruptData) (\<lambda>_.
     and_then (ensure (w_start_timestamp w \<noteq> 0) CorruptData) (\<lambda>_.
       case w_op w of
         Put \<Rightarrow> ensure (\<not> w_commit_timestamp w \<le> w_start_timestamp w) CorruptData
       | Delete \<Rightarrow> ensure (\<not> w_commit_timestamp w \<le> w_start_timestamp w) CorruptData
       | Rollback \<Rightarrow> ensure (w_commit_timestamp w = w_start_timestamp w) CorruptData))"

section \<open>Snapshot reads\<close>

fun visible_version ::
  "InMemoryMvcc \<Rightarrow> bytes \<Rightarrow> (Timestamp \<times> WriteRecord) list \<Rightarrow> bytes option result" where
  "visible_version m key [] = Inr None"
| "visible_version m key ((stored_write_ts, w) # older) =
     and_then (validate_write_record stored_write_ts w) (\<lambda>_.
       case w_op w of
         Put \<Rightarrow>
           and_then (ok_or (get2 (m_default m) key (w_start_timestamp w)) CorruptData) (\<lambda>row.
           and_then (decode_row row) (\<lambda>_. Inr (Some row)))
       | Delete \<Rightarrow> Inr None
       | Rollback \<Rightarrow> visible_version m key older)"

definition read_visible_version ::
  "InMemoryMvcc \<Rightarrow> bytes \<Rightarrow> Timestamp \<Rightarrow> bytes option result" where
  "read_visible_version m key read_ts =
     and_then
       (case bt_get (m_locks m) key of
          None \<Rightarrow> Inr ()
        | Some lock \<Rightarrow> ensure (\<not> l_start_timestamp lock \<le> read_ts) WriteConflict) (\<lambda>_.
       case bt_get (m_writes m) key of
         None \<Rightarrow> Inr None
       | Some versions \<Rightarrow>
           visible_version m key (rev (bt_range versions Unbounded (Included read_ts))))"

definition mvcc_read :: "InMemoryMvcc \<Rightarrow> bytes \<Rightarrow> Timestamp \<Rightarrow> bytes option result" where
  "mvcc_read m key read_ts =
     and_then (validate_encoded_key_argument key) (\<lambda>_. read_visible_version m key read_ts)"

definition intent_for_read ::
  "InMemoryMvcc \<Rightarrow> bytes \<Rightarrow> Timestamp \<Rightarrow> LockRecord option result" where
  "intent_for_read m key read_ts =
     and_then (validate_encoded_key_argument key) (\<lambda>_.
       case bt_get (m_locks m) key of
         None \<Rightarrow> Inr None
       | Some lock \<Rightarrow>
           if l_start_timestamp lock > read_ts then Inr None
           else and_then (map_err (\<lambda>_. CorruptData) (LockRecord_validate lock)) (\<lambda>_.
                  Inr (Some lock)))"

section \<open>Commit validation\<close>

definition validate_mutation ::
  "InMemoryMvcc \<Rightarrow> bytes \<Rightarrow> Mutation \<Rightarrow> Timestamp \<Rightarrow> unit result" where
  "validate_mutation m key mutation start_ts =
     and_then (validate_encoded_key_argument key) (\<lambda>_.
       case mutation of
         PutMutation row \<Rightarrow>
           and_then (map_err (\<lambda>_. InvalidArgument) (decode_row row)) (\<lambda>_.
             case get2 (m_default m) key start_ts of
               None \<Rightarrow> Inr ()
             | Some existing \<Rightarrow> ensure (existing = row) CorruptData)
       | DeleteMutation \<Rightarrow>
           ensure (get2 (m_default m) key start_ts = None) CorruptData)"

definition validate_lock ::
  "InMemoryMvcc \<Rightarrow> bytes \<Rightarrow> Mutation \<Rightarrow> TxnId \<Rightarrow> Timestamp \<Rightarrow> unit result" where
  "validate_lock m key mutation txn_id start_ts =
     (case bt_get (m_locks m) key of
        None \<Rightarrow> Inr ()
      | Some lock \<Rightarrow>
          if l_txn_id lock \<noteq> txn_id \<or> l_start_timestamp lock \<noteq> start_ts then Inl WriteConflict
          else ensure (l_op lock = write_kind mutation) CorruptData)"

definition validate_write_history :: "InMemoryMvcc \<Rightarrow> bytes \<Rightarrow> Timestamp \<Rightarrow> unit result" where
  "validate_write_history m key start_ts =
     (case bt_get (m_writes m) key of
        None \<Rightarrow> Inr ()
      | Some versions \<Rightarrow>
          and_then
            (case bt_get versions start_ts of
               None \<Rightarrow> Inr ()
             | Some w \<Rightarrow>
                 and_then (validate_write_record start_ts w) (\<lambda>_.
                   ensure (\<not> (w_op w = Rollback \<and> w_start_timestamp w = start_ts)) WriteConflict))
            (\<lambda>_.
              case find (\<lambda>(_, w). w_op w \<noteq> Rollback)
                     (rev (bt_range versions (Excluded start_ts) Unbounded)) of
                None \<Rightarrow> Inr ()
              | Some (conflicting_write_ts, w) \<Rightarrow>
                  and_then (validate_write_record conflicting_write_ts w) (\<lambda>_. Inl WriteConflict)))"

definition validate_commit_timestamp :: "InMemoryMvcc \<Rightarrow> bytes \<Rightarrow> Timestamp \<Rightarrow> unit result" where
  "validate_commit_timestamp m key commit_ts =
     (case bt_get (m_writes m) key of
        None \<Rightarrow> Inr ()
      | Some versions \<Rightarrow>
          (case bt_last_key_value versions of
             None \<Rightarrow> Inr ()
           | Some (latest_write_ts, _) \<Rightarrow> ensure (\<not> latest_write_ts \<ge> commit_ts) WriteConflict))"

definition is_exactly_applied ::
  "InMemoryMvcc \<Rightarrow> bytes \<Rightarrow> Mutation \<Rightarrow> Timestamp \<Rightarrow> Timestamp \<Rightarrow> bool result" where
  "is_exactly_applied m key mutation start_ts commit_ts =
     (case get2 (m_writes m) key commit_ts of
        None \<Rightarrow> Inr False
      | Some w \<Rightarrow>
          and_then (validate_write_record commit_ts w) (\<lambda>_.
          and_then (ensure (\<not> (w_start_timestamp w \<noteq> start_ts \<or> w_op w \<noteq> write_kind mutation))
                      CorruptData) (\<lambda>_.
            case mutation of
              PutMutation expected_row \<Rightarrow>
                and_then (ok_or (get2 (m_default m) key start_ts) CorruptData) (\<lambda>stored_row.
                and_then (ensure (stored_row = expected_row) CorruptData) (\<lambda>_. Inr True))
            | DeleteMutation \<Rightarrow> Inr True)))"

definition validate_batch_replay ::
  "InMemoryMvcc \<Rightarrow> mutations \<Rightarrow> Timestamp \<Rightarrow> Timestamp \<Rightarrow> bool result" where
  "validate_batch_replay m mutations start_ts commit_ts =
     and_then
       (try_fold (\<lambda>applied (key, mutation).
          and_then (is_exactly_applied m key mutation start_ts commit_ts) (\<lambda>b.
            Inr (if b then applied + 1 else applied))) (0 :: nat) (bt_iter mutations)) (\<lambda>applied.
       if applied = 0 then Inr False
       else if applied = bt_len mutations then Inr True
       else Inl CorruptData)"

definition validate_commit_batch ::
  "InMemoryMvcc \<Rightarrow> TxnId \<Rightarrow> Timestamp \<Rightarrow> mutations \<Rightarrow> unit result" where
  "validate_commit_batch m txn_id start_ts mutations =
     and_then (validate_commit_preflight_metadata txn_id start_ts) (\<lambda>_.
     and_then (try_each (\<lambda>(key, mutation). validate_mutation m key mutation start_ts)
                 (bt_iter mutations)) (\<lambda>_.
       try_each (\<lambda>(key, mutation).
           and_then (validate_lock m key mutation txn_id start_ts) (\<lambda>_.
             validate_write_history m key start_ts))
         (bt_iter mutations)))"

section \<open>The local batch commit\<close>

definition publish_mutation ::
  "TxnId \<Rightarrow> Timestamp \<Rightarrow> Timestamp \<Rightarrow> bytes \<times> Mutation \<Rightarrow> InMemoryMvcc \<Rightarrow> InMemoryMvcc" where
  "publish_mutation txn_id start_ts commit_ts = (\<lambda>(key, mutation) m.
     let m1 = (case mutation of
                 PutMutation row \<Rightarrow> m\<lparr>m_default := insert2 key start_ts row (m_default m)\<rparr>
               | DeleteMutation \<Rightarrow> m);
         m2 = m1\<lparr>m_writes := insert2 key commit_ts
                \<lparr>w_start_timestamp = start_ts, w_commit_timestamp = commit_ts,
                 w_op = write_kind mutation\<rparr> (m_writes m1)\<rparr>
     in case bt_get (m_locks m2) key of
          None \<Rightarrow> m2
        | Some lock \<Rightarrow>
            if l_txn_id lock = txn_id \<and> l_start_timestamp lock = start_ts
            then m2\<lparr>m_locks := bt_remove key (m_locks m2)\<rparr> else m2)"

definition commit_batch ::
  "InMemoryMvcc \<Rightarrow> TxnId \<Rightarrow> Timestamp \<Rightarrow> Timestamp \<Rightarrow> mutations \<Rightarrow> nat result \<times> InMemoryMvcc" where
  "commit_batch m txn_id start_ts commit_ts mutations =
     (case and_then (validate_commit_metadata txn_id start_ts commit_ts) (\<lambda>_.
             try_each (\<lambda>(key, mutation). validate_mutation m key mutation start_ts)
               (bt_iter mutations)) of
        Inl e \<Rightarrow> (Inl e, m)
      | Inr _ \<Rightarrow>
          if bt_is_empty mutations then (Inr 0, m)
          else case validate_batch_replay m mutations start_ts commit_ts of
              Inl e \<Rightarrow> (Inl e, m)
            | Inr True \<Rightarrow> (Inr (bt_len mutations), m)
            | Inr False \<Rightarrow>
                (case and_then (validate_commit_batch m txn_id start_ts mutations) (\<lambda>_.
                        try_each (\<lambda>key. validate_commit_timestamp m key commit_ts)
                          (bt_keys mutations)) of
                   Inl e \<Rightarrow> (Inl e, m)
                 | Inr _ \<Rightarrow>
                     (Inr (bt_len mutations),
                      fold (publish_mutation txn_id start_ts commit_ts) (bt_iter mutations) m)))"

section \<open>Distributed prewrite\<close>

definition prepare_prewrite ::
  "InMemoryMvcc \<Rightarrow> TxnId \<Rightarrow> Timestamp \<Rightarrow> bytes \<Rightarrow> Mutation \<Rightarrow> bytes \<Rightarrow> u64 \<Rightarrow>
     PreparedPrewrite option result" where
  "prepare_prewrite m txn_id start_ts key mutation primary_key ttl_ms =
     and_then (validate_mutation m key mutation start_ts) (\<lambda>_.
     and_then (validate_write_history m key start_ts) (\<lambda>_.
     let expected_lock = \<lparr>l_txn_id = txn_id, l_primary_key = primary_key,
           l_start_timestamp = start_ts, l_ttl_ms = ttl_ms, l_op = write_kind mutation\<rparr> in
     case bt_get (m_locks m) key of
       Some existing_lock \<Rightarrow>
         if l_txn_id existing_lock \<noteq> txn_id \<or> l_start_timestamp existing_lock \<noteq> start_ts
         then Inl WriteConflict
         else if existing_lock \<noteq> expected_lock then Inl CorruptData
         else (case mutation of
             PutMutation expected_row \<Rightarrow>
               and_then (ok_or (get2 (m_default m) key start_ts) CorruptData) (\<lambda>stored_row.
               and_then (ensure (stored_row = expected_row) CorruptData) (\<lambda>_. Inr None))
           | DeleteMutation \<Rightarrow> Inr None)
     | None \<Rightarrow>
         if get2 (m_default m) key start_ts \<noteq> None then Inl CorruptData
         else Inr (Some \<lparr>pp_key = key,
                pp_default_value = (case mutation of PutMutation row \<Rightarrow> Some row | DeleteMutation \<Rightarrow> None),
                pp_lock = expected_lock\<rparr>)))"

definition apply_prewrite :: "PreparedPrewrite \<Rightarrow> InMemoryMvcc \<Rightarrow> InMemoryMvcc" where
  "apply_prewrite prepared m =
     (let key = pp_key prepared; lock = pp_lock prepared;
          m1 = (case pp_default_value prepared of
                  None \<Rightarrow> m
                | Some row \<Rightarrow>
                    m\<lparr>m_default := insert2 key (l_start_timestamp lock) row (m_default m)\<rparr>)
      in m1\<lparr>m_locks := bt_insert key lock (m_locks m1)\<rparr>)"

definition prewrite ::
  "InMemoryMvcc \<Rightarrow> TxnId \<Rightarrow> Timestamp \<Rightarrow> bytes \<Rightarrow> Mutation \<Rightarrow> bytes \<Rightarrow> u64 \<Rightarrow>
     unit result \<times> InMemoryMvcc" where
  "prewrite m txn_id start_ts key mutation primary_key ttl_ms =
     (case and_then (validate_commit_preflight_metadata txn_id start_ts) (\<lambda>_.
           and_then (validate_encoded_key_argument primary_key) (\<lambda>_.
           and_then (ensure (ttl_ms \<noteq> 0) InvalidArgument) (\<lambda>_.
             prepare_prewrite m txn_id start_ts key mutation primary_key ttl_ms))) of
        Inl e \<Rightarrow> (Inl e, m)
      | Inr None \<Rightarrow> (Inr (), m)
      | Inr (Some prepared) \<Rightarrow> (Inr (), apply_prewrite prepared m))"

definition prewrite_batch ::
  "InMemoryMvcc \<Rightarrow> TxnId \<Rightarrow> Timestamp \<Rightarrow> mutations \<Rightarrow> bytes \<Rightarrow> u64 \<Rightarrow>
     unit result \<times> InMemoryMvcc" where
  "prewrite_batch m txn_id start_ts mutations primary_key ttl_ms =
     (case and_then (ensure (\<not> bt_is_empty mutations) InvalidArgument) (\<lambda>_.
           and_then (validate_commit_preflight_metadata txn_id start_ts) (\<lambda>_.
           and_then (validate_encoded_key_argument primary_key) (\<lambda>_.
           and_then (ensure (ttl_ms \<noteq> 0) InvalidArgument) (\<lambda>_.
             try_filter_map (\<lambda>(key, mutation).
               prepare_prewrite m txn_id start_ts key mutation primary_key ttl_ms)
               (bt_iter mutations))))) of
        Inl e \<Rightarrow> (Inl e, m)
      | Inr prepared \<Rightarrow> (Inr (), fold apply_prewrite prepared m))"

section \<open>Distributed intent commit\<close>

definition prepare_intent_commit ::
  "InMemoryMvcc \<Rightarrow> TxnId \<Rightarrow> Timestamp \<Rightarrow> Timestamp \<Rightarrow> bytes \<Rightarrow>
     PreparedIntentCommit option result" where
  "prepare_intent_commit m txn_id start_ts commit_ts key =
     and_then (validate_encoded_key_argument key) (\<lambda>_.
     case get2 (m_writes m) key commit_ts of
       Some w \<Rightarrow>
         and_then (validate_write_record commit_ts w) (\<lambda>_.
         and_then
           (case bt_get (m_writes m) key of
              None \<Rightarrow> Inr ()
            | Some versions \<Rightarrow>
                try_each (\<lambda>(other_write_ts, other).
                  and_then (validate_write_record other_write_ts other) (\<lambda>_.
                    ensure (\<not> (other_write_ts \<noteq> commit_ts \<and> w_start_timestamp other = start_ts))
                      CorruptData)) (bt_iter versions)) (\<lambda>_.
         and_then (ensure (\<not> (w_start_timestamp w \<noteq> start_ts \<or> w_op w = Rollback)) CorruptData) (\<lambda>_.
         and_then
           (case bt_get (m_locks m) key of
              None \<Rightarrow> Inr ()
            | Some lock \<Rightarrow> ensure (l_start_timestamp lock \<noteq> start_ts) CorruptData) (\<lambda>_.
         and_then
           (if w_op w = Put
            then and_then (ok_or (get2 (m_default m) key start_ts) CorruptData) (\<lambda>row.
                 and_then (decode_row row) (\<lambda>_. Inr ()))
            else ensure (get2 (m_default m) key start_ts = None) CorruptData) (\<lambda>_.
           Inr None)))))
     | None \<Rightarrow>
         and_then (ok_or (bt_get (m_locks m) key) WriteConflict) (\<lambda>lock.
         and_then (ensure (\<not> (l_txn_id lock \<noteq> txn_id \<or> l_start_timestamp lock \<noteq> start_ts))
                     WriteConflict) (\<lambda>_.
         and_then
           (case l_op lock of
              Put \<Rightarrow> and_then (ok_or (get2 (m_default m) key start_ts) CorruptData) (\<lambda>row.
                     and_then (decode_row row) (\<lambda>_. Inr ()))
            | Delete \<Rightarrow> ensure (get2 (m_default m) key start_ts = None) CorruptData
            | Rollback \<Rightarrow> Inl CorruptData) (\<lambda>_.
         and_then (validate_write_history m key start_ts) (\<lambda>_.
         and_then (validate_commit_timestamp m key commit_ts) (\<lambda>_.
           Inr (Some \<lparr>pc_key = key,
             pc_write = \<lparr>w_start_timestamp = start_ts, w_commit_timestamp = commit_ts,
                         w_op = l_op lock\<rparr>\<rparr>)))))))"

definition apply_intent_commit :: "PreparedIntentCommit \<Rightarrow> InMemoryMvcc \<Rightarrow> InMemoryMvcc" where
  "apply_intent_commit prepared m =
     m\<lparr>m_writes := insert2 (pc_key prepared) (w_commit_timestamp (pc_write prepared))
                     (pc_write prepared) (m_writes m),
       m_locks := bt_remove (pc_key prepared) (m_locks m)\<rparr>"

definition commit_intent ::
  "InMemoryMvcc \<Rightarrow> TxnId \<Rightarrow> Timestamp \<Rightarrow> Timestamp \<Rightarrow> bytes \<Rightarrow> unit result \<times> InMemoryMvcc" where
  "commit_intent m txn_id start_ts commit_ts key =
     (case and_then (validate_commit_metadata txn_id start_ts commit_ts) (\<lambda>_.
             prepare_intent_commit m txn_id start_ts commit_ts key) of
        Inl e \<Rightarrow> (Inl e, m)
      | Inr None \<Rightarrow> (Inr (), m)
      | Inr (Some prepared) \<Rightarrow> (Inr (), apply_intent_commit prepared m))"

definition commit_intents_batch ::
  "InMemoryMvcc \<Rightarrow> TxnId \<Rightarrow> Timestamp \<Rightarrow> Timestamp \<Rightarrow> key_set \<Rightarrow> unit result \<times> InMemoryMvcc" where
  "commit_intents_batch m txn_id start_ts commit_ts keys =
     (case and_then (ensure (\<not> bt_is_empty keys) InvalidArgument) (\<lambda>_.
           and_then (validate_commit_metadata txn_id start_ts commit_ts) (\<lambda>_.
             try_filter_map (prepare_intent_commit m txn_id start_ts commit_ts) (bt_keys keys))) of
        Inl e \<Rightarrow> (Inl e, m)
      | Inr prepared \<Rightarrow> (Inr (), fold apply_intent_commit prepared m))"

section \<open>Distributed intent rollback\<close>

definition prepare_intent_rollback ::
  "InMemoryMvcc \<Rightarrow> TxnId \<Rightarrow> Timestamp \<Rightarrow> bytes \<Rightarrow> PreparedIntentRollback option result" where
  "prepare_intent_rollback m txn_id start_ts key =
     and_then (validate_encoded_key_argument key) (\<lambda>_.
     and_then
       (case bt_get (m_writes m) key of
          None \<Rightarrow> Inr None
        | Some versions \<Rightarrow>
            and_then (try_each (\<lambda>(stored_write_ts, w).
                and_then (validate_write_record stored_write_ts w) (\<lambda>_.
                  ensure (\<not> (w_start_timestamp w = start_ts \<and> w_op w \<noteq> Rollback)) WriteConflict))
                (bt_iter versions)) (\<lambda>_. Inr (bt_get versions start_ts))) (\<lambda>witness.
     case witness of
       Some rollback \<Rightarrow>
         and_then (ensure (\<not> (w_start_timestamp rollback \<noteq> start_ts \<or> w_op rollback \<noteq> Rollback))
                     CorruptData) (\<lambda>_.
         and_then
           (ensure (\<not> ((case bt_get (m_locks m) key of
                          None \<Rightarrow> False
                        | Some lock \<Rightarrow> l_start_timestamp lock = start_ts) \<or>
                       get2 (m_default m) key start_ts \<noteq> None)) CorruptData) (\<lambda>_.
           Inr None))
     | None \<Rightarrow>
         and_then
           (case bt_get (m_locks m) key of
              None \<Rightarrow> Inr None
            | Some lock \<Rightarrow>
                if l_txn_id lock \<noteq> txn_id \<or> l_start_timestamp lock \<noteq> start_ts
                then Inl WriteConflict else Inr (Some (l_op lock))) (\<lambda>locked_op.
         and_then
           (case locked_op of
              Some Put \<Rightarrow>
                and_then (ok_or (get2 (m_default m) key start_ts) CorruptData) (\<lambda>row.
                and_then (decode_row row) (\<lambda>_. Inr ()))
            | Some Rollback \<Rightarrow> Inl CorruptData
            | _ \<Rightarrow> ensure (get2 (m_default m) key start_ts = None) CorruptData) (\<lambda>_.
           Inr (Some \<lparr>pr_key = key, pr_remove_default_value = (locked_op = Some Put)\<rparr>)))))"

definition remove_default_version ::
  "bytes \<Rightarrow> Timestamp \<Rightarrow> (bytes, Timestamp, bytes) btree2 \<Rightarrow> (bytes, Timestamp, bytes) btree2" where
  "remove_default_version key start_ts d =
     (case bt_get d key of
        None \<Rightarrow> d
      | Some versions \<Rightarrow>
          let versions' = bt_remove start_ts versions in
          if bt_is_empty versions' then bt_remove key d else bt_insert key versions' d)"

definition apply_intent_rollback ::
  "Timestamp \<Rightarrow> PreparedIntentRollback \<Rightarrow> InMemoryMvcc \<Rightarrow> InMemoryMvcc" where
  "apply_intent_rollback start_ts prepared m =
     (let key = pr_key prepared;
          m1 = (if pr_remove_default_value prepared
                then m\<lparr>m_default := remove_default_version key start_ts (m_default m)\<rparr> else m)
      in m1\<lparr>m_locks := bt_remove key (m_locks m1),
            m_writes := insert2 key start_ts
              \<lparr>w_start_timestamp = start_ts, w_commit_timestamp = start_ts, w_op = Rollback\<rparr>
              (m_writes m1)\<rparr>)"

definition rollback_intent ::
  "InMemoryMvcc \<Rightarrow> TxnId \<Rightarrow> Timestamp \<Rightarrow> bytes \<Rightarrow> unit result \<times> InMemoryMvcc" where
  "rollback_intent m txn_id start_ts key =
     (case and_then (validate_commit_preflight_metadata txn_id start_ts) (\<lambda>_.
             prepare_intent_rollback m txn_id start_ts key) of
        Inl e \<Rightarrow> (Inl e, m)
      | Inr None \<Rightarrow> (Inr (), m)
      | Inr (Some prepared) \<Rightarrow> (Inr (), apply_intent_rollback start_ts prepared m))"

definition rollback_intents_batch ::
  "InMemoryMvcc \<Rightarrow> TxnId \<Rightarrow> Timestamp \<Rightarrow> key_set \<Rightarrow> unit result \<times> InMemoryMvcc" where
  "rollback_intents_batch m txn_id start_ts keys =
     (case and_then (ensure (\<not> bt_is_empty keys) InvalidArgument) (\<lambda>_.
           and_then (validate_commit_preflight_metadata txn_id start_ts) (\<lambda>_.
             try_filter_map (prepare_intent_rollback m txn_id start_ts) (bt_keys keys))) of
        Inl e \<Rightarrow> (Inl e, m)
      | Inr prepared \<Rightarrow> (Inr (), fold (apply_intent_rollback start_ts) prepared m))"

section \<open>Diagnostics\<close>

record VersionChainStats =
  vc_one :: nat
  vc_two_to_four :: nat
  vc_five_to_sixteen :: nat
  vc_more_than_sixteen :: nat
  vc_max_per_key :: nat

definition version_chain_stats :: "nat list \<Rightarrow> VersionChainStats" where
  "version_chain_stats lengths = fold (\<lambda>len stats.
       let stats = stats\<lparr>vc_max_per_key := max (vc_max_per_key stats) len\<rparr> in
       if len = 0 then stats
       else if len = 1 then stats\<lparr>vc_one := vc_one stats + 1\<rparr>
       else if 2 \<le> len \<and> len \<le> 4 then stats\<lparr>vc_two_to_four := vc_two_to_four stats + 1\<rparr>
       else if 5 \<le> len \<and> len \<le> 16 then stats\<lparr>vc_five_to_sixteen := vc_five_to_sixteen stats + 1\<rparr>
       else stats\<lparr>vc_more_than_sixteen := vc_more_than_sixteen stats + 1\<rparr>)
     lengths \<lparr>vc_one = 0, vc_two_to_four = 0, vc_five_to_sixteen = 0, vc_more_than_sixteen = 0,
              vc_max_per_key = 0\<rparr>"

record MvccStats =
  st_default_keys :: nat
  st_default_versions :: nat
  st_default_version_chains :: VersionChainStats
  st_locks :: nat
  st_write_keys :: nat
  st_write_records :: nat
  st_write_record_chains :: VersionChainStats

definition mvcc_stats :: "InMemoryMvcc \<Rightarrow> MvccStats" where
  "mvcc_stats m =
     \<lparr>st_default_keys = bt_len (m_default m),
      st_default_versions = sum_list (map bt_len (bt_values (m_default m))),
      st_default_version_chains = version_chain_stats (map bt_len (bt_values (m_default m))),
      st_locks = bt_len (m_locks m),
      st_write_keys = bt_len (m_writes m),
      st_write_records = sum_list (map bt_len (bt_values (m_writes m))),
      st_write_record_chains = version_chain_stats (map bt_len (bt_values (m_writes m)))\<rparr>"

definition allocator_high_water_marks :: "InMemoryMvcc \<Rightarrow> TxnId \<times> Timestamp" where
  "allocator_high_water_marks m =
     (let ts1 = fold (\<lambda>versions. fold max (bt_keys versions)) (bt_values (m_default m)) 0;
          (txn, ts2) = fold (\<lambda>lock (txn, ts).
              (max txn (l_txn_id lock), max ts (l_start_timestamp lock)))
            (bt_values (m_locks m)) (0, ts1);
          ts3 = fold (\<lambda>versions. fold (\<lambda>(commit_ts, r) ts.
              max (max ts commit_ts) (w_start_timestamp r)) (bt_iter versions))
            (bt_values (m_writes m)) ts2
      in (txn, ts3))"

end
