(* ===== verification/Mvcc_View.thy ===== *)
theory Mvcc_View
  imports Mvcc
begin

text \<open>
  The proof view of the MVCC engine: the three maps read per row key, what each validator
  decides in terms of that view, what each publication step changes, and the locale
  \<open>keyed_update\<close> that lifts a step on one key to a batch over distinct keys.
\<close>

section \<open>The view of one row key\<close>

definition dv :: "InMemoryMvcc \<Rightarrow> bytes \<Rightarrow> Timestamp \<Rightarrow> bytes option" where
  "dv m k = get2 (m_default m) k"

definition lk :: "InMemoryMvcc \<Rightarrow> bytes \<Rightarrow> LockRecord option" where
  "lk m k = bt_get (m_locks m) k"

definition vs :: "InMemoryMvcc \<Rightarrow> bytes \<Rightarrow> (Timestamp, WriteRecord) btree" where
  "vs m k = or_default (bt_get (m_writes m) k)"

definition wr :: "InMemoryMvcc \<Rightarrow> bytes \<Rightarrow> Timestamp \<Rightarrow> WriteRecord option" where
  "wr m k = get2 (m_writes m) k"

definition same_at :: "bytes \<Rightarrow> InMemoryMvcc \<Rightarrow> InMemoryMvcc \<Rightarrow> bool" where
  "same_at k m m' \<longleftrightarrow> dv m k = dv m' k \<and> lk m k = lk m' k \<and> wr m k = wr m' k"

lemma vs_get [simp]: "bt_get (vs m k) = wr m k"
  by (cases "bt_get (m_writes m) k") (auto simp: vs_def wr_def get2_def fun_eq_iff)

lemma vs_cong: "wr m k = wr m' k \<Longrightarrow> vs m k = vs m' k"
  by (intro bt_ext) simp

lemma same_at_refl [simp]: "same_at k m m"
  by (simp add: same_at_def)

lemma same_at_sym: "same_at k m m' \<Longrightarrow> same_at k m' m"
  by (simp add: same_at_def)

lemma same_at_trans: "same_at k m m' \<Longrightarrow> same_at k m' m'' \<Longrightarrow> same_at k m m''"
  by (simp add: same_at_def)

lemma view_new [simp]:
  "dv InMemoryMvcc_new k = Map.empty" "lk InMemoryMvcc_new k = None"
  "wr InMemoryMvcc_new k = Map.empty"
  by (simp_all add: dv_def lk_def wr_def InMemoryMvcc_new_def fun_eq_iff)

text \<open>The committed history: at which timestamps the row got a value or a tombstone.\<close>

definition committed_value :: "InMemoryMvcc \<Rightarrow> bytes \<Rightarrow> WriteRecord \<Rightarrow> bytes option option" where
  "committed_value m k w =
     (case w_op w of
        Put \<Rightarrow> Some (dv m k (w_start_timestamp w))
      | Delete \<Rightarrow> Some None
      | Rollback \<Rightarrow> None)"

definition history :: "InMemoryMvcc \<Rightarrow> bytes \<Rightarrow> Timestamp \<Rightarrow> bytes option option" where
  "history m k t = Option.bind (wr m k t) (committed_value m k)"

lemma committed_value_None [simp]: "committed_value m k w = None \<longleftrightarrow> w_op w = Rollback"
  by (cases "w_op w") (auto simp: committed_value_def)

lemma history_None: "history m k t = None \<longleftrightarrow> (\<forall>w. wr m k t = Some w \<longrightarrow> w_op w = Rollback)"
  by (cases "wr m k t") (auto simp: history_def)

definition latest_le :: "(Timestamp \<Rightarrow> 'v option) \<Rightarrow> Timestamp \<Rightarrow> 'v option" where
  "latest_le h r =
     (let ts = {t. t \<le> r \<and> h t \<noteq> None} in if ts = {} then None else h (Max ts))"

definition snapshot_value :: "(Timestamp \<Rightarrow> bytes option option) \<Rightarrow> Timestamp \<Rightarrow> bytes option" where
  "snapshot_value h r = Option.bind (latest_le h r) id"

lemma latest_le_eq:
  assumes "h t = Some v" and "t \<le> r" and "\<And>t'. t' \<le> r \<Longrightarrow> h t' \<noteq> None \<Longrightarrow> t' \<le> t"
  shows "latest_le h r = Some v"
proof -
  let ?ts = "{t. t \<le> r \<and> h t \<noteq> None}"
  have "Max ?ts = t"
    using assms by (intro Max_eqI) auto
  moreover have "?ts \<noteq> {}" using assms by blast
  ultimately show ?thesis using assms(1) by (simp only: latest_le_def Let_def if_False)
qed

lemma latest_le_None: "(\<And>t. t \<le> r \<Longrightarrow> h t = None) \<Longrightarrow> latest_le h r = None"
  by (auto simp: latest_le_def)

lemma latest_le_cong: "(\<And>t. t \<le> r \<Longrightarrow> h t = h' t) \<Longrightarrow> latest_le h r = latest_le h' r"
proof -
  assume *: "\<And>t. t \<le> r \<Longrightarrow> h t = h' t"
  let ?ts = "{t. t \<le> r \<and> h t \<noteq> None}"
  have "{t. t \<le> r \<and> h' t \<noteq> None} = ?ts" using * by auto
  moreover have "?ts \<noteq> {} \<Longrightarrow> Max ?ts \<le> r"
    using Max_in [of ?ts] by auto
  ultimately show ?thesis using * by (auto simp: latest_le_def Let_def)
qed

section \<open>What the validators decide\<close>

definition write_ok :: "Timestamp \<Rightarrow> WriteRecord \<Rightarrow> bool" where
  "write_ok t w \<longleftrightarrow> w_commit_timestamp w = t \<and> w_start_timestamp w \<noteq> 0 \<and>
     (if w_op w = Rollback then w_start_timestamp w = t else w_start_timestamp w < t)"

lemma validate_write_record_Inr [result_simps]:
  "validate_write_record t w = Inr u \<longleftrightarrow> write_ok t w"
  by (cases "w_op w") (auto simp: validate_write_record_def write_ok_def result_simps)

lemma validate_write_record_ok [simp]: "write_ok t w \<Longrightarrow> validate_write_record t w = Inr ()"
  by (simp add: result_simps)

lemma validate_key_Inr [result_simps]:
  "validate_encoded_key_argument key = Inr u \<longleftrightarrow> (\<exists>rk. decode_row_key key = Inr rk)"
  by (auto simp: validate_encoded_key_argument_def result_simps)

lemma validate_key_Inl: "validate_encoded_key_argument key = Inl e \<Longrightarrow> e = InvalidArgument"
  by (auto simp: validate_encoded_key_argument_def result_simps)

lemma validate_preflight_Inr [result_simps]:
  "validate_commit_preflight_metadata txn s = Inr u \<longleftrightarrow> txn \<noteq> 0 \<and> s \<noteq> 0"
  by (auto simp: validate_commit_preflight_metadata_def result_simps)

lemma validate_metadata_Inr [result_simps]:
  "validate_commit_metadata txn s c = Inr u \<longleftrightarrow> txn \<noteq> 0 \<and> s \<noteq> 0 \<and> s < c"
  by (auto simp: validate_commit_metadata_def result_simps not_le)

lemma validate_commit_timestamp_Inr [result_simps]:
  "validate_commit_timestamp m k c = Inr u \<longleftrightarrow> (\<forall>t w. wr m k t = Some w \<longrightarrow> t < c)"
proof (cases "bt_get (m_writes m) k")
  case None
  then show ?thesis by (simp add: validate_commit_timestamp_def wr_def get2_None_key)
next
  case (Some versions)
  show ?thesis
  proof (cases "bt_last_key_value versions")
    case None
    then have "\<forall>t. bt_get versions t = None"
      using bt_last_key_value_None bt_is_empty_iff by blast
    with Some None show ?thesis
      by (simp add: validate_commit_timestamp_def wr_def get2_Some_key)
  next
    case (Some p)
    obtain t w where "p = (t, w)" by (cases p)
    with Some \<open>bt_get (m_writes m) k = Some versions\<close> show ?thesis
      using bt_last_key_value_max [of versions t w]
      by (fastforce simp: validate_commit_timestamp_def wr_def get2_Some_key result_simps)
  qed
qed

lemma validate_commit_timestamp_Inl:
  "validate_commit_timestamp m k c = Inl e \<Longrightarrow> e = WriteConflict"
  by (auto simp: validate_commit_timestamp_def result_simps split: option.splits)

text \<open>\<open>unfenced\<close>: no commit after the snapshot and no rollback marker of the same transaction.\<close>

definition unfenced :: "InMemoryMvcc \<Rightarrow> bytes \<Rightarrow> Timestamp \<Rightarrow> bool" where
  "unfenced m k s \<longleftrightarrow> (\<forall>t w. wr m k t = Some w \<longrightarrow> w_op w \<noteq> Rollback \<longrightarrow> t \<le> s) \<and>
     (\<forall>w. wr m k s = Some w \<longrightarrow> w_op w \<noteq> Rollback)"

definition writes_ok :: "InMemoryMvcc \<Rightarrow> bytes \<Rightarrow> bool" where
  "writes_ok m k \<longleftrightarrow> (\<forall>t w. wr m k t = Some w \<longrightarrow> write_ok t w)"

lemma validate_write_history_alt:
  "validate_write_history m k s =
     and_then
       (case wr m k s of
          None \<Rightarrow> Inr ()
        | Some w \<Rightarrow>
            and_then (validate_write_record s w) (\<lambda>_.
              ensure (\<not> (w_op w = Rollback \<and> w_start_timestamp w = s)) WriteConflict))
       (\<lambda>_.
         case find (\<lambda>(_, w). w_op w \<noteq> Rollback) (rev (bt_range (vs m k) (Excluded s) Unbounded)) of
           None \<Rightarrow> Inr ()
         | Some (t, w) \<Rightarrow> and_then (validate_write_record t w) (\<lambda>_. Inl WriteConflict))"
proof (cases "bt_get (m_writes m) k")
  case None
  then show ?thesis
    by (simp add: validate_write_history_def wr_def vs_def get2_None_key bt_range_def bt.iter_empty)
next
  case (Some versions)
  then show ?thesis
    by (simp add: validate_write_history_def wr_def vs_def get2_Some_key)
qed

lemma validate_write_history_eq:
  assumes "writes_ok m k"
  shows "validate_write_history m k s = (if unfenced m k s then Inr () else Inl WriteConflict)"
proof -
  have 1: "(case wr m k s of
          None \<Rightarrow> Inr ()
        | Some w \<Rightarrow>
            and_then (validate_write_record s w) (\<lambda>_.
              ensure (\<not> (w_op w = Rollback \<and> w_start_timestamp w = s)) WriteConflict)) =
      (if \<forall>w. wr m k s = Some w \<longrightarrow> w_op w \<noteq> Rollback then Inr () else Inl WriteConflict)"
  proof (cases "wr m k s")
    case (Some w)
    with assms have "write_ok s w" by (simp add: writes_ok_def)
    with Some show ?thesis by (auto simp: write_ok_def)
  qed simp
  show ?thesis
  proof (cases "find (\<lambda>(_, w). w_op w \<noteq> Rollback) (rev (bt_range (vs m k) (Excluded s) Unbounded))")
    case None
    then have "\<forall>t w. wr m k t = Some w \<longrightarrow> s < t \<longrightarrow> w_op w = Rollback"
      by (simp add: find_rev_range_None)
    then have "\<forall>t w. wr m k t = Some w \<longrightarrow> w_op w \<noteq> Rollback \<longrightarrow> t \<le> s"
      using linorder_not_le by blast
    with None 1 show ?thesis by (simp add: validate_write_history_alt unfenced_def)
  next
    case (Some p)
    obtain t w where p: "p = (t, w)" by (cases p)
    with Some have "wr m k t = Some w" and "s < t" and "w_op w \<noteq> Rollback"
      by (auto simp: find_rev_range_Some)
    moreover from this have "\<not> unfenced m k s"
      unfolding unfenced_def using linorder_not_le by blast
    ultimately have "\<not> unfenced m k s" and "write_ok t w"
      using assms by (auto simp: writes_ok_def)
    with Some p 1 show ?thesis by (auto simp: validate_write_history_alt)
  qed
qed

lemma validate_write_history_unfenced:
  "validate_write_history m k s = Inr u \<Longrightarrow> writes_ok m k \<Longrightarrow> unfenced m k s"
  by (simp add: validate_write_history_eq split: if_splits)

section \<open>Snapshot reads\<close>

definition readable_defaults :: "InMemoryMvcc \<Rightarrow> bytes \<Rightarrow> bool" where
  "readable_defaults m k \<longleftrightarrow>
     (\<forall>t w. wr m k t = Some w \<longrightarrow> w_op w = Put \<longrightarrow>
       (\<exists>row r. dv m k (w_start_timestamp w) = Some row \<and> decode_row row = Inr r))"

lemma visible_version_find:
  assumes "\<forall>(t, w) \<in> set ws. write_ok t w"
  shows "visible_version m k ws =
    (case find (\<lambda>(_, w). w_op w \<noteq> Rollback) ws of
       None \<Rightarrow> Inr None
     | Some (t, w) \<Rightarrow>
         if w_op w = Put
         then and_then (ok_or (dv m k (w_start_timestamp w)) CorruptData) (\<lambda>row.
              and_then (decode_row row) (\<lambda>_. Inr (Some row)))
         else Inr None)"
  using assms by (induction ws) (auto simp: dv_def split: WriteKind.splits)

lemma read_visible_version_alt:
  "read_visible_version m k r =
     (if \<exists>lock. lk m k = Some lock \<and> l_start_timestamp lock \<le> r then Inl WriteConflict
      else visible_version m k (rev (bt_range (vs m k) Unbounded (Included r))))"
  by (auto simp: read_visible_version_def lk_def vs_def bt_range_def bt.iter_empty ensure_def
      split: option.splits)

lemma read_visible_version_eq:
  assumes "writes_ok m k" and "readable_defaults m k"
  shows "read_visible_version m k r =
    (if \<exists>lock. lk m k = Some lock \<and> l_start_timestamp lock \<le> r then Inl WriteConflict
     else Inr (snapshot_value (history m k) r))"
proof -
  let ?ws = "rev (bt_range (vs m k) Unbounded (Included r))"
  have ok: "\<forall>(t, w) \<in> set ?ws. write_ok t w"
    using assms(1) by (auto simp: writes_ok_def set_bt_range)
  have "visible_version m k ?ws = Inr (snapshot_value (history m k) r)"
  proof (cases "find (\<lambda>(_, w). w_op w \<noteq> Rollback) ?ws")
    case None
    then have "latest_le (history m k) r = None"
      by (intro latest_le_None) (auto simp: find_rev_range_None history_None)
    with None ok show ?thesis by (simp add: visible_version_find snapshot_value_def)
  next
    case (Some p)
    obtain t w where p: "p = (t, w)" by (cases p)
    with Some have w: "wr m k t = Some w" "t \<le> r" "w_op w \<noteq> Rollback"
      and top: "\<And>t' w'. wr m k t' = Some w' \<Longrightarrow> t' \<le> r \<Longrightarrow> w_op w' \<noteq> Rollback \<Longrightarrow> t' \<le> t"
      by (auto simp: find_rev_range_Some)
    obtain v where v: "committed_value m k w = Some v"
      using w committed_value_None by fastforce
    have "latest_le (history m k) r = Some v"
    proof (rule latest_le_eq)
      show "history m k t = Some v" using w v by (simp add: history_def)
      show "\<And>t'. t' \<le> r \<Longrightarrow> history m k t' \<noteq> None \<Longrightarrow> t' \<le> t"
        using top by (auto simp: history_None simp del: not_None_eq)
    qed (rule w)
    with v have "latest_le (history m k) r = committed_value m k w" by simp
    then show ?thesis
      using w assms(2) Some p ok
      by (cases "w_op w")
        (fastforce simp: visible_version_find snapshot_value_def committed_value_def
          readable_defaults_def)+
  qed
  then show ?thesis by (simp add: read_visible_version_alt)
qed

section \<open>What the publication steps change\<close>

lemma apply_prewrite_view:
  "dv (apply_prewrite p m) k =
     (if k = pp_key p
      then (case pp_default_value p of
              None \<Rightarrow> dv m k
            | Some row \<Rightarrow> (dv m k)(l_start_timestamp (pp_lock p) \<mapsto> row))
      else dv m k)"
  "lk (apply_prewrite p m) k = (if k = pp_key p then Some (pp_lock p) else lk m k)"
  "wr (apply_prewrite p m) k = wr m k"
  by (auto simp: apply_prewrite_def Let_def dv_def lk_def wr_def fun_eq_iff split: option.splits)

lemma apply_intent_commit_view:
  "dv (apply_intent_commit p m) k = dv m k"
  "lk (apply_intent_commit p m) k = (if k = pc_key p then None else lk m k)"
  "wr (apply_intent_commit p m) k =
     (if k = pc_key p then (wr m k)(w_commit_timestamp (pc_write p) \<mapsto> pc_write p) else wr m k)"
  by (auto simp: apply_intent_commit_def dv_def lk_def wr_def fun_eq_iff)

lemma get2_remove_default_version:
  "get2 (remove_default_version key s d) k t = (if k = key \<and> t = s then None else get2 d k t)"
proof (cases "bt_get d key")
  case None
  then show ?thesis by (auto simp: remove_default_version_def get2_def)
next
  case (Some versions)
  show ?thesis
  proof (cases "bt_is_empty (bt_remove s versions)")
    case True
    then have "\<forall>t. t \<noteq> s \<longrightarrow> bt_get versions t = None"
      by (auto simp: bt_is_empty_iff split: if_splits)
    with True Some show ?thesis
      by (auto simp: remove_default_version_def get2_def)
  next
    case False
    with Some show ?thesis
      by (auto simp: remove_default_version_def get2_def Let_def)
  qed
qed

lemma apply_intent_rollback_view:
  "dv (apply_intent_rollback s p m) k =
     (if k = pr_key p \<and> pr_remove_default_value p then (dv m k)(s := None) else dv m k)"
  "lk (apply_intent_rollback s p m) k = (if k = pr_key p then None else lk m k)"
  "wr (apply_intent_rollback s p m) k =
     (if k = pr_key p
      then (wr m k)(s \<mapsto> \<lparr>w_start_timestamp = s, w_commit_timestamp = s, w_op = Rollback\<rparr>)
      else wr m k)"
  by (auto simp: apply_intent_rollback_def Let_def dv_def lk_def wr_def fun_eq_iff
      get2_remove_default_version)

lemma publish_mutation_view:
  "dv (publish_mutation txn s c (key, mu) m) k =
     (if k = key
      then (case mu of PutMutation row \<Rightarrow> (dv m k)(s \<mapsto> row) | DeleteMutation \<Rightarrow> dv m k)
      else dv m k)"
  "lk (publish_mutation txn s c (key, mu) m) k =
     (if k = key
      then (case lk m k of
              None \<Rightarrow> None
            | Some l \<Rightarrow> if l_txn_id l = txn \<and> l_start_timestamp l = s then None else Some l)
      else lk m k)"
  "wr (publish_mutation txn s c (key, mu) m) k =
     (if k = key
      then (wr m k)(c \<mapsto> \<lparr>w_start_timestamp = s, w_commit_timestamp = c, w_op = write_kind mu\<rparr>)
      else wr m k)"
  by (auto simp: publish_mutation_def Let_def dv_def lk_def wr_def fun_eq_iff
      split: option.splits Mutation.splits)

lemmas mvcc_views =
  apply_prewrite_view apply_intent_commit_view apply_intent_rollback_view publish_mutation_view

section \<open>Batches over distinct keys\<close>

locale keyed_update =
  fixes key_of :: "'p \<Rightarrow> 'k"
    and step :: "'p \<Rightarrow> 'm \<Rightarrow> 'm"
    and eq_at :: "'k \<Rightarrow> 'm \<Rightarrow> 'm \<Rightarrow> bool"
  assumes eq_refl: "eq_at k m m"
    and eq_trans: "eq_at k m m' \<Longrightarrow> eq_at k m' m'' \<Longrightarrow> eq_at k m m''"
    and step_frame: "k \<noteq> key_of p \<Longrightarrow> eq_at k (step p m) m"
    and step_cong: "eq_at (key_of p) m m' \<Longrightarrow> eq_at (key_of p) (step p m) (step p m')"
begin

lemma fold_other: "k \<notin> key_of ` set ps \<Longrightarrow> eq_at k (fold step ps m) m"
proof (induction ps arbitrary: m)
  case Nil
  then show ?case by (simp add: eq_refl)
next
  case (Cons p ps)
  then have "eq_at k (fold step ps (step p m)) (step p m)" by simp
  moreover have "eq_at k (step p m) m" using Cons.prems by (intro step_frame) simp
  ultimately have "eq_at k (fold step ps (step p m)) m" by (rule eq_trans)
  then show ?case by simp
qed

lemma fold_own:
  "distinct (map key_of ps) \<Longrightarrow> p \<in> set ps \<Longrightarrow> eq_at (key_of p) (fold step ps m) (step p m)"
proof (induction ps arbitrary: m)
  case Nil
  then show ?case by simp
next
  case (Cons q ps)
  show ?case
  proof (cases "p = q")
    case True
    with Cons.prems show ?thesis using fold_other [of "key_of q" ps] by simp
  next
    case False
    with Cons.prems have p: "p \<in> set ps" by simp
    then have "key_of p \<in> key_of ` set ps" by (rule imageI)
    with Cons.prems have "key_of p \<noteq> key_of q" by auto
    then have "eq_at (key_of p) (step p (step q m)) (step p m)"
      by (intro step_cong step_frame)
    moreover have "eq_at (key_of p) (fold step ps (step q m)) (step p (step q m))"
      using Cons p by simp
    ultimately have "eq_at (key_of p) (fold step ps (step q m)) (step p m)"
      using eq_trans by blast
    then show ?thesis by simp
  qed
qed

lemma fold_lift:
  assumes "\<And>k m m'. eq_at k m m' \<Longrightarrow> P k m' \<Longrightarrow> P k m" and "distinct (map key_of ps)"
    and "\<And>k. P k m" and "\<And>p. p \<in> set ps \<Longrightarrow> P (key_of p) (step p m)"
  shows "P k (fold step ps m)"
proof (cases "k \<in> key_of ` set ps")
  case True
  then obtain p where "p \<in> set ps" "k = key_of p" by blast
  with assms fold_own show ?thesis by metis
next
  case False
  with assms fold_other show ?thesis by metis
qed

end

lemma same_atI:
  "dv m k = dv m' k \<Longrightarrow> lk m k = lk m' k \<Longrightarrow> wr m k = wr m' k \<Longrightarrow> same_at k m m'"
  by (simp add: same_at_def)

interpretation prewrites: keyed_update pp_key apply_prewrite same_at
  by unfold_locales (auto simp: same_at_def mvcc_views split: option.splits)

interpretation commits: keyed_update pc_key apply_intent_commit same_at
  by unfold_locales (auto simp: same_at_def mvcc_views)

interpretation rollbacks: keyed_update pr_key "apply_intent_rollback s" same_at for s
  by unfold_locales (auto simp: same_at_def mvcc_views)

interpretation publications: keyed_update fst "publish_mutation txn s c" same_at for txn s c
proof
  show "\<And>k p m. k \<noteq> fst p \<Longrightarrow> same_at k (publish_mutation txn s c p m) m"
    by (auto simp: same_at_def publish_mutation_view)
  show "\<And>p m m'. same_at (fst p) m m' \<Longrightarrow>
      same_at (fst p) (publish_mutation txn s c p m) (publish_mutation txn s c p m')"
    by (auto simp: same_at_def publish_mutation_view split: option.splits Mutation.splits)
qed (rule same_at_refl, erule (1) same_at_trans)

section \<open>Validation looks at one key only\<close>

lemma same_at_simps:
  assumes "same_at k m m'"
  shows "get2 (m_default m) k = get2 (m_default m') k" and "bt_get (m_locks m) k = bt_get (m_locks m') k"
    and "get2 (m_writes m) k = get2 (m_writes m') k" and "vs m k = vs m' k"
proof -
  from assms show "get2 (m_default m) k = get2 (m_default m') k"
    "bt_get (m_locks m) k = bt_get (m_locks m') k" "get2 (m_writes m) k = get2 (m_writes m') k"
    by (simp_all add: same_at_def dv_def lk_def wr_def)
  from assms show "vs m k = vs m' k" by (intro vs_cong) (simp add: same_at_def)
qed

lemma validate_mutation_same_at:
  assumes "same_at k m m'"
  shows "validate_mutation m k mu s = validate_mutation m' k mu s"
  unfolding validate_mutation_def same_at_simps [OF assms] ..

lemma validate_write_history_same_at:
  assumes "same_at k m m'"
  shows "validate_write_history m k s = validate_write_history m' k s"
  unfolding validate_write_history_alt wr_def same_at_simps [OF assms] ..

lemma validate_commit_timestamp_alt:
  "validate_commit_timestamp m k c =
     (case bt_last_key_value (vs m k) of
        None \<Rightarrow> Inr ()
      | Some (t, _) \<Rightarrow> ensure (\<not> t \<ge> c) WriteConflict)"
proof (cases "bt_get (m_writes m) k")
  case None
  then show ?thesis
    by (simp add: validate_commit_timestamp_def vs_def bt_last_key_value_def bt.iter_empty)
qed (simp add: validate_commit_timestamp_def vs_def)

lemma validate_commit_timestamp_same_at:
  assumes "same_at k m m'"
  shows "validate_commit_timestamp m k c = validate_commit_timestamp m' k c"
  unfolding validate_commit_timestamp_alt same_at_simps [OF assms] ..

lemma prepare_prewrite_same_at:
  assumes "same_at k m m'"
  shows "prepare_prewrite m txn s k mu pk ttl = prepare_prewrite m' txn s k mu pk ttl"
  unfolding prepare_prewrite_def validate_mutation_same_at [OF assms]
    validate_write_history_same_at [OF assms] same_at_simps [OF assms] ..

definition key_versions :: "InMemoryMvcc \<Rightarrow> bytes \<Rightarrow> (Timestamp \<times> WriteRecord) list" where
  "key_versions m k = bt_iter (vs m k)"

lemma case_versions_try_each:
  "(case bt_get (m_writes m) k of None \<Rightarrow> Inr () | Some versions \<Rightarrow> try_each f (bt_iter versions)) =
     try_each f (key_versions m k)"
  by (auto simp: key_versions_def vs_def bt.iter_empty split: option.splits)

lemma case_versions_witness:
  "(case bt_get (m_writes m) k of
      None \<Rightarrow> Inr None
    | Some versions \<Rightarrow> and_then (try_each f (bt_iter versions)) (\<lambda>_. Inr (bt_get versions s))) =
     and_then (try_each f (key_versions m k)) (\<lambda>_. Inr (wr m k s))"
  by (auto simp: key_versions_def vs_def wr_def get2_def bt.iter_empty split: option.splits)

lemma key_versions_same_at:
  assumes "same_at k m m'"
  shows "key_versions m k = key_versions m' k"
  unfolding key_versions_def same_at_simps [OF assms] ..

lemma set_key_versions: "(t, w) \<in> set (key_versions m k) \<longleftrightarrow> wr m k t = Some w"
  by (simp add: key_versions_def bt.iter_mem)

lemma prepare_intent_commit_same_at:
  assumes "same_at k m m'"
  shows "prepare_intent_commit m txn s c k = prepare_intent_commit m' txn s c k"
  unfolding prepare_intent_commit_def case_versions_try_each key_versions_same_at [OF assms]
    same_at_simps [OF assms] validate_write_history_same_at [OF assms]
    validate_commit_timestamp_same_at [OF assms] ..

lemma prepare_intent_rollback_same_at:
  assumes "same_at k m m'"
  shows "prepare_intent_rollback m txn s k = prepare_intent_rollback m' txn s k"
proof -
  from assms have w: "wr m k = wr m' k" by (simp add: same_at_def)
  show ?thesis
    unfolding prepare_intent_rollback_def case_versions_witness key_versions_same_at [OF assms]
      same_at_simps [OF assms] w ..
qed

lemma read_visible_version_same_at:
  "same_at k m m' \<Longrightarrow> read_visible_version m k r = read_visible_version m' k r"
proof -
  assume a: "same_at k m m'"
  have "visible_version m k ws = visible_version m' k ws" for ws
  proof (induction ws)
    case (Cons p ws)
    then show ?case by (cases p) (simp only: visible_version.simps same_at_simps [OF a])
  qed simp
  moreover from a have "lk m k = lk m' k" by (simp add: same_at_def)
  ultimately show ?thesis
    by (simp only: read_visible_version_alt same_at_simps [OF a])
qed

end
