(* ===== verification/Mvcc_Inv.thy ===== *)
theory Mvcc_Inv
  imports Mvcc_View
begin

text \<open>
  The invariant of the MVCC maps, per row key, and its preservation by every operation of
  the engine: records are well formed, every committed Put has a readable payload, a lock
  matches its payload and protects its row, no payload is orphaned, a transaction has one
  outcome per row, and no two committed transactions on a row overlap.
\<close>

section \<open>The invariant\<close>

definition row_ok :: "bytes \<Rightarrow> bool" where
  "row_ok row \<longleftrightarrow> is_ok (decode_row row)"

definition key_ok :: "bytes \<Rightarrow> bool" where
  "key_ok k \<longleftrightarrow> is_ok (decode_row_key k)"

definition mutation_ok :: "Mutation \<Rightarrow> bool" where
  "mutation_ok mu = (case mu of PutMutation row \<Rightarrow> row_ok row | DeleteMutation \<Rightarrow> True)"

definition lock_inv :: "InMemoryMvcc \<Rightarrow> bytes \<Rightarrow> LockRecord \<Rightarrow> bool" where
  "lock_inv m k l \<longleftrightarrow> lock_valid l \<and>
     (l_op l = Put \<longrightarrow> (\<exists>row. dv m k (l_start_timestamp l) = Some row \<and> row_ok row)) \<and>
     (l_op l = Delete \<longrightarrow> dv m k (l_start_timestamp l) = None) \<and>
     (\<forall>t w. wr m k t = Some w \<longrightarrow> w_start_timestamp w \<noteq> l_start_timestamp l \<and>
        (w_op w \<noteq> Rollback \<longrightarrow> t \<le> l_start_timestamp l))"

definition no_orphans :: "InMemoryMvcc \<Rightarrow> bytes \<Rightarrow> bool" where
  "no_orphans m k \<longleftrightarrow> (\<forall>s row. dv m k s = Some row \<longrightarrow>
     (\<exists>l. lk m k = Some l \<and> l_start_timestamp l = s \<and> l_op l = Put) \<or>
     (\<exists>t w. wr m k t = Some w \<and> w_start_timestamp w = s \<and> w_op w = Put))"

definition one_outcome :: "InMemoryMvcc \<Rightarrow> bytes \<Rightarrow> bool" where
  "one_outcome m k \<longleftrightarrow> (\<forall>t w t' w'. wr m k t = Some w \<longrightarrow> wr m k t' = Some w' \<longrightarrow>
     w_start_timestamp w = w_start_timestamp w' \<longrightarrow> t = t')"

definition first_committer :: "InMemoryMvcc \<Rightarrow> bytes \<Rightarrow> bool" where
  "first_committer m k \<longleftrightarrow> (\<forall>t w t' w'. wr m k t = Some w \<longrightarrow> wr m k t' = Some w' \<longrightarrow>
     w_op w \<noteq> Rollback \<longrightarrow> w_op w' \<noteq> Rollback \<longrightarrow> t < t' \<longrightarrow> t \<le> w_start_timestamp w')"

definition populated :: "InMemoryMvcc \<Rightarrow> bytes \<Rightarrow> bool" where
  "populated m k \<longleftrightarrow> lk m k \<noteq> None \<or> (\<exists>t. dv m k t \<noteq> None \<or> wr m k t \<noteq> None)"

definition key_inv :: "InMemoryMvcc \<Rightarrow> bytes \<Rightarrow> bool" where
  "key_inv m k \<longleftrightarrow> writes_ok m k \<and> readable_defaults m k \<and>
     (\<forall>l. lk m k = Some l \<longrightarrow> lock_inv m k l) \<and> no_orphans m k \<and> one_outcome m k \<and>
     first_committer m k \<and> (populated m k \<longrightarrow> key_ok k)"

definition mvcc_inv :: "InMemoryMvcc \<Rightarrow> bool" where
  "mvcc_inv m \<longleftrightarrow> (\<forall>k. key_inv m k)"

lemmas inv_defs = writes_ok_def readable_defaults_def lock_inv_def no_orphans_def one_outcome_def
  first_committer_def populated_def

lemma row_ok_iff: "row_ok row \<longleftrightarrow> (\<exists>r. decode_row row = Inr r)"
  by (simp add: row_ok_def is_ok_iff)

lemma key_inv_same_at: "same_at k m m' \<Longrightarrow> key_inv m k \<Longrightarrow> key_inv m' k"
  by (simp add: key_inv_def inv_defs same_at_def)

lemma key_inv_new: "key_inv InMemoryMvcc_new k"
  by (simp add: key_inv_def inv_defs)

lemma key_invD:
  assumes "key_inv m k"
  shows "writes_ok m k" and "readable_defaults m k" and "lk m k = Some l \<Longrightarrow> lock_inv m k l"
    and "no_orphans m k" and "one_outcome m k" and "first_committer m k"
    and "populated m k \<Longrightarrow> key_ok k"
  using assms by (simp_all add: key_inv_def)

section \<open>Locking, committing and rolling back one key\<close>

lemma unfenced_no_start:
  assumes "writes_ok m k" and "unfenced m k s" and "wr m k t = Some w"
  shows "w_start_timestamp w \<noteq> s"
proof
  assume s: "w_start_timestamp w = s"
  from assms(1,3) have ok: "write_ok t w" by (simp add: writes_ok_def)
  show False
  proof (cases "w_op w = Rollback")
    case True
    with ok s assms show False by (auto simp: write_ok_def unfenced_def)
  next
    case False
    with ok s have "s < t" by (simp add: write_ok_def)
    moreover from False assms have "t \<le> s" by (auto simp: unfenced_def)
    ultimately show False by simp
  qed
qed

lemma key_inv_lock:
  assumes inv: "key_inv m k" and free: "lk m k = None" and dv0: "dv m k s = None"
    and unf: "unfenced m k s" and ok: "key_ok k" "mutation_ok mu"
    and l: "lock_valid l" "l_start_timestamp l = s" "l_op l = write_kind mu"
    and m': "lk m' k = Some l" "wr m' k = wr m k"
      "dv m' k = (case mu of PutMutation row \<Rightarrow> (dv m k)(s \<mapsto> row) | DeleteMutation \<Rightarrow> dv m k)"
  shows "key_inv m' k"
proof -
  note i = key_invD [OF inv]
  have ns: "wr m k t = Some w \<Longrightarrow> w_start_timestamp w \<noteq> s" for t w
    using unfenced_no_start i(1) unf by blast
  have dvs: "dv m' k t = (if t = s then (case mu of PutMutation row \<Rightarrow> Some row | DeleteMutation \<Rightarrow> None)
      else dv m k t)" for t
    using m'(3) dv0 by (auto split: Mutation.splits)
  have "writes_ok m' k" "one_outcome m' k" "first_committer m' k"
    using i m'(2) by (simp_all add: inv_defs)
  moreover have "readable_defaults m' k"
    using i(2) ns by (simp add: readable_defaults_def dvs m'(2))
  moreover have "lock_inv m' k l"
    using l ok(2) ns unf
    by (auto simp: lock_inv_def dvs m'(2) mutation_ok_def unfenced_def split: Mutation.splits)
  moreover have "no_orphans m' k"
    unfolding no_orphans_def
  proof (intro allI impI)
    fix t row
    assume t: "dv m' k t = Some row"
    show "(\<exists>l. lk m' k = Some l \<and> l_start_timestamp l = t \<and> l_op l = Put) \<or>
      (\<exists>c w. wr m' k c = Some w \<and> w_start_timestamp w = t \<and> w_op w = Put)"
    proof (cases "t = s")
      case True
      with t l show ?thesis by (simp add: dvs m'(1) split: Mutation.splits)
    next
      case False
      with t i(4) free show ?thesis by (simp add: no_orphans_def dvs m'(2))
    qed
  qed
  ultimately show ?thesis
    using ok m'(1) by (simp add: key_inv_def)
qed

lemma key_inv_commit:
  assumes inv: "key_inv m k" and lock: "\<And>l. lk m k = Some l \<Longrightarrow> l_start_timestamp l = s"
    and unf: "unfenced m k s" and top: "\<And>t w. wr m k t = Some w \<Longrightarrow> t < c"
    and sc: "s \<noteq> 0" "s < c" and ok: "key_ok k" and op: "op \<noteq> Rollback"
    and m': "lk m' k = None"
      "wr m' k = (wr m k)(c \<mapsto> \<lparr>w_start_timestamp = s, w_commit_timestamp = c, w_op = op\<rparr>)"
      "\<And>t. t \<noteq> s \<Longrightarrow> dv m' k t = dv m k t"
      "op = Put \<Longrightarrow> \<exists>row. dv m' k s = Some row \<and> row_ok row" "op = Delete \<Longrightarrow> dv m' k s = None"
  shows "key_inv m' k"
proof -
  note i = key_invD [OF inv]
  have ns: "wr m k t = Some w \<Longrightarrow> w_start_timestamp w \<noteq> s" for t w
    using unfenced_no_start i(1) unf by blast
  have "writes_ok m' k"
    using i(1) sc op by (auto simp: writes_ok_def m'(2) write_ok_def)
  moreover have "readable_defaults m' k"
    using i(2) ns m'(3,4) by (auto simp: readable_defaults_def m'(2) row_ok_iff)
  moreover have "no_orphans m' k"
    unfolding no_orphans_def
  proof (intro allI impI)
    fix t row
    assume t: "dv m' k t = Some row"
    have "\<exists>c' w. wr m' k c' = Some w \<and> w_start_timestamp w = t \<and> w_op w = Put"
    proof (cases "t = s")
      case True
      then show ?thesis using t m'(2,5) op by (cases op) auto
    next
      case False
      with t m'(3) have "dv m k t = Some row" by simp
      with False lock i(4) obtain c' w where
        "wr m k c' = Some w" "w_start_timestamp w = t" "w_op w = Put"
        unfolding no_orphans_def by blast
      with top have "wr m' k c' = Some w" by (auto simp: m'(2))
      with \<open>w_start_timestamp w = t\<close> \<open>w_op w = Put\<close> show ?thesis by blast
    qed
    then show "(\<exists>l. lk m' k = Some l \<and> l_start_timestamp l = t \<and> l_op l = Put) \<or>
      (\<exists>c' w. wr m' k c' = Some w \<and> w_start_timestamp w = t \<and> w_op w = Put)" ..
  qed
  moreover have "one_outcome m' k"
    using i(5) ns by (auto simp: one_outcome_def m'(2)) blast+
  moreover have "first_committer m' k"
    unfolding first_committer_def
  proof (intro allI impI)
    fix t w t' w'
    assume a: "wr m' k t = Some w" "wr m' k t' = Some w'" "w_op w \<noteq> Rollback" "w_op w' \<noteq> Rollback"
      "t < t'"
    have t: "wr m k t = Some w"
      using a top [of t' w'] by (auto simp: m'(2) split: if_splits)
    show "t \<le> w_start_timestamp w'"
    proof (cases "t' = c")
      case True
      with a t unf show ?thesis by (auto simp: m'(2) unfenced_def)
    next
      case False
      with a have "wr m k t' = Some w'" by (simp add: m'(2))
      with a t i(6) show ?thesis unfolding first_committer_def by blast
    qed
  qed
  ultimately show ?thesis
    using ok m'(1) by (simp add: key_inv_def)
qed

lemma key_inv_rollback:
  assumes inv: "key_inv m k" and lock: "\<And>l. lk m k = Some l \<Longrightarrow> l_start_timestamp l = s"
    and s: "s \<noteq> 0" "wr m k s = None"
    and nc: "\<And>t w. wr m k t = Some w \<Longrightarrow> w_start_timestamp w = s \<Longrightarrow> w_op w = Rollback"
    and ok: "key_ok k"
    and m': "lk m' k = None" "dv m' k = (dv m k)(s := None)"
      "wr m' k = (wr m k)(s \<mapsto> \<lparr>w_start_timestamp = s, w_commit_timestamp = s, w_op = Rollback\<rparr>)"
  shows "key_inv m' k"
proof -
  note i = key_invD [OF inv]
  have ns: "w_start_timestamp w \<noteq> s" if "wr m k t = Some w" for t w
    using i(1) nc [OF that] that s(2) by (auto simp: writes_ok_def write_ok_def)
  have "writes_ok m' k"
    using i(1) s by (auto simp: writes_ok_def m'(3) write_ok_def)
  moreover have "readable_defaults m' k"
    using i(2) ns by (auto simp: readable_defaults_def m')
  moreover have "no_orphans m' k"
    unfolding no_orphans_def
  proof (intro allI impI disjI2)
    fix t row
    assume "dv m' k t = Some row"
    then have "t \<noteq> s" and "dv m k t = Some row" by (auto simp: m'(2) split: if_splits)
    with lock i(4) obtain c' w where
      "wr m k c' = Some w" "w_start_timestamp w = t" "w_op w = Put"
      unfolding no_orphans_def by blast
    with s(2) show "\<exists>c' w. wr m' k c' = Some w \<and> w_start_timestamp w = t \<and> w_op w = Put"
      by (auto simp: m'(3) intro!: exI [of _ c'])
  qed
  moreover have "one_outcome m' k"
    using i(5) ns by (auto simp: one_outcome_def m'(3))
  moreover have "first_committer m' k"
    using i(6) by (auto simp: first_committer_def m'(3))
  ultimately show ?thesis
    using ok m'(1) by (simp add: key_inv_def)
qed

section \<open>What successful validation establishes\<close>

definition intent_lock :: "TxnId \<Rightarrow> Timestamp \<Rightarrow> Mutation \<Rightarrow> bytes \<Rightarrow> u64 \<Rightarrow> LockRecord" where
  "intent_lock txn s mu pk ttl =
     \<lparr>l_txn_id = txn, l_primary_key = pk, l_start_timestamp = s, l_ttl_ms = ttl, l_op = write_kind mu\<rparr>"

definition mutation_row :: "Mutation \<Rightarrow> bytes option" where
  "mutation_row mu = (case mu of PutMutation row \<Rightarrow> Some row | DeleteMutation \<Rightarrow> None)"

lemma validate_key_iff: "validate_encoded_key_argument k = Inr u \<longleftrightarrow> key_ok k"
  by (simp add: validate_key_Inr key_ok_def is_ok_iff)

lemma write_kind_not_Rollback [simp]: "write_kind mu \<noteq> Rollback"
  by (cases mu) auto

lemma validate_mutation_Inr:
  "validate_mutation m k mu s = Inr u \<longleftrightarrow> key_ok k \<and> mutation_ok mu \<and>
     (dv m k s = None \<or> dv m k s = mutation_row mu)"
  by (cases mu; cases "dv m k s")
    (auto simp: validate_mutation_def and_then_eq_Inr validate_key_iff map_err_eq_Inr
      ensure_eq_Inr mutation_ok_def mutation_row_def row_ok_iff dv_def)

lemma prepare_prewrite_Inr:
  "prepare_prewrite m txn s k mu pk ttl = Inr d \<longleftrightarrow>
     validate_mutation m k mu s = Inr () \<and> validate_write_history m k s = Inr () \<and>
     (case lk m k of
        None \<Rightarrow> dv m k s = None \<and>
          d = Some \<lparr>pp_key = k, pp_default_value = mutation_row mu, pp_lock = intent_lock txn s mu pk ttl\<rparr>
      | Some l \<Rightarrow> l = intent_lock txn s mu pk ttl \<and> dv m k s = mutation_row mu \<and> d = None)"
proof -
  have "validate_mutation m k mu s = Inr () \<Longrightarrow> mutation_row mu = None \<Longrightarrow> dv m k s = None"
    by (auto simp: validate_mutation_Inr)
  then show ?thesis
    by (cases mu; cases "lk m k"; cases "dv m k s")
      (auto simp: prepare_prewrite_def and_then_eq_Inr ensure_eq_Inr ok_or_eq_Inr Let_def
        intent_lock_def mutation_row_def lk_def dv_def split: if_splits)
qed

definition payload_ok :: "InMemoryMvcc \<Rightarrow> bytes \<Rightarrow> Timestamp \<Rightarrow> WriteKind \<Rightarrow> bool" where
  "payload_ok m k s op =
     (case op of
        Put \<Rightarrow> (\<exists>row. dv m k s = Some row \<and> row_ok row)
      | Delete \<Rightarrow> dv m k s = None
      | Rollback \<Rightarrow> False)"

definition commit_write :: "Timestamp \<Rightarrow> Timestamp \<Rightarrow> WriteKind \<Rightarrow> WriteRecord" where
  "commit_write s c op = \<lparr>w_start_timestamp = s, w_commit_timestamp = c, w_op = op\<rparr>"

lemma payload_check_Inr:
  "(case op of
      Put \<Rightarrow> and_then (ok_or (get2 (m_default m) k s) CorruptData) (\<lambda>row.
             and_then (decode_row row) (\<lambda>_. Inr ()))
    | Delete \<Rightarrow> ensure (get2 (m_default m) k s = None) CorruptData
    | Rollback \<Rightarrow> Inl CorruptData) = Inr u \<longleftrightarrow> payload_ok m k s op"
  by (cases op) (auto simp: payload_ok_def result_simps row_ok_iff dv_def)

lemma payload_check_if_Inr:
  "(if op = Put
    then and_then (ok_or (get2 (m_default m) k s) CorruptData) (\<lambda>row.
         and_then (decode_row row) (\<lambda>_. Inr ()))
    else ensure (get2 (m_default m) k s = None) CorruptData) = Inr u \<longleftrightarrow>
    (if op = Rollback then dv m k s = None else payload_ok m k s op)"
  by (cases op) (auto simp: payload_ok_def result_simps row_ok_iff dv_def)

lemma prepare_intent_commit_Some:
  assumes "prepare_intent_commit m txn s c k = Inr (Some p)"
  obtains l where "key_ok k" "lk m k = Some l" "l_txn_id l = txn" "l_start_timestamp l = s"
    "payload_ok m k s (l_op l)" "validate_write_history m k s = Inr ()"
    "validate_commit_timestamp m k c = Inr ()" "wr m k c = None"
    "p = \<lparr>pc_key = k, pc_write = commit_write s c (l_op l)\<rparr>"
proof (cases "get2 (m_writes m) k c")
  case None
  with assms that show ?thesis
    by (auto simp: prepare_intent_commit_def and_then_eq_Inr ensure_eq_Inr ok_or_eq_Inr
        validate_key_iff payload_check_Inr lk_def wr_def commit_write_def)
next
  case (Some w)
  with assms show ?thesis
    by (auto simp: prepare_intent_commit_def and_then_eq_Inr)
qed

lemma try_each_versions:
  "try_each (\<lambda>(t, w). f t w) (key_versions m k) = Inr u \<longleftrightarrow>
     (\<forall>t w. wr m k t = Some w \<longrightarrow> f t w = Inr ())"
  by (simp add: try_each_eq_Inr Ball_def split_paired_All set_key_versions)

lemma prepare_intent_commit_None:
  "prepare_intent_commit m txn s c k = Inr None \<longleftrightarrow> key_ok k \<and>
     (\<exists>w. wr m k c = Some w \<and> w_start_timestamp w = s \<and> writes_ok m k \<and> payload_ok m k s (w_op w)) \<and>
     (\<forall>t w. wr m k t = Some w \<longrightarrow> w_start_timestamp w = s \<longrightarrow> t = c) \<and>
     (\<forall>l. lk m k = Some l \<longrightarrow> l_start_timestamp l \<noteq> s)"
proof (cases "get2 (m_writes m) k c")
  case None
  then show ?thesis
    by (auto simp: prepare_intent_commit_def and_then_eq_Inr wr_def)
next
  case (Some w)
  have key: "validate_encoded_key_argument k = Inr x \<longleftrightarrow> key_ok k" for x by (rule validate_key_iff)
  have lock: "(case bt_get (m_locks m) k of
      None \<Rightarrow> Inr ()
    | Some lock \<Rightarrow> ensure (l_start_timestamp lock \<noteq> s) CorruptData) = Inr u \<longleftrightarrow>
      (\<forall>l. lk m k = Some l \<longrightarrow> l_start_timestamp l \<noteq> s)" for u
    by (auto simp: lk_def ensure_eq_Inr split: option.splits)
  have "try_each (\<lambda>(other_write_ts, other).
        and_then (validate_write_record other_write_ts other) (\<lambda>_.
          ensure (\<not> (other_write_ts \<noteq> c \<and> w_start_timestamp other = s)) CorruptData))
        (key_versions m k) = Inr u \<longleftrightarrow>
      writes_ok m k \<and> (\<forall>t w. wr m k t = Some w \<longrightarrow> w_start_timestamp w = s \<longrightarrow> t = c)" for u
    unfolding try_each_versions
    by (auto simp: and_then_eq_Inr ensure_eq_Inr validate_write_record_Inr writes_ok_def)
  with Some show ?thesis
    by (auto simp: prepare_intent_commit_def case_versions_try_each and_then_eq_Inr
        ensure_eq_Inr key lock payload_check_if_Inr validate_write_record_Inr wr_def writes_ok_def
        payload_ok_def)
qed

definition rollback_write :: "Timestamp \<Rightarrow> WriteRecord" where
  "rollback_write s = \<lparr>w_start_timestamp = s, w_commit_timestamp = s, w_op = Rollback\<rparr>"

definition lock_kind :: "InMemoryMvcc \<Rightarrow> bytes \<Rightarrow> WriteKind option" where
  "lock_kind m k = map_option l_op (lk m k)"

lemma rollback_history_Inr:
  "try_each (\<lambda>(stored_write_ts, w).
      and_then (validate_write_record stored_write_ts w) (\<lambda>_.
        ensure (\<not> (w_start_timestamp w = s \<and> w_op w \<noteq> Rollback)) WriteConflict))
    (key_versions m k) = Inr u \<longleftrightarrow>
    writes_ok m k \<and> (\<forall>t w. wr m k t = Some w \<longrightarrow> w_start_timestamp w = s \<longrightarrow> w_op w = Rollback)"
  unfolding try_each_versions
  by (auto simp: and_then_eq_Inr ensure_eq_Inr validate_write_record_Inr writes_ok_def)

lemma rollback_payload_Inr:
  "(case locked_op of
      Some Put \<Rightarrow>
        and_then (ok_or (get2 (m_default m) k s) CorruptData) (\<lambda>row.
        and_then (decode_row row) (\<lambda>_. Inr ()))
    | Some Rollback \<Rightarrow> Inl CorruptData
    | _ \<Rightarrow> ensure (get2 (m_default m) k s = None) CorruptData) = Inr u \<longleftrightarrow>
    payload_ok m k s (case locked_op of None \<Rightarrow> Delete | Some op \<Rightarrow> op)"
  by (cases locked_op rule: option.exhaust_sel; cases "the locked_op")
    (auto simp: payload_ok_def result_simps row_ok_iff dv_def split: option.splits WriteKind.splits)

lemma prepare_intent_rollback_Inr:
  "prepare_intent_rollback m txn s k = Inr d \<longleftrightarrow> key_ok k \<and> writes_ok m k \<and>
     (\<forall>t w. wr m k t = Some w \<longrightarrow> w_start_timestamp w = s \<longrightarrow> w_op w = Rollback) \<and>
     (case wr m k s of
        Some w \<Rightarrow> w_start_timestamp w = s \<and> w_op w = Rollback \<and>
          (\<forall>l. lk m k = Some l \<longrightarrow> l_start_timestamp l \<noteq> s) \<and> dv m k s = None \<and> d = None
      | None \<Rightarrow> (\<forall>l. lk m k = Some l \<longrightarrow> l_txn_id l = txn \<and> l_start_timestamp l = s) \<and>
          payload_ok m k s (case lock_kind m k of None \<Rightarrow> Delete | Some op \<Rightarrow> op) \<and>
          d = Some \<lparr>pr_key = k, pr_remove_default_value = (lock_kind m k = Some Put)\<rparr>)"
proof -
  have lock: "(case bt_get (m_locks m) k of None \<Rightarrow> False | Some lock \<Rightarrow> l_start_timestamp lock = s) \<longleftrightarrow>
      (\<exists>l. lk m k = Some l \<and> l_start_timestamp l = s)"
    by (auto simp: lk_def split: option.splits)
  have op: "(case bt_get (m_locks m) k of
        None \<Rightarrow> Inr None
      | Some lock \<Rightarrow>
          if l_txn_id lock \<noteq> txn \<or> l_start_timestamp lock \<noteq> s then Inl WriteConflict
          else Inr (Some (l_op lock))) = Inr x \<longleftrightarrow>
      (\<forall>l. lk m k = Some l \<longrightarrow> l_txn_id l = txn \<and> l_start_timestamp l = s) \<and> x = lock_kind m k" for x
    by (auto simp: lk_def lock_kind_def split: option.splits)
  show ?thesis
    unfolding prepare_intent_rollback_def case_versions_witness and_then_eq_Inr validate_key_iff
      rollback_history_Inr
    by (cases "wr m k s")
      (auto simp: and_then_eq_Inr ensure_eq_Inr lock op rollback_payload_Inr dv_def)
qed

section \<open>Every operation preserves the invariant\<close>

lemma key_ok_nonempty: "key_ok k \<Longrightarrow> k \<noteq> []"
  by (auto simp: key_ok_def decode_row_key_def)

lemma key_inv_apply_prewrite:
  assumes "key_inv m k" and "prepare_prewrite m txn s k mu pk ttl = Inr (Some p)"
    and "txn \<noteq> 0" and "s \<noteq> 0" and "key_ok pk" and "ttl \<noteq> 0"
  shows "key_inv (apply_prewrite p m) k"
proof -
  from assms(2) have p: "lk m k = None" "dv m k s = None" "validate_mutation m k mu s = Inr ()"
    "validate_write_history m k s = Inr ()"
    "p = \<lparr>pp_key = k, pp_default_value = mutation_row mu, pp_lock = intent_lock txn s mu pk ttl\<rparr>"
    by (auto simp: prepare_prewrite_Inr split: option.splits)
  show ?thesis
  proof (rule key_inv_lock [OF assms(1) p(1,2)])
    show "unfenced m k s"
      using p(4) key_invD(1) [OF assms(1)] by (rule validate_write_history_unfenced)
    show "key_ok k" "mutation_ok mu" using p(3) by (auto simp: validate_mutation_Inr)
    show "lock_valid (intent_lock txn s mu pk ttl)"
      using assms by (auto simp: lock_valid_def intent_lock_def key_ok_nonempty)
  qed (auto simp: p(5) mvcc_views intent_lock_def mutation_row_def split: Mutation.splits)
qed

lemma key_inv_apply_intent_commit:
  assumes "key_inv m k" and "prepare_intent_commit m txn s c k = Inr (Some p)"
    and "s \<noteq> 0" and "s < c"
  shows "key_inv (apply_intent_commit p m) k"
proof -
  from assms(2) obtain l where l: "key_ok k" "lk m k = Some l" "l_start_timestamp l = s"
    "payload_ok m k s (l_op l)" "validate_write_history m k s = Inr ()"
    "validate_commit_timestamp m k c = Inr ()"
    "p = \<lparr>pc_key = k, pc_write = commit_write s c (l_op l)\<rparr>"
    by (rule prepare_intent_commit_Some)
  show ?thesis
  proof (rule key_inv_commit [OF assms(1), where s = s and c = c and op = "l_op l"])
    show "unfenced m k s"
      using l(5) key_invD(1) [OF assms(1)] by (rule validate_write_history_unfenced)
    show "\<And>t w. wr m k t = Some w \<Longrightarrow> t < c" using l(6) by (simp add: validate_commit_timestamp_Inr)
    show "l_op l \<noteq> Rollback" using l(4) by (auto simp: payload_ok_def)
    show "l_op l = Put \<Longrightarrow> \<exists>row. dv (apply_intent_commit p m) k s = Some row \<and> row_ok row"
      "l_op l = Delete \<Longrightarrow> dv (apply_intent_commit p m) k s = None"
      using l(4) by (auto simp: payload_ok_def apply_intent_commit_view)
  qed (use l assms in \<open>auto simp: apply_intent_commit_view commit_write_def\<close>)
qed

lemma key_inv_apply_intent_rollback:
  assumes "key_inv m k" and "prepare_intent_rollback m txn s k = Inr (Some p)" and "s \<noteq> 0"
  shows "key_inv (apply_intent_rollback s p m) k"
proof -
  from assms(2) have p: "key_ok k"
    "\<forall>t w. wr m k t = Some w \<longrightarrow> w_start_timestamp w = s \<longrightarrow> w_op w = Rollback" "wr m k s = None"
    "\<forall>l. lk m k = Some l \<longrightarrow> l_txn_id l = txn \<and> l_start_timestamp l = s"
    "payload_ok m k s (case lock_kind m k of None \<Rightarrow> Delete | Some op \<Rightarrow> op)"
    "p = \<lparr>pr_key = k, pr_remove_default_value = (lock_kind m k = Some Put)\<rparr>"
    by (auto simp: prepare_intent_rollback_Inr split: option.splits)
  show ?thesis
  proof (rule key_inv_rollback [OF assms(1), where s = s])
    show "dv (apply_intent_rollback s p m) k = (dv m k)(s := None)"
      using p(5)
      by (auto simp: p(6) apply_intent_rollback_view payload_ok_def fun_eq_iff
          split: option.splits WriteKind.splits)
  qed (use p assms in \<open>auto simp: apply_intent_rollback_view\<close>)
qed

lemma prepare_prewrite_key:
  "prepare_prewrite m txn s k mu pk ttl = Inr (Some p) \<Longrightarrow> pp_key p = k"
  by (auto simp: prepare_prewrite_Inr split: option.splits)

lemma prepare_intent_commit_key: "prepare_intent_commit m txn s c k = Inr (Some p) \<Longrightarrow> pc_key p = k"
  by (erule prepare_intent_commit_Some) simp

lemma prepare_intent_rollback_key: "prepare_intent_rollback m txn s k = Inr (Some p) \<Longrightarrow> pr_key p = k"
  by (auto simp: prepare_intent_rollback_Inr split: option.splits)

lemma iter_keys_distinct: "distinct (map fst (bt_iter m))"
  by (rule bt.iter_distinct)

lemma prewrite_batch_cases:
  assumes "prewrite_batch m txn s mus pk ttl = (r, m')"
  obtains (error) e where "r = Inl e" "m' = m"
  | (ok) ps where "r = Inr ()" "m' = fold apply_prewrite ps m"
      "txn \<noteq> 0" "s \<noteq> 0" "key_ok pk" "ttl \<noteq> 0" "\<not> bt_is_empty mus"
      "try_filter_map (\<lambda>(k, mu). prepare_prewrite m txn s k mu pk ttl) (bt_iter mus) = Inr ps"
      "distinct (map pp_key ps)"
  using assms
proof (cases r)
  case (Inl e)
  with assms error show ?thesis by (auto simp: prewrite_batch_def split: sum.splits)
next
  case (Inr u)
  with assms obtain ps where ps: "m' = fold apply_prewrite ps m"
      "txn \<noteq> 0" "s \<noteq> 0" "key_ok pk" "ttl \<noteq> 0" "\<not> bt_is_empty mus"
      "try_filter_map (\<lambda>(k, mu). prepare_prewrite m txn s k mu pk ttl) (bt_iter mus) = Inr ps"
    by (auto simp: prewrite_batch_def and_then_eq_Inr ensure_eq_Inr validate_key_iff
        validate_preflight_Inr split: sum.splits)
  moreover have "distinct (map pp_key ps)"
    using ps(7) by (rule try_filter_map_distinct [where g = fst])
      (auto simp: iter_keys_distinct prepare_prewrite_key)
  ultimately show ?thesis using Inr ok by simp
qed

lemma commit_intents_batch_cases:
  assumes "commit_intents_batch m txn s c keys = (r, m')"
  obtains (error) e where "r = Inl e" "m' = m"
  | (ok) ps where "r = Inr ()" "m' = fold apply_intent_commit ps m"
      "txn \<noteq> 0" "s \<noteq> 0" "s < c" "\<not> bt_is_empty keys"
      "try_filter_map (prepare_intent_commit m txn s c) (bt_keys keys) = Inr ps"
      "distinct (map pc_key ps)"
  using assms
proof (cases r)
  case (Inl e)
  with assms error show ?thesis by (auto simp: commit_intents_batch_def split: sum.splits)
next
  case (Inr u)
  with assms obtain ps where ps: "m' = fold apply_intent_commit ps m"
      "txn \<noteq> 0" "s \<noteq> 0" "s < c" "\<not> bt_is_empty keys"
      "try_filter_map (prepare_intent_commit m txn s c) (bt_keys keys) = Inr ps"
    by (auto simp: commit_intents_batch_def and_then_eq_Inr ensure_eq_Inr validate_metadata_Inr
        split: sum.splits)
  moreover have "distinct (map pc_key ps)"
    using ps(6) by (rule try_filter_map_distinct [where g = id])
      (auto simp: bt_keys_distinct prepare_intent_commit_key)
  ultimately show ?thesis using Inr ok by simp
qed

lemma rollback_intents_batch_cases:
  assumes "rollback_intents_batch m txn s keys = (r, m')"
  obtains (error) e where "r = Inl e" "m' = m"
  | (ok) ps where "r = Inr ()" "m' = fold (apply_intent_rollback s) ps m"
      "txn \<noteq> 0" "s \<noteq> 0" "\<not> bt_is_empty keys"
      "try_filter_map (prepare_intent_rollback m txn s) (bt_keys keys) = Inr ps"
      "distinct (map pr_key ps)"
  using assms
proof (cases r)
  case (Inl e)
  with assms error show ?thesis by (auto simp: rollback_intents_batch_def split: sum.splits)
next
  case (Inr u)
  with assms obtain ps where ps: "m' = fold (apply_intent_rollback s) ps m"
      "txn \<noteq> 0" "s \<noteq> 0" "\<not> bt_is_empty keys"
      "try_filter_map (prepare_intent_rollback m txn s) (bt_keys keys) = Inr ps"
    by (auto simp: rollback_intents_batch_def and_then_eq_Inr ensure_eq_Inr validate_preflight_Inr
        split: sum.splits)
  moreover have "distinct (map pr_key ps)"
    using ps(5) by (rule try_filter_map_distinct [where g = id])
      (auto simp: bt_keys_distinct prepare_intent_rollback_key)
  ultimately show ?thesis using Inr ok by simp
qed

text \<open>The single-key operations are the batches of one key.\<close>

lemma prewrite_as_batch:
  "prewrite m txn s k mu pk ttl = prewrite_batch m txn s (bt_insert k mu bt_new) pk ttl"
  by (auto simp: prewrite_def prewrite_batch_def bt_iter_single bt_single_nonempty and_then_def
      split: sum.splits option.splits)

lemma commit_intent_as_batch:
  "commit_intent m txn s c k = commit_intents_batch m txn s c (bt_insert k () bt_new)"
  by (auto simp: commit_intent_def commit_intents_batch_def bt_keys_single bt_single_nonempty
      and_then_def split: sum.splits option.splits)

lemma rollback_intent_as_batch:
  "rollback_intent m txn s k = rollback_intents_batch m txn s (bt_insert k () bt_new)"
  by (auto simp: rollback_intent_def rollback_intents_batch_def bt_keys_single bt_single_nonempty
      and_then_def split: sum.splits option.splits)

lemma prewrite_batch_inv:
  assumes "mvcc_inv m" and "prewrite_batch m txn s mus pk ttl = (r, m')"
  shows "mvcc_inv m'"
  using assms(2)
proof (cases rule: prewrite_batch_cases)
  case error
  with assms show ?thesis by simp
next
  case (ok ps)
  have "key_inv (apply_prewrite p m) (pp_key p)" if "p \<in> set ps" for p
  proof -
    from try_filter_map_mem [OF ok(8)] that obtain k mu where
      "prepare_prewrite m txn s k mu pk ttl = Inr (Some p)" by auto
    then show ?thesis
      using key_inv_apply_prewrite prepare_prewrite_key assms(1) ok unfolding mvcc_inv_def by metis
  qed
  then have "key_inv m' k" for k
    unfolding ok(2) using assms(1) ok(9)
    by (intro prewrites.fold_lift [where P = "\<lambda>k m. key_inv m k"])
      (auto simp: mvcc_inv_def intro: key_inv_same_at same_at_sym)
  then show ?thesis by (simp add: mvcc_inv_def)
qed

lemma commit_intents_batch_inv:
  assumes "mvcc_inv m" and "commit_intents_batch m txn s c keys = (r, m')"
  shows "mvcc_inv m'"
  using assms(2)
proof (cases rule: commit_intents_batch_cases)
  case error
  with assms show ?thesis by simp
next
  case (ok ps)
  have "key_inv (apply_intent_commit p m) (pc_key p)" if "p \<in> set ps" for p
  proof -
    from try_filter_map_mem [OF ok(7)] that obtain k where
      "prepare_intent_commit m txn s c k = Inr (Some p)" by auto
    then show ?thesis
      using key_inv_apply_intent_commit prepare_intent_commit_key assms(1) ok
      unfolding mvcc_inv_def by metis
  qed
  then have "key_inv m' k" for k
    unfolding ok(2) using assms(1) ok(8)
    by (intro commits.fold_lift [where P = "\<lambda>k m. key_inv m k"])
      (auto simp: mvcc_inv_def intro: key_inv_same_at same_at_sym)
  then show ?thesis by (simp add: mvcc_inv_def)
qed

lemma rollback_intents_batch_inv:
  assumes "mvcc_inv m" and "rollback_intents_batch m txn s keys = (r, m')"
  shows "mvcc_inv m'"
  using assms(2)
proof (cases rule: rollback_intents_batch_cases)
  case error
  with assms show ?thesis by simp
next
  case (ok ps)
  have "key_inv (apply_intent_rollback s p m) (pr_key p)" if "p \<in> set ps" for p
  proof -
    from try_filter_map_mem [OF ok(6)] that obtain k where
      "prepare_intent_rollback m txn s k = Inr (Some p)" by auto
    then show ?thesis
      using key_inv_apply_intent_rollback prepare_intent_rollback_key assms(1) ok
      unfolding mvcc_inv_def by metis
  qed
  then have "key_inv m' k" for k
    unfolding ok(2) using assms(1) ok(7)
    by (intro rollbacks.fold_lift [where P = "\<lambda>k m. key_inv m k"])
      (auto simp: mvcc_inv_def intro: key_inv_same_at same_at_sym)
  then show ?thesis by (simp add: mvcc_inv_def)
qed

lemma validate_lock_Inr:
  "validate_lock m k mu txn s = Inr u \<longleftrightarrow>
     (\<forall>l. lk m k = Some l \<longrightarrow> l_txn_id l = txn \<and> l_start_timestamp l = s \<and> l_op l = write_kind mu)"
  by (auto simp: validate_lock_def lk_def ensure_eq_Inr split: option.splits if_splits)

definition publishable ::
  "InMemoryMvcc \<Rightarrow> TxnId \<Rightarrow> Timestamp \<Rightarrow> Timestamp \<Rightarrow> bytes \<Rightarrow> Mutation \<Rightarrow> bool" where
  "publishable m txn s c k mu \<longleftrightarrow> validate_mutation m k mu s = Inr () \<and>
     validate_lock m k mu txn s = Inr () \<and> validate_write_history m k s = Inr () \<and>
     validate_commit_timestamp m k c = Inr ()"

lemma commit_batch_cases:
  assumes "commit_batch m txn s c mus = (r, m')"
  obtains (error) e where "r = Inl e" "m' = m"
  | (empty) "r = Inr 0" "m' = m" "bt_is_empty mus"
  | (replay) "r = Inr (bt_len mus)" "m' = m" "validate_batch_replay m mus s c = Inr True"
  | (ok) "r = Inr (bt_len mus)" "m' = fold (publish_mutation txn s c) (bt_iter mus) m"
      "txn \<noteq> 0" "s \<noteq> 0" "s < c" "\<not> bt_is_empty mus" "validate_batch_replay m mus s c = Inr False"
      "\<And>k mu. bt_get mus k = Some mu \<Longrightarrow> publishable m txn s c k mu"
proof (cases "and_then (validate_commit_metadata txn s c) (\<lambda>_.
    try_each (\<lambda>(key, mutation). validate_mutation m key mutation s) (bt_iter mus))")
  case (Inl e)
  with assms error [of e] show ?thesis by (auto simp: commit_batch_def)
next
  case (Inr u)
  show ?thesis
  proof (cases "bt_is_empty mus")
    case True
    with Inr assms empty show ?thesis by (simp add: commit_batch_def)
  next
    case False
    consider (e) e where "validate_batch_replay m mus s c = Inl e"
      | (t) "validate_batch_replay m mus s c = Inr True"
      | (f) "validate_batch_replay m mus s c = Inr False"
      by (cases "validate_batch_replay m mus s c") auto
    then show ?thesis
    proof cases
      case f
      show ?thesis
      proof (cases "and_then (validate_commit_batch m txn s mus) (\<lambda>_.
          try_each (\<lambda>key. validate_commit_timestamp m key c) (bt_keys mus))")
        case (Inl e)
        with Inr f False assms error [of e] show ?thesis by (auto simp: commit_batch_def)
      next
        case (Inr v)
        have "publishable m txn s c k mu" if "bt_get mus k = Some mu" for k mu
          using Inr that
          by (auto simp: publishable_def and_then_eq_Inr validate_commit_batch_def
              try_each_eq_Inr Ball_def split_paired_All bt.iter_mem dom_def)
        with Inr f False assms ok \<open>_ = Inr u\<close> show ?thesis
          by (simp add: commit_batch_def and_then_eq_Inr validate_metadata_Inr)
      qed
    qed (use Inr False assms error replay in \<open>auto simp: commit_batch_def\<close>)
  qed
qed

lemma key_inv_publish_mutation:
  assumes "key_inv m k" and "publishable m txn s c k mu" and "s \<noteq> 0" and "s < c"
  shows "key_inv (publish_mutation txn s c (k, mu) m) k"
proof (rule key_inv_commit [OF assms(1), where s = s and c = c and op = "write_kind mu"])
  note p = assms(2) [unfolded publishable_def validate_mutation_Inr validate_lock_Inr]
  show "unfenced m k s"
    using p key_invD(1) [OF assms(1)] validate_write_history_unfenced by blast
  show "\<And>t w. wr m k t = Some w \<Longrightarrow> t < c" using p by (auto simp: validate_commit_timestamp_Inr)
  show "write_kind mu = Put \<Longrightarrow> \<exists>row. dv (publish_mutation txn s c (k, mu) m) k s = Some row \<and> row_ok row"
    using p by (cases mu) (auto simp: publish_mutation_view mutation_ok_def)
  show "write_kind mu = Delete \<Longrightarrow> dv (publish_mutation txn s c (k, mu) m) k s = None"
    using p by (cases mu) (auto simp: publish_mutation_view mutation_row_def)
  show "lk (publish_mutation txn s c (k, mu) m) k = None"
    using p by (cases "lk m k") (auto simp: publish_mutation_view)
qed (use assms in \<open>auto simp: publish_mutation_view publishable_def validate_lock_Inr
      validate_mutation_Inr split: Mutation.splits\<close>)

lemma commit_batch_inv:
  assumes "mvcc_inv m" and "commit_batch m txn s c mus = (r, m')"
  shows "mvcc_inv m'"
  using assms(2)
proof (cases rule: commit_batch_cases)
  case ok
  have "key_inv (publish_mutation txn s c p m) (fst p)" if "p \<in> set (bt_iter mus)" for p
  proof -
    obtain k mu where p: "p = (k, mu)" by (cases p)
    with that have "publishable m txn s c k mu" by (intro ok(8)) (simp add: bt.iter_mem)
    with p ok(4,5) assms(1) show ?thesis
      by (simp add: key_inv_publish_mutation mvcc_inv_def)
  qed
  then have "key_inv m' k" for k
    unfolding ok(2) using assms(1)
    by (intro publications.fold_lift [where P = "\<lambda>k m. key_inv m k"])
      (auto simp: mvcc_inv_def iter_keys_distinct intro: key_inv_same_at same_at_sym)
  then show ?thesis by (simp add: mvcc_inv_def)
qed (use assms in simp_all)

section \<open>The engine as a state machine\<close>

text \<open>
  One step is one call of a method on \<^verbatim>\<open>&mut self\<close>, with any arguments, whatever it returns.
\<close>

inductive mvcc_step :: "InMemoryMvcc \<Rightarrow> InMemoryMvcc \<Rightarrow> bool" where
  step_prewrite: "prewrite m txn s k mu pk ttl = (r, m') \<Longrightarrow> mvcc_step m m'"
| step_prewrite_batch: "prewrite_batch m txn s mus pk ttl = (r, m') \<Longrightarrow> mvcc_step m m'"
| step_commit_intent: "commit_intent m txn s c k = (r, m') \<Longrightarrow> mvcc_step m m'"
| step_commit_intents_batch: "commit_intents_batch m txn s c keys = (r, m') \<Longrightarrow> mvcc_step m m'"
| step_rollback_intent: "rollback_intent m txn s k = (r, m') \<Longrightarrow> mvcc_step m m'"
| step_rollback_intents_batch: "rollback_intents_batch m txn s keys = (r, m') \<Longrightarrow> mvcc_step m m'"
| step_commit_batch: "commit_batch m txn s c mus = (n, m') \<Longrightarrow> mvcc_step m m'"

inductive_cases mvcc_stepE: "mvcc_step m m'"

lemma mvcc_step_batch_cases:
  assumes "mvcc_step m m'"
  obtains (prewrite) txn s mus pk ttl r where "prewrite_batch m txn s mus pk ttl = (r, m')"
  | (commit) txn s c keys r where "commit_intents_batch m txn s c keys = (r, m')"
  | (rollback) txn s keys r where "rollback_intents_batch m txn s keys = (r, m')"
  | (local) txn s c mus n where "commit_batch m txn s c mus = (n, m')"
  using assms
  by (cases rule: mvcc_step.cases)
    (auto simp: prewrite_as_batch commit_intent_as_batch rollback_intent_as_batch)

interpretation mvcc_system: step_invariant "\<lambda>m. m = InMemoryMvcc_new" mvcc_step mvcc_inv
proof
  show "\<And>m. m = InMemoryMvcc_new \<Longrightarrow> mvcc_inv m" by (simp add: mvcc_inv_def key_inv_new)
  show "\<And>m m'. mvcc_inv m \<Longrightarrow> mvcc_step m m' \<Longrightarrow> mvcc_inv m'"
    by (erule mvcc_step_batch_cases)
      (auto intro: prewrite_batch_inv commit_intents_batch_inv rollback_intents_batch_inv
        commit_batch_inv)
qed

definition mvcc_reachable :: "InMemoryMvcc \<Rightarrow> bool" where
  "mvcc_reachable m \<longleftrightarrow> mvcc_step\<^sup>*\<^sup>* InMemoryMvcc_new m"

lemma reachable_mvcc_inv: "mvcc_reachable m \<Longrightarrow> mvcc_inv m"
  unfolding mvcc_reachable_def by (rule mvcc_system.reachable_inv) simp

lemma mvcc_reachable_new: "mvcc_reachable InMemoryMvcc_new"
  by (simp add: mvcc_reachable_def)

lemma mvcc_reachable_step: "mvcc_reachable m \<Longrightarrow> mvcc_step m m' \<Longrightarrow> mvcc_reachable m'"
  unfolding mvcc_reachable_def by (rule rtranclp.rtrancl_into_rtrancl)

end
