(* ===== verification/Mvcc_History.thy ===== *)
theory Mvcc_History
  imports Mvcc_Inv
begin

text \<open>
  The engine refines a store of committed versions: reads return the latest committed version
  of the snapshot, commits extend the history at their commit timestamp, and prewrites and
  rollbacks leave it alone. Written records are never changed or removed.
\<close>

section \<open>Effect of each operation on the history\<close>

definition install ::
  "(bytes \<Rightarrow> bytes option option) \<Rightarrow> Timestamp \<Rightarrow> (bytes \<Rightarrow> Timestamp \<Rightarrow> bytes option option) \<Rightarrow>
     bytes \<Rightarrow> Timestamp \<Rightarrow> bytes option option" where
  "install ws c h k t = (if t = c \<and> ws k \<noteq> None then ws k else h k t)"

lemma history_same_at: "same_at k m m' \<Longrightarrow> history m k = history m' k"
  unfolding same_at_def history_def committed_value_def by (elim conjE) (simp only:)

lemma history_cong:
  assumes "wr m k = wr m' k"
    and "\<And>t w. wr m k t = Some w \<Longrightarrow> w_op w = Put \<Longrightarrow>
      dv m' k (w_start_timestamp w) = dv m k (w_start_timestamp w)"
  shows "history m' k = history m k"
proof
  fix t
  show "history m' k t = history m k t"
    using assms by (cases "wr m k t") (auto simp: history_def committed_value_def split: WriteKind.splits)
qed

lemma history_apply_prewrite:
  assumes "key_inv m k" and "prepare_prewrite m txn s k mu pk ttl = Inr (Some p)"
  shows "history (apply_prewrite p m) k = history m k"
proof (rule history_cong)
  from assms(2) have p: "validate_write_history m k s = Inr ()"
    "p = \<lparr>pp_key = k, pp_default_value = mutation_row mu, pp_lock = intent_lock txn s mu pk ttl\<rparr>"
    by (auto simp: prepare_prewrite_Inr split: option.splits)
  have unf: "unfenced m k s"
    using p(1) key_invD(1) [OF assms(1)] by (rule validate_write_history_unfenced)
  show "wr m k = wr (apply_prewrite p m) k" by (simp add: mvcc_views)
  fix t w
  assume "wr m k t = Some w"
  then have "w_start_timestamp w \<noteq> s"
    using unfenced_no_start unf key_invD(1) [OF assms(1)] by blast
  then show "dv (apply_prewrite p m) k (w_start_timestamp w) = dv m k (w_start_timestamp w)"
    by (auto simp: p(2) mvcc_views intent_lock_def split: option.splits)
qed

lemma history_apply_intent_commit:
  assumes "prepare_intent_commit m txn s c k = Inr (Some p)"
  shows "history (apply_intent_commit p m) k = (history m k)(c \<mapsto> dv m k s)"
proof
  fix t
  from assms obtain l :: LockRecord where "payload_ok m k s (l_op l)"
    "p = \<lparr>pc_key = k, pc_write = commit_write s c (l_op l)\<rparr>"
    by (rule prepare_intent_commit_Some) blast
  then show "history (apply_intent_commit p m) k t = ((history m k)(c \<mapsto> dv m k s)) t"
    by (cases "wr m k t")
      (auto simp: history_def committed_value_def apply_intent_commit_view commit_write_def
        payload_ok_def split: WriteKind.splits)
qed

lemma history_replayed_commit:
  assumes "prepare_intent_commit m txn s c k = Inr None"
  shows "history m k = (history m k)(c \<mapsto> dv m k s)"
proof -
  from assms obtain w where "wr m k c = Some w" "w_start_timestamp w = s" "payload_ok m k s (w_op w)"
    by (auto simp: prepare_intent_commit_None)
  then have "history m k c = Some (dv m k s)"
    by (cases "w_op w") (auto simp: history_def committed_value_def payload_ok_def)
  then show ?thesis by (auto simp: fun_eq_iff)
qed

lemma history_apply_intent_rollback:
  assumes "prepare_intent_rollback m txn s k = Inr (Some p)"
  shows "history (apply_intent_rollback s p m) k = history m k"
proof
  fix t
  from assms have "pr_key p = k" "wr m k s = None"
    "\<forall>t w. wr m k t = Some w \<longrightarrow> w_start_timestamp w = s \<longrightarrow> w_op w = Rollback"
    by (auto simp: prepare_intent_rollback_Inr split: option.splits)
  then show "history (apply_intent_rollback s p m) k t = history m k t"
    by (cases "wr m k t")
      (auto simp: history_def committed_value_def apply_intent_rollback_view split: WriteKind.splits)
qed

lemma history_publish_mutation:
  assumes "key_inv m k" and "publishable m txn s c k mu"
  shows "history (publish_mutation txn s c (k, mu) m) k = (history m k)(c \<mapsto> mutation_row mu)"
proof
  fix t
  have "unfenced m k s"
    using assms key_invD(1) validate_write_history_unfenced unfolding publishable_def by blast
  then have ns: "wr m k t = Some w \<Longrightarrow> w_start_timestamp w \<noteq> s" for w
    using unfenced_no_start key_invD(1) [OF assms(1)] by blast
  then show "history (publish_mutation txn s c (k, mu) m) k t =
      ((history m k)(c \<mapsto> mutation_row mu)) t"
    by (cases mu; cases "wr m k t")
      (auto simp: history_def committed_value_def publish_mutation_view mutation_row_def
        split: WriteKind.splits)
qed

lemma prewrite_batch_history:
  assumes "mvcc_inv m" and "prewrite_batch m txn s mus pk ttl = (r, m')"
  shows "history m' = history m"
  using assms(2)
proof (cases rule: prewrite_batch_cases)
  case (ok ps)
  have "history m' k = history m k" for k
    unfolding ok(2)
  proof (rule prewrites.fold_lift [where P = "\<lambda>k m'. history m' k = history m k"])
    fix p
    assume "p \<in> set ps"
    with try_filter_map_mem [OF ok(8)] obtain k mu where
      "prepare_prewrite m txn s k mu pk ttl = Inr (Some p)" by auto
    with assms(1) show "history (apply_prewrite p m) (pp_key p) = history m (pp_key p)"
      using history_apply_prewrite prepare_prewrite_key unfolding mvcc_inv_def by metis
  qed (use ok(9) history_same_at in auto)
  then show ?thesis by (simp add: fun_eq_iff)
qed simp

lemma rollback_intents_batch_history:
  assumes "rollback_intents_batch m txn s keys = (r, m')"
  shows "history m' = history m"
  using assms
proof (cases rule: rollback_intents_batch_cases)
  case (ok ps)
  have "history m' k = history m k" for k
    unfolding ok(2)
  proof (rule rollbacks.fold_lift [where P = "\<lambda>k m'. history m' k = history m k"])
    fix p
    assume "p \<in> set ps"
    with try_filter_map_mem [OF ok(6)] obtain k where
      "prepare_intent_rollback m txn s k = Inr (Some p)" by auto
    then show "history (apply_intent_rollback s p m) (pr_key p) = history m (pr_key p)"
      using history_apply_intent_rollback prepare_intent_rollback_key by metis
  qed (use ok(7) history_same_at in auto)
  then show ?thesis by (simp add: fun_eq_iff)
qed simp

lemma commit_intents_batch_history:
  assumes "commit_intents_batch m txn s c keys = (Inr (), m')"
  shows "history m' = install (\<lambda>k. if bt_contains_key keys k then Some (dv m k s) else None) c (history m)"
  using assms
proof (cases rule: commit_intents_batch_cases)
  case (ok ps)
  have "history m' k = (if bt_contains_key keys k then (history m k)(c \<mapsto> dv m k s) else history m k)" for k
  proof (cases "k \<in> pc_key ` set ps")
    case True
    then obtain p where p: "p \<in> set ps" "pc_key p = k" by blast
    with try_filter_map_mem [OF ok(7)] obtain k' where
      k': "k' \<in> set (bt_keys keys)" "prepare_intent_commit m txn s c k' = Inr (Some p)" by auto
    then have "k' = k" using prepare_intent_commit_key p(2) by blast
    moreover have "history m' k = history (apply_intent_commit p m) k"
      unfolding ok(2) using commits.fold_own [OF ok(8) p(1)] p(2) by (intro history_same_at) simp
    ultimately show ?thesis using history_apply_intent_commit k' by auto
  next
    case False
    then have h: "history m' k = history m k"
      unfolding ok(2) by (intro history_same_at commits.fold_other)
    show ?thesis
    proof (cases "bt_contains_key keys k")
      case True
      then obtain d where d: "prepare_intent_commit m txn s c k = Inr d"
        using try_filter_map_Inr_all [OF ok(7), of k] by auto
      have "d = None"
      proof (rule ccontr)
        assume "d \<noteq> None"
        then obtain p where p: "d = Some p" by blast
        with d True have "p \<in> set ps" using try_filter_map_mem [OF ok(7)] by auto
        with False p d prepare_intent_commit_key show False by blast
      qed
      with d have "history m k = (history m k)(c \<mapsto> dv m k s)"
        by (intro history_replayed_commit) simp
      with h have "history m' k = (history m k)(c \<mapsto> dv m k s)" by (rule trans)
      with True show ?thesis by (simp only: if_True)
    next
      case False
      with h show ?thesis by simp
    qed
  qed
  then show ?thesis by (auto simp: install_def fun_eq_iff)
qed simp

lemma is_exactly_applied_Inr:
  "is_exactly_applied m k mu s c = Inr b \<longleftrightarrow>
     (case wr m k c of
        None \<Rightarrow> \<not> b
      | Some w \<Rightarrow> b \<and> write_ok c w \<and> w_start_timestamp w = s \<and> w_op w = write_kind mu \<and>
          (mu = DeleteMutation \<or> dv m k s = mutation_row mu))"
  by (cases mu; cases "wr m k c")
    (auto simp: is_exactly_applied_def and_then_eq_Inr ensure_eq_Inr ok_or_eq_Inr
      validate_write_record_Inr wr_def dv_def mutation_row_def)

lemma count_applied:
  "try_fold (\<lambda>applied (k, mu). and_then (is_exactly_applied m k mu s c) (\<lambda>b.
       Inr (if b then applied + 1 else applied))) n xs = Inr n' \<Longrightarrow>
     n' \<le> n + length xs \<and>
     (n' = n + length xs \<longrightarrow> (\<forall>(k, mu) \<in> set xs. is_exactly_applied m k mu s c = Inr True)) \<and>
     (n' = n \<longrightarrow> (\<forall>(k, mu) \<in> set xs. is_exactly_applied m k mu s c = Inr False)) \<and> n \<le> n'"
  for n :: nat
proof (induction xs arbitrary: n)
  case Nil
  then show ?case by simp
next
  case (Cons x xs)
  obtain k mu where x: "x = (k, mu)" by (cases x)
  with Cons.prems obtain b where b: "is_exactly_applied m k mu s c = Inr b"
    and r: "try_fold (\<lambda>applied (k, mu). and_then (is_exactly_applied m k mu s c) (\<lambda>b.
       Inr (if b then applied + 1 else applied))) (if b then n + 1 else n) xs = Inr n'"
    by (auto simp: and_then_eq_Inr)
  from Cons.IH [OF r] x b show ?case by (cases b) auto
qed

lemma validate_batch_replay_Inr:
  assumes "validate_batch_replay m mus s c = Inr b"
  shows "b \<Longrightarrow> bt_get mus k = Some mu \<Longrightarrow> is_exactly_applied m k mu s c = Inr True"
    and "\<not> b \<Longrightarrow> bt_get mus k = Some mu \<Longrightarrow> is_exactly_applied m k mu s c = Inr False"
proof -
  from assms obtain n where n: "try_fold (\<lambda>applied (k, mu). and_then (is_exactly_applied m k mu s c) (\<lambda>b.
       Inr (if b then applied + 1 else applied))) (0 :: nat) (bt_iter mus) = Inr n"
    and b: "b \<longleftrightarrow> n \<noteq> 0" "n \<noteq> 0 \<longrightarrow> n = bt_len mus"
    by (auto simp: validate_batch_replay_def and_then_eq_Inr split: if_splits)
  from count_applied [OF n] b
  have "if b then (\<forall>(k, mu) \<in> set (bt_iter mus). is_exactly_applied m k mu s c = Inr True)
        else (\<forall>(k, mu) \<in> set (bt_iter mus). is_exactly_applied m k mu s c = Inr False)"
    by (auto simp: bt_len_def)
  then show "b \<Longrightarrow> bt_get mus k = Some mu \<Longrightarrow> is_exactly_applied m k mu s c = Inr True"
    and "\<not> b \<Longrightarrow> bt_get mus k = Some mu \<Longrightarrow> is_exactly_applied m k mu s c = Inr False"
    by (auto simp: Ball_def split_paired_All bt.iter_mem)
qed

lemma history_replayed_mutation:
  "is_exactly_applied m k mu s c = Inr True \<Longrightarrow> history m k c = Some (mutation_row mu)"
  by (cases mu)
    (auto simp: is_exactly_applied_Inr history_def committed_value_def mutation_row_def
      split: option.splits)

lemma commit_batch_history:
  assumes "mvcc_inv m" and "commit_batch m txn s c mus = (Inr n, m')"
  shows "history m' = install (\<lambda>k. map_option mutation_row (bt_get mus k)) c (history m)"
  using assms(2)
proof (cases rule: commit_batch_cases)
  case empty
  then show ?thesis by (simp add: bt_is_empty_iff install_def fun_eq_iff)
next
  case replay
  have "history m k c = Some (mutation_row mu)" if "bt_get mus k = Some mu" for k mu
    using validate_batch_replay_Inr(1) [OF replay(3)] that history_replayed_mutation by blast
  with replay show ?thesis by (auto simp: install_def fun_eq_iff)
next
  case ok
  have "history m' k =
      (case bt_get mus k of None \<Rightarrow> history m k | Some mu \<Rightarrow> (history m k)(c \<mapsto> mutation_row mu))" for k
  proof (cases "bt_get mus k")
    case None
    then have "k \<notin> fst ` set (bt_iter mus)" by (simp add: bt.iter_keys dom_def)
    then have "history m' k = history m k"
      unfolding ok(2) by (intro history_same_at publications.fold_other)
    with None show ?thesis by simp
  next
    case (Some mu)
    then have "(k, mu) \<in> set (bt_iter mus)" by (simp add: bt.iter_mem)
    then have "same_at k m' (publish_mutation txn s c (k, mu) m)"
      unfolding ok(2) using publications.fold_own [OF iter_keys_distinct, of "(k, mu)" mus] by simp
    then have "history m' k = history (publish_mutation txn s c (k, mu) m) k"
      by (rule history_same_at)
    with Some ok(8) assms(1) show ?thesis
      by (simp add: history_publish_mutation mvcc_inv_def)
  qed
  then show ?thesis by (auto simp: install_def fun_eq_iff split: option.splits)
qed simp

section \<open>Write records are never changed\<close>

lemma wr_append_only:
  assumes "mvcc_inv m" and "mvcc_step m m'" and "wr m k t = Some w"
  shows "wr m' k t = Some w"
  using assms(2)
proof (cases rule: mvcc_step_batch_cases)
  case (prewrite txn s mus pk ttl r)
  then show ?thesis
  proof (cases rule: prewrite_batch_cases)
    case (ok ps)
    show ?thesis
      unfolding ok(2)
      by (rule prewrites.fold_lift [where P = "\<lambda>k' m. k' = k \<longrightarrow> wr m k t = Some w", rule_format])
        (use assms(3) ok(9) in \<open>auto simp: same_at_def mvcc_views\<close>)
  qed (use assms in simp)
next
  case (commit txn s c keys r)
  then show ?thesis
  proof (cases rule: commit_intents_batch_cases)
    case (ok ps)
    have "wr (apply_intent_commit p m) k t = Some w" if "p \<in> set ps" for p
    proof -
      from try_filter_map_mem [OF ok(7)] that obtain k' where
        "prepare_intent_commit m txn s c k' = Inr (Some p)" by auto
      then have "wr m k' c = None" "pc_key p = k'" "w_commit_timestamp (pc_write p) = c"
        by (auto elim!: prepare_intent_commit_Some simp: commit_write_def)
      with assms(3) show ?thesis by (auto simp: apply_intent_commit_view)
    qed
    then show ?thesis
      unfolding ok(2) using assms(3) ok(8)
      by (intro commits.fold_lift [where P = "\<lambda>k' m. k' = k \<longrightarrow> wr m k t = Some w", rule_format])
        (auto simp: same_at_def)
  qed (use assms in simp)
next
  case (rollback txn s keys r)
  then show ?thesis
  proof (cases rule: rollback_intents_batch_cases)
    case (ok ps)
    have "wr (apply_intent_rollback s p m) k t = Some w" if "p \<in> set ps" for p
    proof -
      from try_filter_map_mem [OF ok(6)] that obtain k' where
        "prepare_intent_rollback m txn s k' = Inr (Some p)" by auto
      then have "wr m k' s = None" "pr_key p = k'"
        by (auto simp: prepare_intent_rollback_Inr split: option.splits)
      with assms(3) show ?thesis by (auto simp: apply_intent_rollback_view)
    qed
    then show ?thesis
      unfolding ok(2) using assms(3) ok(7)
      by (intro rollbacks.fold_lift [where P = "\<lambda>k' m. k' = k \<longrightarrow> wr m k t = Some w", rule_format])
        (auto simp: same_at_def)
  qed (use assms in simp)
next
  case (local txn s c mus n)
  then show ?thesis
  proof (cases rule: commit_batch_cases)
    case ok
    have "wr (publish_mutation txn s c p m) k t = Some w" if "p \<in> set (bt_iter mus)" for p
    proof -
      obtain k' mu where p: "p = (k', mu)" by (cases p)
      with that ok(8) have "publishable m txn s c k' mu" by (simp add: bt.iter_mem)
      then have "wr m k' c = None"
        by (cases "wr m k' c") (auto simp: publishable_def validate_commit_timestamp_Inr)
      with assms(3) p show ?thesis by (auto simp: publish_mutation_view)
    qed
    then show ?thesis
      unfolding ok(2) using assms(3)
      by (intro publications.fold_lift [where P = "\<lambda>k' m. k' = k \<longrightarrow> wr m k t = Some w", rule_format])
        (auto simp: same_at_def iter_keys_distinct)
  qed (use assms in simp_all)
qed

end
