(* ===== verification/Mvcc_Replay.thy ===== *)
theory Mvcc_Replay
  imports Mvcc_History
begin

text \<open>
  What happens to one key when a batch succeeds: either the prepared delta was published or
  the key was an exact replay. From this follow idempotence, the equality of a batch with the
  sequence of its single operations, fencing by rollback markers, and the promise that an
  installed intent can be committed.
\<close>

section \<open>Batches that prepare first and publish afterwards\<close>

text \<open>Calling a fallible single-key operation for each argument, stopping at the first error.\<close>

fun run_each :: "('x \<Rightarrow> 's \<Rightarrow> ('e + unit) \<times> 's) \<Rightarrow> 'x list \<Rightarrow> 's \<Rightarrow> ('e + unit) \<times> 's" where
  "run_each f [] m = (Inr (), m)"
| "run_each f (x # xs) m =
     (case f x m of (Inl e, m') \<Rightarrow> (Inl e, m') | (Inr _, m') \<Rightarrow> run_each f xs m')"

text \<open>The same calls as one transaction on the state: an error gives back the state before them.\<close>

definition all_or_nothing :: "'s \<Rightarrow> ('e + 'a) \<times> 's \<Rightarrow> ('e + 'a) \<times> 's" where
  "all_or_nothing m outcome = (case outcome of (Inl e, _) \<Rightarrow> (Inl e, m) | (Inr x, m') \<Rightarrow> (Inr x, m'))"

definition run_one :: "('m \<Rightarrow> 'x \<Rightarrow> 'e + 'p option) \<Rightarrow> ('p \<Rightarrow> 'm \<Rightarrow> 'm) \<Rightarrow> 'x \<Rightarrow> 'm \<Rightarrow> ('e + unit) \<times> 'm" where
  "run_one prep st x m =
     (case prep m x of
        Inl e \<Rightarrow> (Inl e, m)
      | Inr None \<Rightarrow> (Inr (), m)
      | Inr (Some p) \<Rightarrow> (Inr (), st p m))"

locale keyed_batch = keyed_update key_of step eq_at
  for key_of :: "'p \<Rightarrow> 'k" and step :: "'p \<Rightarrow> 'm \<Rightarrow> 'm" and eq_at :: "'k \<Rightarrow> 'm \<Rightarrow> 'm \<Rightarrow> bool" +
  fixes prepare :: "'m \<Rightarrow> 'x \<Rightarrow> 'e + 'p option"
    and arg_key :: "'x \<Rightarrow> 'k"
  assumes prepare_cong: "eq_at (arg_key x) m m' \<Longrightarrow> prepare m x = prepare m' x"
    and prepare_key: "prepare m x = Inr (Some p) \<Longrightarrow> key_of p = arg_key x"
begin

lemma prepared_distinct:
  "try_filter_map (prepare m) xs = Inr ps \<Longrightarrow> distinct (map arg_key xs) \<Longrightarrow> distinct (map key_of ps)"
  by (rule try_filter_map_distinct) (auto intro: prepare_key)

lemma batch_at:
  assumes pre: "try_filter_map (prepare m) xs = Inr ps" and dist: "distinct (map arg_key xs)"
    and x: "x \<in> set xs"
  obtains (fresh) p where "prepare m x = Inr (Some p)" "eq_at (arg_key x) (fold step ps m) (step p m)"
  | (replay) "prepare m x = Inr None" "eq_at (arg_key x) (fold step ps m) m"
proof -
  from try_filter_map_Inr_all [OF pre x] obtain d where d: "prepare m x = Inr d" by blast
  show ?thesis
  proof (cases d)
    case (Some p)
    with d x have "p \<in> set ps" using try_filter_map_mem [OF pre] by blast
    from fold_own [OF prepared_distinct [OF pre dist] this] prepare_key d Some fresh
    show ?thesis by simp
  next
    case None
    have "arg_key x \<notin> key_of ` set ps"
    proof
      assume "arg_key x \<in> key_of ` set ps"
      then obtain p where "p \<in> set ps" and p: "key_of p = arg_key x" by auto
      then obtain x' where x': "x' \<in> set xs" "prepare m x' = Inr (Some p)"
        using try_filter_map_mem [OF pre, of p] by blast
      from prepare_key [OF x'(2)] p have "arg_key x' = arg_key x" by simp
      with dist x'(1) x have "x' = x" by (auto simp: distinct_map dest: inj_onD)
      with x' d None show False by simp
    qed
    with d None replay fold_other show ?thesis by blast
  qed
qed

lemma batch_as_sequence:
  "distinct (map arg_key xs) \<Longrightarrow>
     all_or_nothing n (run_each (run_one prepare step) xs m) =
       (case try_filter_map (prepare m) xs of
          Inl e \<Rightarrow> (Inl e, n)
        | Inr ps \<Rightarrow> (Inr (), fold step ps m))"
proof (induction xs arbitrary: m)
  case Nil
  then show ?case by (simp add: all_or_nothing_def)
next
  case (Cons x xs)
  show ?case
  proof (cases "prepare m x")
    case (Inl e)
    then show ?thesis by (simp add: run_one_def all_or_nothing_def)
  next
    case (Inr d)
    have "prepare (step p m) x' = prepare m x'" if "d = Some p" "x' \<in> set xs" for x' p
    proof (rule prepare_cong, rule step_frame)
      have "arg_key x' \<in> arg_key ` set xs" using that(2) by (rule imageI)
      then show "arg_key x' \<noteq> key_of p" using Cons.prems prepare_key [of m x p] Inr that(1) by auto
    qed
    then have "try_filter_map (prepare (step p m)) xs = try_filter_map (prepare m) xs"
      if "d = Some p" for p using that by (intro try_filter_map_cong) auto
    with Cons Inr show ?thesis
      by (cases d) (auto simp: run_one_def split: sum.splits)
  qed
qed

text \<open>The same for a call that checks its other arguments before it prepares the key.\<close>

lemma guarded_batch_as_sequence:
  assumes single: "\<And>x m. single x m =
      (case and_then guard (\<lambda>_ :: unit. prepare m x) of
         Inl e \<Rightarrow> (Inl e, m) | Inr None \<Rightarrow> (Inr (), m) | Inr (Some p) \<Rightarrow> (Inr (), step p m))"
    and "distinct (map arg_key xs)" and "xs \<noteq> []"
  shows "all_or_nothing m (run_each single xs m) =
      (case and_then guard (\<lambda>_. try_filter_map (prepare m) xs) of
         Inl e \<Rightarrow> (Inl e, m) | Inr ps \<Rightarrow> (Inr (), fold step ps m))"
proof (cases guard)
  case (Inl e)
  with assms(3) show ?thesis by (cases xs) (simp_all add: single all_or_nothing_def)
next
  case (Inr u)
  then have "single = run_one prepare step" by (simp add: fun_eq_iff single run_one_def)
  with Inr batch_as_sequence [OF assms(2)] show ?thesis by simp
qed

end

interpretation prewrite_ops: keyed_batch pp_key apply_prewrite same_at
  "\<lambda>m (k, mu). prepare_prewrite m txn s k mu pk ttl" fst for txn s pk ttl
  by unfold_locales (auto intro: prepare_prewrite_same_at simp: prepare_prewrite_key)

interpretation commit_ops: keyed_batch pc_key apply_intent_commit same_at
  "\<lambda>m. prepare_intent_commit m txn s c" id for txn s c
  by unfold_locales (auto intro: prepare_intent_commit_same_at simp: prepare_intent_commit_key)

interpretation rollback_ops: keyed_batch pr_key "apply_intent_rollback s" same_at
  "\<lambda>m. prepare_intent_rollback m txn s" id for txn s
  by unfold_locales (auto intro: prepare_intent_rollback_same_at simp: prepare_intent_rollback_key)

section \<open>Batches as sequences of single-key calls\<close>

lemma keys_distinct_id: "distinct (map id (bt_keys keys))"
  by (simp add: bt_keys_distinct)

lemma prewrite_batch_sequence:
  "prewrite_batch m txn s mus pk ttl =
     (if bt_is_empty mus then (Inl InvalidArgument, m)
      else all_or_nothing m
        (run_each (\<lambda>(k, mu) m. prewrite m txn s k mu pk ttl) (bt_iter mus) m))"
proof (cases "bt_is_empty mus")
  case False
  let ?guard = "and_then (validate_commit_preflight_metadata txn s) (\<lambda>_.
      and_then (validate_encoded_key_argument pk) (\<lambda>_. ensure (ttl \<noteq> 0) InvalidArgument))"
  have "all_or_nothing m
      (run_each (\<lambda>(k, mu) m. prewrite m txn s k mu pk ttl) (bt_iter mus) m) =
      (case and_then ?guard (\<lambda>_. try_filter_map (\<lambda>(k, mu). prepare_prewrite m txn s k mu pk ttl)
         (bt_iter mus)) of Inl e \<Rightarrow> (Inl e, m) | Inr ps \<Rightarrow> (Inr (), fold apply_prewrite ps m))"
    by (rule prewrite_ops.guarded_batch_as_sequence [OF _ iter_keys_distinct])
      (use False in \<open>auto simp: prewrite_def and_then_assoc bt_is_empty_def split: prod.splits\<close>)
  with False show ?thesis by (simp add: prewrite_batch_def and_then_assoc)
qed (simp add: prewrite_batch_def)

lemma commit_intents_batch_sequence:
  "commit_intents_batch m txn s c keys =
     (if bt_is_empty keys then (Inl InvalidArgument, m)
      else all_or_nothing m (run_each (\<lambda>k m. commit_intent m txn s c k) (bt_keys keys) m))"
proof (cases "bt_is_empty keys")
  case False
  then have "bt_keys keys \<noteq> []" by (simp add: bt_keys_def bt_is_empty_def)
  with False show ?thesis
    by (simp add: commit_intents_batch_def
        commit_ops.guarded_batch_as_sequence [OF commit_intent_def keys_distinct_id])
qed (simp add: commit_intents_batch_def)

lemma rollback_intents_batch_sequence:
  "rollback_intents_batch m txn s keys =
     (if bt_is_empty keys then (Inl InvalidArgument, m)
      else all_or_nothing m (run_each (\<lambda>k m. rollback_intent m txn s k) (bt_keys keys) m))"
proof (cases "bt_is_empty keys")
  case False
  then have "bt_keys keys \<noteq> []" by (simp add: bt_keys_def bt_is_empty_def)
  with False show ?thesis
    by (simp add: rollback_intents_batch_def
        rollback_ops.guarded_batch_as_sequence [OF rollback_intent_def keys_distinct_id])
qed (simp add: rollback_intents_batch_def)

section \<open>Per-key outcome of a successful batch\<close>

lemma prewrite_batch_at:
  assumes "prewrite_batch m txn s mus pk ttl = (Inr (), m')" and "bt_get mus k = Some mu"
  obtains (fresh) p where "prepare_prewrite m txn s k mu pk ttl = Inr (Some p)"
      "same_at k m' (apply_prewrite p m)"
  | (replay) "prepare_prewrite m txn s k mu pk ttl = Inr None" "same_at k m' m"
  using assms(1)
proof (cases rule: prewrite_batch_cases)
  case (ok ps)
  have x: "(k, mu) \<in> set (bt_iter mus)" using assms(2) by (simp add: bt.iter_mem)
  show ?thesis
    by (rule prewrite_ops.batch_at [OF ok(8) iter_keys_distinct x])
      (simp_all add: fresh replay flip: ok(2))
qed simp

lemma commit_intents_batch_at:
  assumes "commit_intents_batch m txn s c keys = (Inr (), m')" and "bt_contains_key keys k"
  obtains (fresh) p where "prepare_intent_commit m txn s c k = Inr (Some p)"
      "same_at k m' (apply_intent_commit p m)"
  | (replay) "prepare_intent_commit m txn s c k = Inr None" "same_at k m' m"
  using assms(1)
proof (cases rule: commit_intents_batch_cases)
  case (ok ps)
  have x: "k \<in> set (bt_keys keys)" using assms(2) by auto
  show ?thesis
    by (rule commit_ops.batch_at [OF ok(7) keys_distinct_id x])
      (simp_all add: fresh replay flip: ok(2))
qed simp

lemma rollback_intents_batch_at:
  assumes "rollback_intents_batch m txn s keys = (Inr (), m')" and "bt_contains_key keys k"
  obtains (fresh) p where "prepare_intent_rollback m txn s k = Inr (Some p)"
      "same_at k m' (apply_intent_rollback s p m)"
  | (replay) "prepare_intent_rollback m txn s k = Inr None" "same_at k m' m"
  using assms(1)
proof (cases rule: rollback_intents_batch_cases)
  case (ok ps)
  have x: "k \<in> set (bt_keys keys)" using assms(2) by auto
  show ?thesis
    by (rule rollback_ops.batch_at [OF ok(6) keys_distinct_id x])
      (simp_all add: fresh replay flip: ok(2))
qed simp

section \<open>Replays change nothing\<close>

lemma prewrite_batch_replay:
  assumes "mvcc_inv m" and "prewrite_batch m txn s mus pk ttl = (Inr (), m')"
  shows "prewrite_batch m' txn s mus pk ttl = (Inr (), m')"
proof -
  have "prepare_prewrite m' txn s k mu pk ttl = Inr None" if k: "bt_get mus k = Some mu" for k mu
    using assms(2) k
  proof (cases rule: prewrite_batch_at)
    case (fresh p)
    have wr: "wr m' k = wr m k" and lk: "lk m' k = Some (intent_lock txn s mu pk ttl)"
      and dv: "dv m' k s = mutation_row mu" and ok: "validate_mutation m k mu s = Inr ()"
      "validate_write_history m k s = Inr ()"
      using fresh
      by (auto simp: prepare_prewrite_Inr same_at_def mvcc_views intent_lock_def split: option.splits)
    have "validate_write_history m' k s = Inr ()"
      using ok(2) vs_cong [OF wr] by (simp add: validate_write_history_alt wr)
    with lk dv ok(1) show ?thesis by (simp add: prepare_prewrite_Inr validate_mutation_Inr)
  next
    case replay
    then show ?thesis using prepare_prewrite_same_at [OF replay(2)] by simp
  qed
  then have "try_filter_map (\<lambda>(k, mu). prepare_prewrite m' txn s k mu pk ttl) (bt_iter mus) = Inr []"
    by (intro try_filter_map_None) (auto simp: bt.iter_mem)
  moreover have "validate_commit_preflight_metadata txn s = Inr () \<and> ttl \<noteq> 0 \<and>
      \<not> bt_is_empty mus \<and> validate_encoded_key_argument pk = Inr ()"
    using assms(2)
    by (cases rule: prewrite_batch_cases) (simp_all add: validate_preflight_Inr validate_key_iff)
  ultimately show ?thesis by (simp add: prewrite_batch_def)
qed

lemma commit_intents_batch_replay:
  assumes "mvcc_inv m" and "commit_intents_batch m txn s c keys = (Inr (), m')"
  shows "commit_intents_batch m' txn s c keys = (Inr (), m')"
proof -
  have inv': "mvcc_inv m'" using assms by (rule commit_intents_batch_inv)
  have "prepare_intent_commit m' txn s c k = Inr None" if k: "bt_contains_key keys k" for k
    using assms(2) k
  proof (cases rule: commit_intents_batch_at)
    case (fresh p)
    from fresh(1) obtain l :: LockRecord where l: "key_ok k" "lk m k = Some l" "l_start_timestamp l = s"
      "payload_ok m k s (l_op l)" "p = \<lparr>pc_key = k, pc_write = commit_write s c (l_op l)\<rparr>"
      by (rule prepare_intent_commit_Some)
    have wc: "wr m' k c = Some (commit_write s c (l_op l))" and lk: "lk m' k = None"
      and dv: "dv m' k = dv m k"
      using fresh(2) l(5) by (auto simp: same_at_def mvcc_views commit_write_def)
    have i: "writes_ok m' k" "one_outcome m' k" using inv' by (auto simp: mvcc_inv_def key_inv_def)
    have one: "\<forall>t w. wr m' k t = Some w \<longrightarrow> w_start_timestamp w = s \<longrightarrow> t = c"
    proof (intro allI impI)
      fix t w
      assume a: "wr m' k t = Some w" "w_start_timestamp w = s"
      show "t = c"
        by (rule i(2) [unfolded one_outcome_def, rule_format, OF a(1) wc])
          (simp add: a(2) commit_write_def)
    qed
    have pay: "payload_ok m' k s (w_op (commit_write s c (l_op l)))"
      using l(4) dv by (cases "l_op l") (simp_all add: payload_ok_def commit_write_def)
    have start: "w_start_timestamp (commit_write s c (l_op l)) = s" by (simp add: commit_write_def)
    show ?thesis
      unfolding prepare_intent_commit_None
    proof (intro conjI)
      show "\<exists>w. wr m' k c = Some w \<and> w_start_timestamp w = s \<and> writes_ok m' k \<and>
          payload_ok m' k s (w_op w)"
        using wc start i(1) pay by blast
    qed (use l(1) one lk in simp_all)
  next
    case replay
    then show ?thesis using prepare_intent_commit_same_at [OF replay(2)] by simp
  qed
  then have "try_filter_map (prepare_intent_commit m' txn s c) (bt_keys keys) = Inr []"
    by (intro try_filter_map_None) auto
  moreover have "validate_commit_metadata txn s c = Inr () \<and> \<not> bt_is_empty keys"
    using assms(2) by (cases rule: commit_intents_batch_cases) (simp_all add: validate_metadata_Inr)
  ultimately show ?thesis by (simp add: commit_intents_batch_def)
qed

lemma rollback_intents_batch_replay:
  assumes "mvcc_inv m" and "rollback_intents_batch m txn s keys = (Inr (), m')"
  shows "rollback_intents_batch m' txn s keys = (Inr (), m')"
proof -
  have inv': "mvcc_inv m'" using assms by (rule rollback_intents_batch_inv)
  have "prepare_intent_rollback m' txn s k = Inr None" if k: "bt_contains_key keys k" for k
    using assms(2) k
  proof (cases rule: rollback_intents_batch_at)
    case (fresh p)
    then have p: "key_ok k" "pr_key p = k" "wr m k s = None"
      "\<forall>t w. wr m k t = Some w \<longrightarrow> w_start_timestamp w = s \<longrightarrow> w_op w = Rollback"
      "payload_ok m k s (case lock_kind m k of None \<Rightarrow> Delete | Some op \<Rightarrow> op)"
      "pr_remove_default_value p = (lock_kind m k = Some Put)"
      by (auto simp: prepare_intent_rollback_Inr split: option.splits)
    then have "dv m' k s = None" "lk m' k = None" "wr m' k = (wr m k)(s \<mapsto> rollback_write s)"
      using fresh(2)
      by (auto simp: same_at_def mvcc_views rollback_write_def payload_ok_def
          split: option.splits WriteKind.splits)
    moreover have "writes_ok m' k" using inv' by (simp add: mvcc_inv_def key_inv_def)
    ultimately show ?thesis
      using p by (auto simp: prepare_intent_rollback_Inr rollback_write_def)
  next
    case replay
    then show ?thesis using prepare_intent_rollback_same_at [OF replay(2)] by simp
  qed
  then have "try_filter_map (prepare_intent_rollback m' txn s) (bt_keys keys) = Inr []"
    by (intro try_filter_map_None) auto
  moreover have "validate_commit_preflight_metadata txn s = Inr () \<and> \<not> bt_is_empty keys"
    using assms(2) by (cases rule: rollback_intents_batch_cases) (simp_all add: validate_preflight_Inr)
  ultimately show ?thesis by (simp add: rollback_intents_batch_def)
qed

lemma count_applied_all:
  fixes n :: nat
  assumes "\<And>k mu. (k, mu) \<in> set xs \<Longrightarrow> is_exactly_applied m k mu s c = Inr True"
  shows "try_fold (\<lambda>applied (k, mu). and_then (is_exactly_applied m k mu s c) (\<lambda>b.
       Inr (if b then applied + 1 else applied))) n xs = Inr (n + length xs)"
  using assms by (induction xs arbitrary: n) (auto split: prod.splits)

lemma commit_batch_at:
  assumes "commit_batch m txn s c mus = (Inr n, m')" and "bt_get mus k = Some mu"
  obtains (fresh) "publishable m txn s c k mu" "s \<noteq> 0" "s < c"
      "same_at k m' (publish_mutation txn s c (k, mu) m)"
  | (replay) "is_exactly_applied m k mu s c = Inr True" "m' = m"
  using assms(1)
proof (cases rule: commit_batch_cases)
  case empty
  with assms(2) show ?thesis by (simp add: bt_is_empty_iff)
next
  case replay
  with assms(2) that(2) show ?thesis by (simp add: validate_batch_replay_Inr(1))
next
  case ok
  have "(k, mu) \<in> set (bt_iter mus)" using assms(2) by (simp add: bt.iter_mem)
  from publications.fold_own [OF iter_keys_distinct this, of txn s c m]
  have "same_at k m' (publish_mutation txn s c (k, mu) m)" unfolding ok(2) by simp
  with ok assms(2) that(1) show ?thesis by blast
qed simp

lemma commit_batch_Inr_checked:
  "commit_batch m txn s c mus = (Inr n, m') \<Longrightarrow> validate_commit_metadata txn s c = Inr () \<and>
     (\<forall>k mu. bt_get mus k = Some mu \<longrightarrow> validate_mutation m k mu s = Inr ()) \<and> n = bt_len mus"
proof -
  assume a: "commit_batch m txn s c mus = (Inr n, m')"
  then have "validate_commit_metadata txn s c = Inr () \<and>
     (\<forall>k mu. bt_get mus k = Some mu \<longrightarrow> validate_mutation m k mu s = Inr ())"
    by (auto simp: commit_batch_def and_then_eq_Inr try_each_eq_Inr Ball_def split_paired_All
        bt.iter_mem split: sum.splits)
  moreover have "n = bt_len mus"
    using a by (cases rule: commit_batch_cases) (simp_all add: bt_len_def bt_is_empty_def)
  ultimately show ?thesis by blast
qed

lemma commit_batch_replay:
  assumes "mvcc_inv m" and "commit_batch m txn s c mus = (Inr n, m')"
  shows "commit_batch m' txn s c mus = (Inr n, m')"
proof (cases "bt_is_empty mus")
  case True
  then show ?thesis
    using commit_batch_Inr_checked [OF assms(2)]
    by (simp add: commit_batch_def bt_is_empty_def bt_len_def)
next
  case False
  note ch = commit_batch_Inr_checked [OF assms(2)]
  have "is_exactly_applied m' k mu s c = Inr True \<and> validate_mutation m' k mu s = Inr ()"
    if k: "bt_get mus k = Some mu" for k mu
    using assms(2) k
  proof (cases rule: commit_batch_at)
    case fresh
    then have "wr m' k c = Some (commit_write s c (write_kind mu))" "dv m' k s = mutation_row mu"
      by (auto simp: same_at_def publish_mutation_view commit_write_def mutation_row_def
          publishable_def validate_mutation_Inr split: Mutation.splits)
    then show ?thesis
      using fresh by (auto simp: is_exactly_applied_Inr validate_mutation_Inr publishable_def
          commit_write_def write_ok_def)
  next
    case replay
    with ch k show ?thesis by blast
  qed
  then have all: "\<And>k mu. (k, mu) \<in> set (bt_iter mus) \<Longrightarrow>
      is_exactly_applied m' k mu s c = Inr True \<and> validate_mutation m' k mu s = Inr ()"
    by (simp add: bt.iter_mem)
  then have "validate_batch_replay m' mus s c = Inr True"
    using count_applied_all [of "bt_iter mus" m' s c 0] False
    by (simp add: validate_batch_replay_def bt_len_def bt_is_empty_def)
  moreover have "try_each (\<lambda>(k, mu). validate_mutation m' k mu s) (bt_iter mus) = Inr ()"
    using all by (auto simp: try_each_eq_Inr)
  ultimately show ?thesis using ch False by (simp add: commit_batch_def)
qed

section \<open>Rollback markers fence their transaction\<close>

definition fenced :: "InMemoryMvcc \<Rightarrow> bytes \<Rightarrow> Timestamp \<Rightarrow> bool" where
  "fenced m k s \<longleftrightarrow> (\<exists>w. wr m k s = Some w \<and> w_start_timestamp w = s \<and> w_op w = Rollback)"

lemma rollback_intents_batch_fences:
  assumes "rollback_intents_batch m txn s keys = (Inr (), m')" and "bt_contains_key keys k"
  shows "fenced m' k s"
  using assms
proof (cases rule: rollback_intents_batch_at)
  case (fresh p)
  then show ?thesis
    by (auto simp: fenced_def same_at_def mvcc_views prepare_intent_rollback_key)
next
  case replay
  then show ?thesis
    by (auto simp: fenced_def same_at_def prepare_intent_rollback_Inr split: option.splits)
qed

lemma fenced_steps:
  assumes "mvcc_inv m" and "mvcc_step\<^sup>*\<^sup>* m m'" and "fenced m k s"
  shows "fenced m' k s"
  by (rule mvcc_system.steps_preserve [where P = "\<lambda>m. fenced m k s", OF assms(2,1,3)])
    (auto simp: fenced_def dest: wr_append_only)

lemma fenced_no_history:
  assumes "key_inv m k" and "fenced m k s"
  shows "validate_write_history m k s = Inl WriteConflict"
    and "wr m k t = Some w \<Longrightarrow> w_start_timestamp w = s \<Longrightarrow> t = s"
    and "lk m k = Some l \<Longrightarrow> l_start_timestamp l \<noteq> s"
proof -
  note i = key_invD [OF assms(1)]
  from assms(2) obtain w0 where w0: "wr m k s = Some w0" "w_start_timestamp w0 = s" "w_op w0 = Rollback"
    by (auto simp: fenced_def)
  then have "\<not> unfenced m k s" by (auto simp: unfenced_def)
  with i(1) show "validate_write_history m k s = Inl WriteConflict"
    by (simp add: validate_write_history_eq)
  show "t = s" if "wr m k t = Some w" "w_start_timestamp w = s"
    by (rule i(5) [unfolded one_outcome_def, rule_format, OF that(1) w0(1)]) (simp add: that w0)
  show "l_start_timestamp l \<noteq> s" if "lk m k = Some l"
    using i(3) [OF that] w0 unfolding lock_inv_def by metis
qed

lemma fenced_prewrite_batch:
  assumes "mvcc_inv m" and "fenced m k s" and "bt_get mus k = Some mu"
  shows "\<exists>e. prewrite_batch m txn s mus pk ttl = (Inl e, m)"
proof -
  obtain r m' where r: "prewrite_batch m txn s mus pk ttl = (r, m')" by (cases "prewrite_batch m txn s mus pk ttl")
  then show ?thesis
  proof (cases rule: prewrite_batch_cases)
    case (ok ps)
    have h: "validate_write_history m k s = Inl WriteConflict"
      using assms fenced_no_history(1) unfolding mvcc_inv_def by blast
    have "prewrite_batch m txn s mus pk ttl = (Inr (), m')" using r ok(1) by simp
    then show ?thesis
      using assms(3) by (cases rule: prewrite_batch_at) (auto simp: prepare_prewrite_Inr h)
  qed (use r in auto)
qed

lemma fenced_commit_intents_batch:
  assumes "mvcc_inv m" and "fenced m k s" and "bt_contains_key keys k"
  shows "\<exists>e. commit_intents_batch m txn s c keys = (Inl e, m)"
proof -
  obtain r m' where r: "commit_intents_batch m txn s c keys = (r, m')"
    by (cases "commit_intents_batch m txn s c keys")
  then show ?thesis
  proof (cases rule: commit_intents_batch_cases)
    case (ok ps)
    have inv: "key_inv m k" using assms(1) by (simp add: mvcc_inv_def)
    note n = fenced_no_history [OF inv assms(2)]
    have "commit_intents_batch m txn s c keys = (Inr (), m')" using r ok(1) by simp
    then have False
      using assms(3)
    proof (cases rule: commit_intents_batch_at)
      case (fresh p)
      with n(3) show False by (auto elim!: prepare_intent_commit_Some)
    next
      case replay
      then obtain w where "wr m k c = Some w" "w_start_timestamp w = s"
        by (auto simp: prepare_intent_commit_None)
      from n(2) [OF this] ok(5) show False by simp
    qed
    then show ?thesis ..
  qed (use r in auto)
qed

lemma fenced_commit_batch:
  assumes "mvcc_inv m" and "fenced m k s" and "bt_get mus k = Some mu"
  shows "\<exists>e. commit_batch m txn s c mus = (Inl e, m)"
proof -
  obtain r m' where r: "commit_batch m txn s c mus = (r, m')" by (cases "commit_batch m txn s c mus")
  show ?thesis
  proof (cases r)
    case (Inl e)
    with r show ?thesis by (auto elim: commit_batch_cases)
  next
    case (Inr n)
    have inv: "key_inv m k" using assms(1) by (simp add: mvcc_inv_def)
    note n = fenced_no_history [OF inv assms(2)]
    from Inr r have ok: "commit_batch m txn s c mus = (Inr n, m')" by simp
    then have False
      using assms(3)
    proof (cases rule: commit_batch_at)
      case fresh
      with n(1) show False by (simp add: publishable_def)
    next
      case replay
      then obtain w where "wr m k c = Some w" "w_start_timestamp w = s"
        by (auto simp: is_exactly_applied_Inr split: option.splits)
      from n(2) [OF this] commit_batch_Inr_checked [OF ok] show False
        by (simp add: validate_metadata_Inr)
    qed
    then show ?thesis ..
  qed
qed

end
