(* ===== verification/Mvcc_Props.thy ===== *)
theory Mvcc_Props
  imports Mvcc_Replay
begin

text \<open>
  The properties of the MVCC engine, stated over its maps and operations, with witnesses on a
  small concrete execution.
\<close>

section \<open>A concrete execution\<close>

definition demo_key :: bytes where "demo_key = [1, 0, 0, 0, 0, 0, 0, 0, 1, 0x30, 1]"
definition demo_key2 :: bytes where "demo_key2 = [1, 0, 0, 0, 0, 0, 0, 0, 1, 0x30, 0]"
definition demo_row :: bytes where "demo_row = [1, 0, 0, 0, 1, 3, 1]"

definition demo_mutations :: mutations where
  "demo_mutations = bt_insert demo_key (PutMutation demo_row) (bt_insert demo_key2 DeleteMutation bt_new)"

definition demo_keys :: key_set where
  "demo_keys = bt_insert demo_key () (bt_insert demo_key2 () bt_new)"

definition demo_prewritten :: InMemoryMvcc where
  "demo_prewritten = snd (prewrite_batch InMemoryMvcc_new 7 5 demo_mutations demo_key 1000)"

definition demo_committed :: InMemoryMvcc where
  "demo_committed = snd (commit_intents_batch demo_prewritten 7 5 9 demo_keys)"

definition demo_rolled_back :: InMemoryMvcc where
  "demo_rolled_back = snd (rollback_intents_batch demo_prewritten 7 5 demo_keys)"

definition demo_relocked :: InMemoryMvcc where
  "demo_relocked = snd (prewrite demo_committed 8 12 demo_key DeleteMutation demo_key 50)"

lemma demo_prewrite: "prewrite_batch InMemoryMvcc_new 7 5 demo_mutations demo_key 1000 = (Inr (), demo_prewritten)"
proof -
  have "fst (prewrite_batch InMemoryMvcc_new 7 5 demo_mutations demo_key 1000) = Inr ()" by code_simp
  then show ?thesis by (simp add: demo_prewritten_def prod_eq_iff)
qed

lemma demo_commit: "commit_intents_batch demo_prewritten 7 5 9 demo_keys = (Inr (), demo_committed)"
proof -
  have "fst (commit_intents_batch demo_prewritten 7 5 9 demo_keys) = Inr ()" by code_simp
  then show ?thesis by (simp add: demo_committed_def prod_eq_iff)
qed

lemma demo_rollback: "rollback_intents_batch demo_prewritten 7 5 demo_keys = (Inr (), demo_rolled_back)"
proof -
  have "fst (rollback_intents_batch demo_prewritten 7 5 demo_keys) = Inr ()" by code_simp
  then show ?thesis by (simp add: demo_rolled_back_def prod_eq_iff)
qed

lemma demo_relock: "prewrite demo_committed 8 12 demo_key DeleteMutation demo_key 50 = (Inr (), demo_relocked)"
proof -
  have "fst (prewrite demo_committed 8 12 demo_key DeleteMutation demo_key 50) = Inr ()" by code_simp
  then show ?thesis by (simp add: demo_relocked_def prod_eq_iff)
qed

lemma demo_reachable:
  "mvcc_reachable demo_prewritten" "mvcc_reachable demo_committed"
  "mvcc_reachable demo_rolled_back" "mvcc_reachable demo_relocked"
proof -
  show 1: "mvcc_reachable demo_prewritten"
    using mvcc_reachable_new step_prewrite_batch [OF demo_prewrite] by (rule mvcc_reachable_step)
  show 2: "mvcc_reachable demo_committed"
    using 1 step_commit_intents_batch [OF demo_commit] by (rule mvcc_reachable_step)
  show "mvcc_reachable demo_rolled_back"
    using 1 step_rollback_intents_batch [OF demo_rollback] by (rule mvcc_reachable_step)
  show "mvcc_reachable demo_relocked"
    using 2 step_prewrite [OF demo_relock] by (rule mvcc_reachable_step)
qed

section \<open>Reads\<close>

text \<open>
  C1. A read returns exactly the snapshot: in every reachable state, a read of a valid key at
  a timestamp either reports the conflict with a lock that started at or before the snapshot,
  or returns the value of the latest version committed at or before it (absent after a
  tombstone, rolled-back transactions skipped). It never reports corruption.
\<close>

theorem read_refines_history:
  assumes "mvcc_reachable m"
  shows "mvcc_read m k r =
    (if \<not> is_ok (decode_row_key k) then Inl InvalidArgument
     else if \<exists>lock. bt_get (m_locks m) k = Some lock \<and> l_start_timestamp lock \<le> r
     then Inl WriteConflict
     else Inr (snapshot_value (history m k) r))"
proof -
  have "key_inv m k" using reachable_mvcc_inv [OF assms] by (simp add: mvcc_inv_def)
  note read = read_visible_version_eq [OF key_invD(1,2) [OF this]]
  show ?thesis
  proof (cases "is_ok (decode_row_key k)")
    case True
    then have "validate_encoded_key_argument k = Inr ()" by (simp add: validate_key_iff key_ok_def)
    with True read show ?thesis by (simp add: mvcc_read_def lk_def)
  next
    case False
    then have "validate_encoded_key_argument k = Inl InvalidArgument"
      by (auto simp: not_is_ok_iff validate_encoded_key_argument_def)
    with False show ?thesis by (simp add: mvcc_read_def)
  qed
qed

theorem read_refines_history_witness:
  "mvcc_read demo_relocked demo_key 10 = Inr (snapshot_value (history demo_relocked demo_key) 10) \<and>
   mvcc_read demo_relocked demo_key 10 = Inr (Some demo_row) \<and>
   mvcc_read demo_relocked demo_key 12 = Inl WriteConflict"
proof -
  note w = read_refines_history [OF demo_reachable(4), of demo_key]
  have "is_ok (decode_row_key demo_key)" by code_simp
  moreover have "mvcc_read demo_relocked demo_key 10 = Inr (Some demo_row)" by code_simp
  moreover have "mvcc_read demo_relocked demo_key 12 = Inl WriteConflict" by code_simp
  ultimately show ?thesis using w [of 10] by (auto split: if_splits)
qed

text \<open>Steps whose commits, if any, are above a given snapshot.\<close>

inductive mvcc_step_after :: "Timestamp \<Rightarrow> InMemoryMvcc \<Rightarrow> InMemoryMvcc \<Rightarrow> bool" for r where
  after_prewrite: "prewrite m txn s k mu pk ttl = (res, m') \<Longrightarrow> mvcc_step_after r m m'"
| after_prewrite_batch: "prewrite_batch m txn s mus pk ttl = (res, m') \<Longrightarrow> mvcc_step_after r m m'"
| after_commit_intent: "commit_intent m txn s c k = (res, m') \<Longrightarrow> r < c \<Longrightarrow> mvcc_step_after r m m'"
| after_commit_intents_batch:
    "commit_intents_batch m txn s c keys = (res, m') \<Longrightarrow> r < c \<Longrightarrow> mvcc_step_after r m m'"
| after_rollback_intent: "rollback_intent m txn s k = (res, m') \<Longrightarrow> mvcc_step_after r m m'"
| after_rollback_intents_batch:
    "rollback_intents_batch m txn s keys = (res, m') \<Longrightarrow> mvcc_step_after r m m'"
| after_commit_batch: "commit_batch m txn s c mus = (n, m') \<Longrightarrow> r < c \<Longrightarrow> mvcc_step_after r m m'"

lemma step_after_step: "mvcc_step_after r m m' \<Longrightarrow> mvcc_step m m'"
  by (induction rule: mvcc_step_after.induct) (blast intro: mvcc_step.intros)+

lemma commit_history_above:
  assumes "commit_intents_batch m txn s c keys = (res, m')" and "r < c" and "t \<le> r"
  shows "history m' k t = history m k t"
  using assms(1)
proof (cases rule: commit_intents_batch_cases)
  case (ok ps)
  then have "commit_intents_batch m txn s c keys = (Inr (), m')" using assms(1) by simp
  from commit_intents_batch_history [OF this] assms(2,3) show ?thesis by (auto simp: install_def)
qed simp

lemma commit_batch_history_above:
  assumes "mvcc_inv m" and "commit_batch m txn s c mus = (res, m')" and "r < c" and "t \<le> r"
  shows "history m' k t = history m k t"
proof (cases res)
  case (Inl e)
  have "m' = m" using assms(2) Inl by (cases rule: commit_batch_cases) simp_all
  then show ?thesis by simp
next
  case (Inr n)
  then have "commit_batch m txn s c mus = (Inr n, m')" using assms(2) by simp
  from commit_batch_history [OF assms(1) this] assms(3,4) show ?thesis by (auto simp: install_def)
qed

lemma step_after_history:
  "mvcc_step_after r m m' \<Longrightarrow> mvcc_inv m \<Longrightarrow> t \<le> r \<Longrightarrow> history m' k t = history m k t"
  by (induction rule: mvcc_step_after.induct)
    (simp_all add: prewrite_as_batch commit_intent_as_batch rollback_intent_as_batch
      prewrite_batch_history rollback_intents_batch_history commit_history_above
      commit_batch_history_above)

lemma steps_after_history:
  assumes "(mvcc_step_after r)\<^sup>*\<^sup>* m m'" and "mvcc_inv m"
  shows "mvcc_inv m' \<and> (\<forall>t \<le> r. history m' k t = history m k t)"
  using assms
proof (induction rule: rtranclp_induct)
  case (step m' m'')
  then show ?case
    using mvcc_system.step_inv step_after_step step_after_history by metis
qed simp

text \<open>
  C2. Snapshots are stable: whatever operations run, as long as they commit only above the
  snapshot, the outcome of a later read of a row that was readable at the snapshot is fixed. It
  is a conflict exactly when the row then holds an intent that started at or before the
  snapshot, and otherwise it is the very value of the first read; intents of transactions that
  started later never disturb it.
\<close>

theorem repeatable_read:
  assumes "mvcc_reachable m" and "(mvcc_step_after r)\<^sup>*\<^sup>* m m'" and "mvcc_read m k r = Inr v"
  shows "mvcc_read m' k r =
    (if \<exists>lock. bt_get (m_locks m') k = Some lock \<and> l_start_timestamp lock \<le> r
     then Inl WriteConflict else Inr v)"
proof -
  have inv: "mvcc_inv m" using assms(1) by (rule reachable_mvcc_inv)
  note s = steps_after_history [OF assms(2) inv, of k]
  have key: "validate_encoded_key_argument k = Inr ()"
    using assms(3) by (auto simp: mvcc_read_def and_then_eq_Inr)
  have read: "mvcc_read n k r =
      (if \<exists>lock. lk n k = Some lock \<and> l_start_timestamp lock \<le> r then Inl WriteConflict
       else Inr (snapshot_value (history n k) r))" if "mvcc_inv n" for n
    using that read_visible_version_eq key
    by (simp add: mvcc_read_def mvcc_inv_def key_inv_def)
  have "snapshot_value (history m' k) r = snapshot_value (history m k) r"
    unfolding snapshot_value_def using s by (intro arg_cong2 [where f = Option.bind] latest_le_cong) auto
  moreover have "v = snapshot_value (history m k) r"
    using assms(3) unfolding read [OF inv] by (simp split: if_splits)
  ultimately show ?thesis using read s by (simp add: lk_def)
qed

theorem repeatable_read_witness:
  "mvcc_read demo_relocked demo_key 11 = Inr (Some demo_row)"
proof -
  have steps: "(mvcc_step_after 11)\<^sup>*\<^sup>* demo_committed demo_relocked"
    using after_prewrite [OF demo_relock] by (rule r_into_rtranclp)
  have read: "mvcc_read demo_committed demo_key 11 = Inr (Some demo_row)" by code_simp
  have "bt_get (m_locks demo_relocked) demo_key =
      Some \<lparr>l_txn_id = 8, l_primary_key = demo_key, l_start_timestamp = 12, l_ttl_ms = 50, l_op = Delete\<rparr>"
    by code_simp
  with repeatable_read [OF demo_reachable(2) steps read] show ?thesis by simp
qed

section \<open>Conflicts between transactions\<close>

text \<open>
  C3. First committer wins: in every reachable state, of two transactions committed on the
  same row, the later one started at or after the earlier one committed. So no committed
  update was computed from a snapshot that another committed update had overwritten.
\<close>

theorem no_lost_updates:
  assumes "mvcc_reachable m"
    and "get2 (m_writes m) k t1 = Some w1" and "get2 (m_writes m) k t2 = Some w2"
    and "w_op w1 \<noteq> Rollback" and "w_op w2 \<noteq> Rollback" and "t1 < t2"
  shows "t1 \<le> w_start_timestamp w2"
  using reachable_mvcc_inv [OF assms(1)] assms(2-)
  unfolding mvcc_inv_def key_inv_def first_committer_def wr_def by blast

theorem no_lost_updates_witness:
  "9 \<le> w_start_timestamp \<lparr>w_start_timestamp = 12, w_commit_timestamp = 20, w_op = Delete\<rparr>"
proof (rule no_lost_updates [where ?t1.0 = 9 and ?t2.0 = 20 and k = demo_key
      and ?w1.0 = "\<lparr>w_start_timestamp = 5, w_commit_timestamp = 9, w_op = Put\<rparr>"])
  show "mvcc_reachable (snd (commit_intent demo_relocked 8 12 20 demo_key))"
    using demo_reachable(4) step_commit_intent [OF surjective_pairing] by (rule mvcc_reachable_step)
  show "get2 (m_writes (snd (commit_intent demo_relocked 8 12 20 demo_key))) demo_key 9 =
      Some \<lparr>w_start_timestamp = 5, w_commit_timestamp = 9, w_op = Put\<rparr>" by code_simp
  show "get2 (m_writes (snd (commit_intent demo_relocked 8 12 20 demo_key))) demo_key 20 =
      Some \<lparr>w_start_timestamp = 12, w_commit_timestamp = 20, w_op = Delete\<rparr>" by code_simp
qed simp_all

section \<open>Commits, prewrites and rollbacks\<close>

text \<open>
  C17. A successful commit extends the committed history by exactly its own writes at its
  commit timestamp: an intent commit installs the prewritten payload of each key, a local
  batch commit installs each mutation, and nothing else of the history changes.
\<close>

theorem commits_extend_history:
  assumes "mvcc_reachable m"
  shows "(commit_intents_batch m txn s c keys = (Inr (), m') \<longrightarrow>
      history m' = install (\<lambda>k. if bt_contains_key keys k then Some (get2 (m_default m) k s) else None)
        c (history m)) \<and>
    (commit_batch m txn s c mus = (Inr n, m') \<longrightarrow>
      history m' = install (\<lambda>k. map_option mutation_row (bt_get mus k)) c (history m))"
  using commit_intents_batch_history [of m txn s c keys m', unfolded dv_def]
    commit_batch_history [OF reachable_mvcc_inv [OF assms], of txn s c mus n m']
  by blast

theorem commits_extend_history_witness:
  "history demo_committed =
     install (\<lambda>k. if bt_contains_key demo_keys k then Some (get2 (m_default demo_prewritten) k 5) else None)
       9 (history demo_prewritten) \<and>
   history (snd (commit_batch InMemoryMvcc_new 7 5 9 demo_mutations)) =
     install (\<lambda>k. map_option mutation_row (bt_get demo_mutations k)) 9 (history InMemoryMvcc_new)"
proof
  show "history demo_committed =
     install (\<lambda>k. if bt_contains_key demo_keys k then Some (get2 (m_default demo_prewritten) k 5) else None)
       9 (history demo_prewritten)"
    using commits_extend_history [OF demo_reachable(1)] demo_commit by blast
  have "fst (commit_batch InMemoryMvcc_new 7 5 9 demo_mutations) = Inr 2" by code_simp
  then have "commit_batch InMemoryMvcc_new 7 5 9 demo_mutations =
      (Inr 2, snd (commit_batch InMemoryMvcc_new 7 5 9 demo_mutations))"
    by (simp add: prod_eq_iff)
  then show "history (snd (commit_batch InMemoryMvcc_new 7 5 9 demo_mutations)) =
     install (\<lambda>k. map_option mutation_row (bt_get demo_mutations k)) 9 (history InMemoryMvcc_new)"
    using commits_extend_history [OF mvcc_reachable_new] by blast
qed

text \<open>
  C18. Uncommitted work never shows in the committed history: prewrites and rollbacks of any
  batch, successful or not, leave it exactly as it was.
\<close>

theorem uncommitted_work_invisible:
  assumes "mvcc_reachable m"
  shows "history (snd (prewrite_batch m txn s mus pk ttl)) = history m \<and>
    history (snd (rollback_intents_batch m txn s keys)) = history m"
  using prewrite_batch_history [OF reachable_mvcc_inv [OF assms] surjective_pairing]
    rollback_intents_batch_history [OF surjective_pairing]
  by blast

theorem uncommitted_work_invisible_witness:
  "history (snd (prewrite_batch demo_committed 9 15 demo_mutations demo_key 10)) = history demo_committed \<and>
   history (snd (rollback_intents_batch demo_committed 9 15 demo_keys)) = history demo_committed"
  by (rule uncommitted_work_invisible [OF demo_reachable(2)])

lemma prepare_ready:
  assumes inv: "key_inv m k" and l: "lk m k = Some l" "l_txn_id l = txn" "l_start_timestamp l = s"
    and top: "\<And>t w. wr m k t = Some w \<Longrightarrow> t < c"
  shows "\<exists>p. prepare_intent_commit m txn s c k = Inr (Some p)"
proof -
  note i = key_invD [OF inv]
  have li: "lock_inv m k l" using i(3) l(1) .
  have "key_ok k" using i(7) l(1) by (simp add: populated_def)
  then have k: "validate_encoded_key_argument k = Inr ()" by (simp add: validate_key_iff)
  have c: "get2 (m_writes m) k c = None" using top [of c] by (cases "wr m k c") (auto simp: wr_def)
  have "unfenced m k s"
    using li l(3) i(1) unfolding unfenced_def lock_inv_def writes_ok_def write_ok_def by metis
  then have h: "validate_write_history m k s = Inr ()" by (simp add: validate_write_history_eq i(1))
  have t: "validate_commit_timestamp m k c = Inr ()" using top by (simp add: validate_commit_timestamp_Inr)
  have "payload_ok m k s (l_op l)"
    using li l(3) by (cases "l_op l") (auto simp: lock_inv_def lock_valid_def payload_ok_def)
  then have p: "(case l_op l of
      Put \<Rightarrow> and_then (ok_or (get2 (m_default m) k s) CorruptData) (\<lambda>row.
             and_then (decode_row row) (\<lambda>_. Inr ()))
    | Delete \<Rightarrow> ensure (get2 (m_default m) k s = None) CorruptData
    | Rollback \<Rightarrow> Inl CorruptData) = Inr ()"
    by (simp only: payload_check_Inr)
  show ?thesis
    using l(1) by (simp add: prepare_intent_commit_def k c l(2,3) p h t lk_def)
qed

text \<open>
  C12. An installed intent can always be committed: if a transaction holds the lock of every
  key of a batch, then committing the batch at a timestamp above its start and above the
  write records of those keys succeeds, and each key then reads the prewritten payload at the
  commit timestamp.
\<close>

theorem prewritten_intents_commit:
  assumes "mvcc_reachable m" and "\<not> bt_is_empty keys" and "s < c"
    and "\<And>k. bt_contains_key keys k \<Longrightarrow>
      \<exists>l. bt_get (m_locks m) k = Some l \<and> l_txn_id l = txn \<and> l_start_timestamp l = s"
    and "\<And>k t w. bt_contains_key keys k \<Longrightarrow> get2 (m_writes m) k t = Some w \<Longrightarrow> t < c"
  shows "\<exists>m'. commit_intents_batch m txn s c keys = (Inr (), m') \<and>
    (\<forall>k. bt_contains_key keys k \<longrightarrow> mvcc_read m' k c = Inr (get2 (m_default m) k s))"
proof -
  have inv: "mvcc_inv m" using assms(1) by (rule reachable_mvcc_inv)
  have ready: "\<exists>p. prepare_intent_commit m txn s c k = Inr (Some p)" if "bt_contains_key keys k" for k
    using assms(4) [OF that] inv prepare_ready assms(5) [OF that] unfolding mvcc_inv_def lk_def wr_def
    by metis
  then obtain ps where ps: "try_filter_map (prepare_intent_commit m txn s c) (bt_keys keys) = Inr ps"
    using try_filter_map_all_Inr [of "bt_keys keys" "prepare_intent_commit m txn s c"] by fastforce
  obtain k0 where k0: "bt_contains_key keys k0" using assms(2) by (auto simp: bt_is_empty_iff)
  with assms(4) obtain l where l: "lk m k0 = Some l" "l_txn_id l = txn" "l_start_timestamp l = s"
    by (auto simp: lk_def)
  then have "lock_valid l" using inv by (auto simp: mvcc_inv_def key_inv_def lock_inv_def)
  with l have "validate_commit_metadata txn s c = Inr ()"
    using assms(3) by (auto simp: validate_metadata_Inr lock_valid_def)
  with ps assms(2) obtain m' where m': "commit_intents_batch m txn s c keys = (Inr (), m')"
    by (simp add: commit_intents_batch_def)
  have inv': "mvcc_inv m'" using inv m' by (rule commit_intents_batch_inv)
  have "mvcc_read m' k c = Inr (get2 (m_default m) k s)" if k: "bt_contains_key keys k" for k
    using m' k
  proof (cases rule: commit_intents_batch_at)
    case (fresh p)
    have free: "lk m' k = None" and key: "validate_encoded_key_argument k = Inr ()"
      using fresh by (auto simp: same_at_def mvcc_views validate_key_iff elim!: prepare_intent_commit_Some)
    have "history m' k c = Some (dv m k s)"
      using commit_intents_batch_history [OF m'] k by (simp add: install_def)
    then have "snapshot_value (history m' k) c = dv m k s"
      using latest_le_eq [of "history m' k" c] by (simp add: snapshot_value_def)
    with free key inv' show ?thesis
      by (simp add: mvcc_read_def read_visible_version_eq mvcc_inv_def key_inv_def dv_def)
  next
    case replay
    with ready [OF k] show ?thesis by simp
  qed
  with m' show ?thesis by blast
qed

theorem prewritten_intents_commit_witness:
  "\<exists>m'. commit_intents_batch demo_prewritten 7 5 9 demo_keys = (Inr (), m') \<and>
    mvcc_read m' demo_key 9 = Inr (get2 (m_default demo_prewritten) demo_key 5) \<and>
    mvcc_read m' demo_key2 9 = Inr (get2 (m_default demo_prewritten) demo_key2 5)"
proof -
  have ne: "\<not> bt_is_empty demo_keys" by code_simp
  have ks: "bt_contains_key demo_keys k \<Longrightarrow> k = demo_key \<or> k = demo_key2" for k
    by (auto simp: demo_keys_def split: if_splits)
  have "map_option (\<lambda>l. (l_txn_id l, l_start_timestamp l)) (bt_get (m_locks demo_prewritten) demo_key) = Some (7, 5)"
    "map_option (\<lambda>l. (l_txn_id l, l_start_timestamp l)) (bt_get (m_locks demo_prewritten) demo_key2) = Some (7, 5)"
    by code_simp+
  then have locks: "bt_contains_key demo_keys k \<Longrightarrow>
      \<exists>l. bt_get (m_locks demo_prewritten) k = Some l \<and> l_txn_id l = 7 \<and> l_start_timestamp l = 5" for k
    using ks [of k] by auto
  have "m_writes demo_prewritten = bt_new" by code_simp
  then have tops: "bt_contains_key demo_keys k \<Longrightarrow> get2 (m_writes demo_prewritten) k t = Some w \<Longrightarrow> t < 9"
    for k t w by simp
  have "bt_contains_key demo_keys demo_key" "bt_contains_key demo_keys demo_key2" by code_simp+
  moreover have "\<exists>m'. commit_intents_batch demo_prewritten 7 5 9 demo_keys = (Inr (), m') \<and>
    (\<forall>k. bt_contains_key demo_keys k \<longrightarrow> mvcc_read m' k 9 = Inr (get2 (m_default demo_prewritten) k 5))"
    by (rule prewritten_intents_commit [OF demo_reachable(1) ne]) (simp, fact locks, fact tops)
  ultimately show ?thesis by blast
qed

text \<open>
  C6. A rollback is final: once the rollback of a batch has succeeded, then after any later
  operations every prewrite, intent commit or batch commit with that start timestamp that
  touches one of the rolled-back keys is rejected and changes nothing.
\<close>

theorem rollback_is_final:
  assumes "mvcc_reachable m" and "rollback_intents_batch m txn s keys = (Inr (), m1)"
    and "bt_contains_key keys k" and "mvcc_step\<^sup>*\<^sup>* m1 m2"
  shows "(bt_contains_key mus k \<longrightarrow> (\<exists>e. prewrite_batch m2 txn' s mus pk ttl = (Inl e, m2))) \<and>
    (bt_contains_key keys' k \<longrightarrow> (\<exists>e. commit_intents_batch m2 txn' s c keys' = (Inl e, m2))) \<and>
    (bt_contains_key mus k \<longrightarrow> (\<exists>e. commit_batch m2 txn' s c mus = (Inl e, m2)))"
proof -
  have inv1: "mvcc_inv m1"
    using reachable_mvcc_inv [OF assms(1)] assms(2) by (rule rollback_intents_batch_inv)
  have inv2: "mvcc_inv m2" using assms(4) inv1 by (rule mvcc_system.steps_inv)
  have f: "fenced m2 k s"
    using inv1 assms(4) rollback_intents_batch_fences [OF assms(2,3)] by (rule fenced_steps)
  show ?thesis
    using fenced_prewrite_batch [OF inv2 f] fenced_commit_intents_batch [OF inv2 f]
      fenced_commit_batch [OF inv2 f]
    by (auto simp del: bt_contains_key_iff simp: bt_contains_key_def split: option.splits)
qed

theorem rollback_is_final_witness:
  "(\<exists>e. prewrite_batch demo_rolled_back 7 5 demo_mutations demo_key 10 = (Inl e, demo_rolled_back)) \<and>
   (\<exists>e. commit_intents_batch demo_rolled_back 7 5 9 demo_keys = (Inl e, demo_rolled_back)) \<and>
   (\<exists>e. commit_batch demo_rolled_back 7 5 9 demo_mutations = (Inl e, demo_rolled_back))"
proof -
  have k: "bt_contains_key demo_keys demo_key" "bt_contains_key demo_mutations demo_key"
    by code_simp+
  show ?thesis
    using rollback_is_final [OF demo_reachable(1) demo_rollback k(1) rtranclp.rtrancl_refl,
        of demo_mutations 7 demo_key 10 demo_keys 9] k by blast
qed

text \<open>
  C19. The write log is append-only: no sequence of operations changes or removes a commit or
  rollback record that is present in a reachable state.
\<close>

theorem write_log_append_only:
  assumes "mvcc_reachable m" and "mvcc_step\<^sup>*\<^sup>* m m'" and "get2 (m_writes m) k t = Some w"
  shows "get2 (m_writes m') k t = Some w"
  using mvcc_system.steps_preserve [where P = "\<lambda>m. wr m k t = Some w", OF assms(2)]
    reachable_mvcc_inv [OF assms(1)] assms(3) wr_append_only
  unfolding wr_def by blast

theorem write_log_append_only_witness:
  "get2 (m_writes demo_relocked) demo_key 9 =
     Some \<lparr>w_start_timestamp = 5, w_commit_timestamp = 9, w_op = Put\<rparr>"
proof (rule write_log_append_only [OF demo_reachable(2)])
  show "mvcc_step\<^sup>*\<^sup>* demo_committed demo_relocked"
    using step_prewrite [OF demo_relock] by (rule r_into_rtranclp)
  show "get2 (m_writes demo_committed) demo_key 9 =
     Some \<lparr>w_start_timestamp = 5, w_commit_timestamp = 9, w_op = Put\<rparr>" by code_simp
qed

text \<open>
  C20. Every mutating call is all or nothing: when it reports an error, the maps are exactly
  what they were before the call. This holds for the three single-key calls and for the four
  batch calls, even when earlier keys of the batch were valid.
\<close>

theorem failed_call_changes_nothing:
  "(prewrite m txn s k mu pk ttl = (Inl e, m') \<longrightarrow> m' = m) \<and>
   (commit_intent m txn s c k = (Inl e, m') \<longrightarrow> m' = m) \<and>
   (rollback_intent m txn s k = (Inl e, m') \<longrightarrow> m' = m) \<and>
   (prewrite_batch m txn s mus pk ttl = (Inl e, m') \<longrightarrow> m' = m) \<and>
   (commit_intents_batch m txn s c keys = (Inl e, m') \<longrightarrow> m' = m) \<and>
   (rollback_intents_batch m txn s keys = (Inl e, m') \<longrightarrow> m' = m) \<and>
   (commit_batch m txn s c mus = (Inl e, m') \<longrightarrow> m' = m)"
proof -
  have prewrites: "m' = m" if "prewrite_batch m txn s mus pk ttl = (Inl e, m')" for mus
    using that by (cases rule: prewrite_batch_cases) simp_all
  have commits: "m' = m" if "commit_intents_batch m txn s c keys = (Inl e, m')" for keys
    using that by (cases rule: commit_intents_batch_cases) simp_all
  have rollbacks: "m' = m" if "rollback_intents_batch m txn s keys = (Inl e, m')" for keys
    using that by (cases rule: rollback_intents_batch_cases) simp_all
  have "m' = m" if "commit_batch m txn s c mus = (Inl e, m')"
    using that by (cases rule: commit_batch_cases) simp_all
  with prewrites commits rollbacks show ?thesis
    unfolding prewrite_as_batch commit_intent_as_batch rollback_intent_as_batch by blast
qed

text \<open>The witness has a single prewrite and a batch whose first key is valid, both on a locked key.\<close>

theorem failed_call_changes_nothing_witness:
  "prewrite demo_relocked 9 30 demo_key DeleteMutation demo_key 50 = (Inl WriteConflict, demo_relocked) \<and>
   commit_batch demo_relocked 9 30 40 demo_mutations = (Inl WriteConflict, demo_relocked)"
proof -
  have "fst (commit_batch demo_relocked 9 30 40 demo_mutations) = Inl WriteConflict" by code_simp
  then have b: "commit_batch demo_relocked 9 30 40 demo_mutations =
      (Inl WriteConflict, snd (commit_batch demo_relocked 9 30 40 demo_mutations))"
    by (simp add: prod_eq_iff)
  have "fst (prewrite demo_relocked 9 30 demo_key DeleteMutation demo_key 50) = Inl WriteConflict"
    by code_simp
  then have p: "prewrite demo_relocked 9 30 demo_key DeleteMutation demo_key 50 =
      (Inl WriteConflict, snd (prewrite demo_relocked 9 30 demo_key DeleteMutation demo_key 50))"
    by (simp add: prod_eq_iff)
  show ?thesis using failed_call_changes_nothing b p by metis
qed

text \<open>
  C21. Replaying a call that succeeded succeeds again with the same result and changes
  nothing, for prewrites, intent commits, rollbacks and local batch commits.
\<close>

theorem replay_is_idempotent:
  assumes "mvcc_reachable m"
  shows "(prewrite_batch m txn s mus pk ttl = (Inr (), m') \<longrightarrow>
      prewrite_batch m' txn s mus pk ttl = (Inr (), m')) \<and>
    (commit_intents_batch m txn s c keys = (Inr (), m') \<longrightarrow>
      commit_intents_batch m' txn s c keys = (Inr (), m')) \<and>
    (rollback_intents_batch m txn s keys = (Inr (), m') \<longrightarrow>
      rollback_intents_batch m' txn s keys = (Inr (), m')) \<and>
    (commit_batch m txn s c mus = (Inr n, m') \<longrightarrow> commit_batch m' txn s c mus = (Inr n, m'))"
proof -
  note inv = reachable_mvcc_inv [OF assms]
  show ?thesis
    by (intro conjI impI prewrite_batch_replay [OF inv] commit_intents_batch_replay [OF inv]
        rollback_intents_batch_replay [OF inv] commit_batch_replay [OF inv])
qed

theorem replay_is_idempotent_witness:
  "prewrite_batch demo_prewritten 7 5 demo_mutations demo_key 1000 = (Inr (), demo_prewritten) \<and>
   commit_intents_batch demo_committed 7 5 9 demo_keys = (Inr (), demo_committed) \<and>
   rollback_intents_batch demo_rolled_back 7 5 demo_keys = (Inr (), demo_rolled_back)"
  using replay_is_idempotent [OF mvcc_reachable_new] demo_prewrite
    replay_is_idempotent [OF demo_reachable(1)] demo_commit demo_rollback
  by blast

text \<open>
  C22. A batch call is the sequence of its single-key calls made atomic. For a batch that is
  not empty, running \<^verbatim>\<open>prewrite\<close>, \<^verbatim>\<open>commit_intent\<close> or \<^verbatim>\<open>rollback_intent\<close> for each key in
  key order succeeds exactly when the batch does and ends in the same state, and when the
  sequence stops at a key, the batch reports the very same error and changes nothing. An empty
  batch is refused.
\<close>

theorem batch_is_sequence:
  "prewrite_batch m txn s mus pk ttl =
     (if bt_is_empty mus then (Inl InvalidArgument, m)
      else all_or_nothing m
        (run_each (\<lambda>(k, mu) m. prewrite m txn s k mu pk ttl) (bt_iter mus) m)) \<and>
   commit_intents_batch m txn s c keys =
     (if bt_is_empty keys then (Inl InvalidArgument, m)
      else all_or_nothing m (run_each (\<lambda>k m. commit_intent m txn s c k) (bt_keys keys) m)) \<and>
   rollback_intents_batch m txn s keys =
     (if bt_is_empty keys then (Inl InvalidArgument, m)
      else all_or_nothing m (run_each (\<lambda>k m. rollback_intent m txn s k) (bt_keys keys) m))"
  using prewrite_batch_sequence commit_intents_batch_sequence rollback_intents_batch_sequence
  by blast
section \<open>Allocator observations\<close>

definition default_high :: "InMemoryMvcc \<Rightarrow> Timestamp" where
  "default_high m = fold (\<lambda>versions. fold max (bt_keys versions)) (bt_values (m_default m)) 0"

definition lock_high :: "InMemoryMvcc \<Rightarrow> Timestamp" where
  "lock_high m = fold (\<lambda>lock ts. max ts (l_start_timestamp lock)) (bt_values (m_locks m)) (default_high m)"

lemma high_water_marks_eq:
  "allocator_high_water_marks m =
     (fold (\<lambda>lock txn. max txn (l_txn_id lock)) (bt_values (m_locks m)) 0,
      fold (\<lambda>versions. fold (\<lambda>(c, r) ts. max (max ts c) (w_start_timestamp r)) (bt_iter versions))
        (bt_values (m_writes m)) (lock_high m))"
  by (simp add: allocator_high_water_marks_def fold_max_pair lock_high_def default_high_def)

lemma high_water_chain: "default_high m \<le> lock_high m" "lock_high m \<le> snd (allocator_high_water_marks m)"
proof -
  show "default_high m \<le> lock_high m"
    unfolding lock_high_def by (rule fold_inflate) simp
  have "ts \<le> fold (\<lambda>(c, r) ts. max (max ts c) (w_start_timestamp r)) xs ts" for ts and xs :: "(Timestamp \<times> WriteRecord) list"
    by (rule fold_inflate) (auto simp: le_max_iff_disj)
  then show "lock_high m \<le> snd (allocator_high_water_marks m)"
    unfolding high_water_marks_eq snd_conv by (rule fold_inflate)
qed

lemma default_high_covers: "get2 (m_default m) k s = Some row \<Longrightarrow> s \<le> default_high m"
proof -
  assume "get2 (m_default m) k s = Some row"
  then obtain versions where v: "versions \<in> set (bt_values (m_default m))" "s \<in> set (bt_keys versions)"
    by (auto simp: get2_Some bt_values_mem)
  show ?thesis
    unfolding default_high_def
    by (rule fold_covers [OF _ _ v(1)])
      (auto intro: fold_inflate fold_covers [OF _ _ v(2)])
qed

lemma write_high_covers:
  assumes "get2 (m_writes m) k t = Some w"
  shows "max t (w_start_timestamp w) \<le> snd (allocator_high_water_marks m)"
proof -
  let ?f = "\<lambda>(c, r) ts. max (max ts c) (w_start_timestamp (r :: WriteRecord))"
  from assms obtain versions where v: "versions \<in> set (bt_values (m_writes m))" "(t, w) \<in> set (bt_iter versions)"
    by (auto simp: get2_Some bt_values_mem bt.iter_mem)
  have i: "a \<le> ?f x a" for x a by (cases x) (auto simp: le_max_iff_disj)
  have "max t (w_start_timestamp w) \<le> fold ?f (bt_iter versions) a" for a
    by (rule fold_covers [OF i _ v(2)]) (auto simp: le_max_iff_disj)
  then show ?thesis
    unfolding high_water_marks_eq snd_conv
    by (intro fold_covers [OF _ _ v(1)] fold_inflate i)
qed

lemma lock_high_covers:
  assumes "bt_get (m_locks m) k = Some l"
  shows "l_txn_id l \<le> fst (allocator_high_water_marks m)" and "l_start_timestamp l \<le> lock_high m"
proof -
  from assms have l: "l \<in> set (bt_values (m_locks m))" by (auto simp: bt_values_mem)
  show "l_txn_id l \<le> fst (allocator_high_water_marks m)"
    unfolding high_water_marks_eq fst_conv by (rule fold_covers [OF _ _ l]) auto
  show "l_start_timestamp l \<le> lock_high m"
    unfolding lock_high_def by (rule fold_covers [OF _ _ l]) auto
qed

text \<open>
  C23. The high-water marks bound everything the maps hold: every transaction id of a lock and
  every timestamp of a payload, a lock or a write record. So allocation above them reuses
  none.
\<close>

theorem high_water_marks_bound:
  "(\<forall>k l. bt_get (m_locks m) k = Some l \<longrightarrow> l_txn_id l \<le> fst (allocator_high_water_marks m) \<and>
      l_start_timestamp l \<le> snd (allocator_high_water_marks m)) \<and>
   (\<forall>k s row. get2 (m_default m) k s = Some row \<longrightarrow> s \<le> snd (allocator_high_water_marks m)) \<and>
   (\<forall>k t w. get2 (m_writes m) k t = Some w \<longrightarrow> t \<le> snd (allocator_high_water_marks m) \<and>
      w_start_timestamp w \<le> snd (allocator_high_water_marks m))"
proof (intro conjI allI impI)
  fix k l
  assume l: "bt_get (m_locks m) k = Some l"
  show "l_txn_id l \<le> fst (allocator_high_water_marks m)" using l by (rule lock_high_covers)
  show "l_start_timestamp l \<le> snd (allocator_high_water_marks m)"
    using lock_high_covers(2) [OF l] high_water_chain(2) by (rule order_trans)
next
  fix k s row
  assume "get2 (m_default m) k s = Some row"
  then have "s \<le> default_high m" by (rule default_high_covers)
  also have "\<dots> \<le> lock_high m" by (rule high_water_chain)
  also have "\<dots> \<le> snd (allocator_high_water_marks m)" by (rule high_water_chain)
  finally show "s \<le> snd (allocator_high_water_marks m)" .
next
  fix k t w
  assume "get2 (m_writes m) k t = Some w"
  from write_high_covers [OF this]
  show "t \<le> snd (allocator_high_water_marks m)"
    "w_start_timestamp w \<le> snd (allocator_high_water_marks m)"
    by simp_all
qed

theorem high_water_marks_bound_witness:
  "allocator_high_water_marks demo_relocked = (8, 12) \<and>
   l_txn_id (the (bt_get (m_locks demo_relocked) demo_key)) \<le> fst (allocator_high_water_marks demo_relocked)"
proof
  show "allocator_high_water_marks demo_relocked = (8, 12)" by code_simp
  have "bt_get (m_locks demo_relocked) demo_key =
      Some \<lparr>l_txn_id = 8, l_primary_key = demo_key, l_start_timestamp = 12, l_ttl_ms = 50, l_op = Delete\<rparr>"
    by code_simp
  then show "l_txn_id (the (bt_get (m_locks demo_relocked) demo_key)) \<le>
      fst (allocator_high_water_marks demo_relocked)"
    using high_water_marks_bound [of demo_relocked] by (metis option.sel)
qed

end
