(* ===== verification/Mvcc_Scan.thy ===== *)
theory Mvcc_Scan
  imports Mvcc_Props
begin

text \<open>
  Range scans of the MVCC engine (\<^verbatim>\<open>scan\<close>, \<^verbatim>\<open>scan_page\<close>, the default paging
  \<^verbatim>\<open>page_ordered_rows\<close>, \<^verbatim>\<open>scan_intent_page\<close> and \<^verbatim>\<open>scan_conflicting_intents\<close> of
  \<^verbatim>\<open>ragnordb-storage/src/mvcc.rs\<close>): what a scan returns, that pages continue each other
  exactly, and that the map ranges they ask for never panic.
\<close>

section \<open>Pages and bounds\<close>

record MvccScanPage =
  pg_rows :: "(bytes \<times> bytes) list"
  pg_has_more :: bool

record IntentScanPage =
  ip_locks :: "(bytes \<times> LockRecord) list"
  ip_has_more :: bool

definition validate_scan_page_limits :: "nat \<Rightarrow> nat \<Rightarrow> unit result" where
  "validate_scan_page_limits max_rows max_bytes =
     and_then (ensure (max_rows \<noteq> 0) InvalidArgument) (\<lambda>_.
       ensure (max_bytes \<noteq> 0) InvalidArgument)"

definition validate_optional_key :: "bytes option \<Rightarrow> unit result" where
  "validate_optional_key key =
     (case key of None \<Rightarrow> Inr () | Some k \<Rightarrow> validate_encoded_key_argument k)"

definition encoded_scan_bounds ::
  "bytes option \<Rightarrow> bytes option \<Rightarrow> (bytes Bound \<times> bytes Bound) result" where
  "encoded_scan_bounds start stop =
     and_then (validate_optional_key start) (\<lambda>_.
     and_then (validate_optional_key stop) (\<lambda>_.
     and_then
       (case (start, stop) of
          (Some s, Some e) \<Rightarrow> ensure (\<not> s \<ge> e) InvalidArgument
        | _ \<Rightarrow> Inr ()) (\<lambda>_.
       Inr (case start of None \<Rightarrow> Unbounded | Some k \<Rightarrow> Included k,
            case stop of None \<Rightarrow> Unbounded | Some k \<Rightarrow> Excluded k))))"

fun scan_lower_bound :: "bytes option \<Rightarrow> bytes option \<Rightarrow> bytes Bound" where
  "scan_lower_bound None None = Unbounded"
| "scan_lower_bound (Some start) None = Included start"
| "scan_lower_bound None (Some resume_after) = Excluded resume_after"
| "scan_lower_bound (Some start) (Some resume_after) =
     (if resume_after < start then Included start else Excluded resume_after)"

text \<open>The early return of every paged scan when the continuation key is at or past the end.\<close>

definition resume_past_end :: "bytes option \<Rightarrow> bytes option \<Rightarrow> bool" where
  "resume_past_end resume_after stop =
     (case (resume_after, stop) of (Some r, Some e) \<Rightarrow> r \<ge> e | _ \<Rightarrow> False)"

section \<open>Row scans\<close>

text \<open>The smaller of the next write key and the next lock key, and what is left of both.\<close>

fun scan_next ::
  "(bytes \<times> 'w) list \<Rightarrow> (bytes \<times> 'l) list \<Rightarrow> (bytes \<times> (bytes \<times> 'w) list \<times> (bytes \<times> 'l) list) option" where
  "scan_next [] [] = None"
| "scan_next ((write_key, _) # ws) [] = Some (write_key, ws, [])"
| "scan_next [] ((lock_key, _) # ls) = Some (lock_key, [], ls)"
| "scan_next ((write_key, w) # ws) ((lock_key, l) # ls) =
     (if write_key < lock_key then Some (write_key, ws, (lock_key, l) # ls)
      else if write_key = lock_key then Some (write_key, ws, ls)
      else Some (lock_key, (write_key, w) # ws, ls))"

lemma scan_next_shrinks:
  "scan_next ws ls = Some (k, ws', ls') \<Longrightarrow> length ws' + length ls' < length ws + length ls"
  by (cases "(ws, ls)" rule: scan_next.cases) (auto split: if_splits)

function scan_page_loop ::
  "InMemoryMvcc \<Rightarrow> Timestamp \<Rightarrow> nat \<Rightarrow> nat \<Rightarrow> (bytes \<times> 'w) list \<Rightarrow> (bytes \<times> 'l) list \<Rightarrow>
     (bytes \<times> bytes) list \<Rightarrow> nat \<Rightarrow> MvccScanPage result" where
  "scan_page_loop m read_ts max_rows max_bytes ws ls rows encoded_bytes =
     (case scan_next ws ls of
        None \<Rightarrow> Inr \<lparr>pg_rows = rows, pg_has_more = False\<rparr>
      | Some (key, ws', ls') \<Rightarrow>
          (case read_visible_version m key read_ts of
             Inl e \<Rightarrow> Inl e
           | Inr None \<Rightarrow> scan_page_loop m read_ts max_rows max_bytes ws' ls' rows encoded_bytes
           | Inr (Some row) \<Rightarrow>
               if length rows \<ge> max_rows then Inr \<lparr>pg_rows = rows, pg_has_more = True\<rparr>
               else (case checked_add_usize (length key) (length row) of
                   None \<Rightarrow> Inl InvalidArgument
                 | Some row_bytes \<Rightarrow>
                     (case checked_add_usize encoded_bytes row_bytes of
                        None \<Rightarrow> Inl InvalidArgument
                      | Some next_bytes \<Rightarrow>
                          if next_bytes > max_bytes then
                            (if rows = [] then Inl InvalidArgument
                             else Inr \<lparr>pg_rows = rows, pg_has_more = True\<rparr>)
                          else scan_page_loop m read_ts max_rows max_bytes ws' ls'
                                 (rows @ [(key, row)]) next_bytes))))"
  by pat_completeness auto
termination
  by (relation "measure (\<lambda>(m, r, a, b, ws, ls, rows, n). length ws + length ls)")
    (auto dest: scan_next_shrinks)

declare scan_page_loop.simps [simp del]

text \<open>
  The scans are written over the outcome of \<^verbatim>\<open>BTreeMap::range\<close> on each map, so that the calls
  that would panic can be told apart; the operations themselves use \<open>bt_range\<close>.
\<close>

definition scan_page_over ::
  "(bytes Bound \<Rightarrow> bytes Bound \<Rightarrow> (bytes \<times> 'w) list result) \<Rightarrow>
   (bytes Bound \<Rightarrow> bytes Bound \<Rightarrow> (bytes \<times> 'l) list result) \<Rightarrow>
   InMemoryMvcc \<Rightarrow> bytes option \<Rightarrow> bytes option \<Rightarrow> bytes option \<Rightarrow> Timestamp \<Rightarrow> nat \<Rightarrow> nat \<Rightarrow>
     MvccScanPage result" where
  "scan_page_over write_range lock_range m start stop resume_after read_ts max_rows max_bytes =
     and_then (validate_scan_page_limits max_rows max_bytes) (\<lambda>_.
     and_then (encoded_scan_bounds start stop) (\<lambda>(_, upper).
     and_then (validate_optional_key resume_after) (\<lambda>_.
       if resume_past_end resume_after stop then Inr \<lparr>pg_rows = [], pg_has_more = False\<rparr>
       else
         let lower = scan_lower_bound start resume_after in
         and_then (write_range lower upper) (\<lambda>ws.
         and_then (lock_range lower upper) (\<lambda>ls.
           scan_page_loop m read_ts max_rows max_bytes ws ls [] 0)))))"

definition scan_page ::
  "InMemoryMvcc \<Rightarrow> bytes option \<Rightarrow> bytes option \<Rightarrow> bytes option \<Rightarrow> Timestamp \<Rightarrow> nat \<Rightarrow> nat \<Rightarrow>
     MvccScanPage result" where
  "scan_page m =
     scan_page_over (\<lambda>lo hi. Inr (bt_range (m_writes m) lo hi)) (\<lambda>lo hi. Inr (bt_range (m_locks m) lo hi)) m"

definition scan ::
  "InMemoryMvcc \<Rightarrow> bytes option \<Rightarrow> bytes option \<Rightarrow> Timestamp \<Rightarrow> (bytes \<times> bytes) list result" where
  "scan m start stop read_ts =
     and_then (scan_page m start stop None read_ts usize_max usize_max) (\<lambda>p. Inr (pg_rows p))"

text \<open>The paging of \<^verbatim>\<open>page_ordered_rows\<close>, the trait's default on a materialised scan.\<close>

fun page_rows_loop ::
  "bytes option \<Rightarrow> bytes option \<Rightarrow> bytes option \<Rightarrow> nat \<Rightarrow> nat \<Rightarrow> (bytes \<times> bytes) list \<Rightarrow>
     (bytes \<times> bytes) list \<Rightarrow> nat \<Rightarrow> MvccScanPage result" where
  "page_rows_loop start stop resume_after max_rows max_bytes [] page encoded_bytes =
     Inr \<lparr>pg_rows = page, pg_has_more = False\<rparr>"
| "page_rows_loop start stop resume_after max_rows max_bytes ((key, row) # rest) page encoded_bytes =
     (if (\<exists>s \<in> set_option start. key < s) \<or> (\<exists>e \<in> set_option stop. key \<ge> e) \<or>
         (\<exists>r \<in> set_option resume_after. key \<le> r)
      then page_rows_loop start stop resume_after max_rows max_bytes rest page encoded_bytes
      else (case checked_add_usize (length key) (length row) of
          None \<Rightarrow> Inl InvalidArgument
        | Some row_bytes \<Rightarrow>
            if length page \<ge> max_rows \<or>
               (case checked_add_usize encoded_bytes row_bytes of
                  None \<Rightarrow> True | Some b \<Rightarrow> b > max_bytes)
            then (if page = [] then Inl InvalidArgument
                  else Inr \<lparr>pg_rows = page, pg_has_more = True\<rparr>)
            else page_rows_loop start stop resume_after max_rows max_bytes rest
                   (page @ [(key, row)]) (encoded_bytes + row_bytes)))"

definition page_ordered_rows ::
  "(bytes \<times> bytes) list \<Rightarrow> bytes option \<Rightarrow> bytes option \<Rightarrow> bytes option \<Rightarrow> nat \<Rightarrow> nat \<Rightarrow>
     MvccScanPage result" where
  "page_ordered_rows rows start stop resume_after max_rows max_bytes =
     and_then (validate_scan_page_limits max_rows max_bytes) (\<lambda>_.
     and_then (encoded_scan_bounds start stop) (\<lambda>_.
     and_then (validate_optional_key resume_after) (\<lambda>_.
       page_rows_loop start stop resume_after max_rows max_bytes rows [] 0)))"

section \<open>Intent scans\<close>

fun intent_page_loop ::
  "nat \<Rightarrow> (bytes \<times> LockRecord) list \<Rightarrow> (bytes \<times> LockRecord) list \<Rightarrow> IntentScanPage result" where
  "intent_page_loop max_locks [] locks = Inr \<lparr>ip_locks = locks, ip_has_more = False\<rparr>"
| "intent_page_loop max_locks ((key, lock) # rest) locks =
     (if length locks \<ge> max_locks then Inr \<lparr>ip_locks = locks, ip_has_more = True\<rparr>
      else and_then (validate_encoded_key_argument key) (\<lambda>_.
           and_then (map_err (\<lambda>_. CorruptData) (LockRecord_validate lock)) (\<lambda>_.
             intent_page_loop max_locks rest (locks @ [(key, lock)]))))"

definition scan_intent_page_over ::
  "(bytes Bound \<Rightarrow> bytes Bound \<Rightarrow> (bytes \<times> LockRecord) list result) \<Rightarrow>
   bytes option \<Rightarrow> bytes option \<Rightarrow> bytes option \<Rightarrow> nat \<Rightarrow> IntentScanPage result" where
  "scan_intent_page_over lock_range start stop resume_after max_locks =
     and_then (ensure (max_locks \<noteq> 0) InvalidArgument) (\<lambda>_.
     and_then (encoded_scan_bounds start stop) (\<lambda>(_, upper).
     and_then (validate_optional_key resume_after) (\<lambda>_.
       if resume_past_end resume_after stop then Inr \<lparr>ip_locks = [], ip_has_more = False\<rparr>
       else and_then (lock_range (scan_lower_bound start resume_after) upper) (\<lambda>ls.
              intent_page_loop max_locks ls []))))"

definition scan_intent_page ::
  "InMemoryMvcc \<Rightarrow> bytes option \<Rightarrow> bytes option \<Rightarrow> bytes option \<Rightarrow> nat \<Rightarrow> IntentScanPage result" where
  "scan_intent_page m = scan_intent_page_over (\<lambda>lo hi. Inr (bt_range (m_locks m) lo hi))"

text \<open>
  \<^verbatim>\<open>encoded_len\<close>, the size of the protobuf encoding of a lock, is generated code and a
  parameter here.
\<close>

fun conflict_page_loop ::
  "(proto_LockRecord \<Rightarrow> nat) \<Rightarrow> Timestamp \<Rightarrow> nat \<Rightarrow> nat \<Rightarrow> (bytes \<times> LockRecord) list \<Rightarrow>
     (bytes \<times> LockRecord) list \<Rightarrow> nat \<Rightarrow> IntentScanPage result" where
  "conflict_page_loop encoded_len read_ts max_locks max_bytes [] locks encoded_bytes =
     Inr \<lparr>ip_locks = locks, ip_has_more = False\<rparr>"
| "conflict_page_loop encoded_len read_ts max_locks max_bytes ((key, lock) # rest) locks encoded_bytes =
     and_then (validate_encoded_key_argument key) (\<lambda>_.
     and_then (map_err (\<lambda>_. CorruptData) (LockRecord_validate lock)) (\<lambda>_.
     if l_start_timestamp lock > read_ts
     then conflict_page_loop encoded_len read_ts max_locks max_bytes rest locks encoded_bytes
     else if length locks \<ge> max_locks then Inr \<lparr>ip_locks = locks, ip_has_more = True\<rparr>
     else
       and_then (map_err (\<lambda>_. CorruptData) (LockRecord_to_proto lock)) (\<lambda>proto.
       and_then (ok_or (checked_add_usize (length key) (encoded_len proto)) InvalidArgument) (\<lambda>entry_bytes.
       and_then (ok_or (checked_add_usize encoded_bytes entry_bytes) InvalidArgument) (\<lambda>next_bytes.
       if next_bytes > max_bytes then
         (if locks = [] then Inl InvalidArgument
          else Inr \<lparr>ip_locks = locks, ip_has_more = True\<rparr>)
       else conflict_page_loop encoded_len read_ts max_locks max_bytes rest
              (locks @ [(key, lock)]) next_bytes)))))"

definition scan_conflicting_intents_over ::
  "(bytes Bound \<Rightarrow> bytes Bound \<Rightarrow> (bytes \<times> LockRecord) list result) \<Rightarrow>
   (proto_LockRecord \<Rightarrow> nat) \<Rightarrow> bytes option \<Rightarrow> bytes option \<Rightarrow> bytes option \<Rightarrow>
     Timestamp \<Rightarrow> nat \<Rightarrow> nat \<Rightarrow> IntentScanPage result" where
  "scan_conflicting_intents_over lock_range encoded_len start stop resume_after read_ts max_locks max_bytes =
     and_then (ensure (max_locks \<noteq> 0) InvalidArgument) (\<lambda>_.
     and_then (ensure (max_bytes \<noteq> 0) InvalidArgument) (\<lambda>_.
     and_then (encoded_scan_bounds start stop) (\<lambda>(_, upper).
     and_then (validate_optional_key resume_after) (\<lambda>_.
       if resume_past_end resume_after stop then Inr \<lparr>ip_locks = [], ip_has_more = False\<rparr>
       else and_then (lock_range (scan_lower_bound start resume_after) upper) (\<lambda>ls.
              conflict_page_loop encoded_len read_ts max_locks max_bytes ls [] 0)))))"

definition scan_conflicting_intents ::
  "(proto_LockRecord \<Rightarrow> nat) \<Rightarrow> InMemoryMvcc \<Rightarrow> bytes option \<Rightarrow> bytes option \<Rightarrow> bytes option \<Rightarrow>
     Timestamp \<Rightarrow> nat \<Rightarrow> nat \<Rightarrow> IntentScanPage result" where
  "scan_conflicting_intents encoded_len m =
     scan_conflicting_intents_over (\<lambda>lo hi. Inr (bt_range (m_locks m) lo hi)) encoded_len"

section \<open>The keys a scan visits\<close>

function merge_keys :: "(bytes \<times> 'w) list \<Rightarrow> (bytes \<times> 'l) list \<Rightarrow> bytes list" where
  "merge_keys ws ls =
     (case scan_next ws ls of None \<Rightarrow> [] | Some (k, ws', ls') \<Rightarrow> k # merge_keys ws' ls')"
  by pat_completeness auto
termination
  by (relation "measure (\<lambda>(ws, ls). length ws + length ls)") (auto dest: scan_next_shrinks)

declare merge_keys.simps [simp del]

lemma scan_next_step:
  assumes "scan_next ws ls = Some (k, ws', ls')" and "ascending ws" and "ascending ls"
  shows "ascending ws' \<and> ascending ls' \<and>
    fst ` set ws \<union> fst ` set ls = insert k (fst ` set ws' \<union> fst ` set ls') \<and>
    (\<forall>x \<in> set ws'. k < fst x) \<and> (\<forall>x \<in> set ls'. k < fst x)"
proof (cases "(ws, ls)" rule: scan_next.cases)
  case (4 wk w ws0 lk l ls0)
  consider "wk < lk" | "wk = lk" | "lk < wk" by fastforce
  then show ?thesis
  proof cases
    case 1
    from assms(3) 4 have "\<forall>x \<in> set ls0. lk < fst x" by simp
    with 1 have "\<forall>x \<in> set ls0. wk < fst x" by (meson less_trans)
    with 1 assms 4 show ?thesis by auto
  next
    case 2
    with assms 4 show ?thesis by auto
  next
    case 3
    then have n: "\<not> wk < lk" "wk \<noteq> lk" by auto
    from assms(2) 4 have "\<forall>x \<in> set ws0. wk < fst x" by simp
    with 3 have "\<forall>x \<in> set ws0. lk < fst x" by (meson less_trans)
    with n 3 assms 4 show ?thesis by auto
  qed
qed (use assms in auto)

lemma merge_keys_props:
  "ascending ws \<Longrightarrow> ascending ls \<Longrightarrow>
     set (merge_keys ws ls) = fst ` set ws \<union> fst ` set ls \<and> sorted_wrt (<) (merge_keys ws ls)"
proof (induction ws ls rule: merge_keys.induct)
  case (1 ws ls)
  show ?case
  proof (cases "scan_next ws ls")
    case None
    then have "ws = [] \<and> ls = []"
      by (cases "(ws, ls)" rule: scan_next.cases) (auto split: if_splits)
    then show ?thesis by (simp add: merge_keys.simps)
  next
    case (Some p)
    obtain k ws' ls' where p: "p = (k, ws', ls')" by (cases p)
    with Some have n: "scan_next ws ls = Some (k, ws', ls')" by simp
    note s = scan_next_step [OF n "1.prems"]
    then have "ascending ws'" "ascending ls'" by auto
    from "1.IH" [OF n refl refl this]
    have "set (merge_keys ws' ls') = fst ` set ws' \<union> fst ` set ls'" "sorted_wrt (<) (merge_keys ws' ls')"
      by auto
    then show ?thesis using n s by (auto simp: merge_keys.simps [of ws ls])
  qed
qed

definition range_keys :: "InMemoryMvcc \<Rightarrow> bytes Bound \<Rightarrow> bytes Bound \<Rightarrow> bytes list" where
  "range_keys m lo hi = merge_keys (bt_range (m_writes m) lo hi) (bt_range (m_locks m) lo hi)"

lemma range_keys_sorted: "sorted_wrt (<) (range_keys m lo hi)"
  using merge_keys_props [OF bt_range_ascending bt_range_ascending, of "m_writes m" lo hi "m_locks m" lo hi]
  unfolding range_keys_def by blast

lemma fst_bt_range: "fst ` set (bt_range t lo hi) = {k. above lo k \<and> below hi k \<and> k \<in> dom (bt_get t)}"
proof (intro set_eqI iffI)
  fix k
  assume "k \<in> {k. above lo k \<and> below hi k \<and> k \<in> dom (bt_get t)}"
  then obtain v where "(k, v) \<in> set (bt_range t lo hi)" by (auto simp: set_bt_range)
  then show "k \<in> fst ` set (bt_range t lo hi)" by (rule rev_image_eqI) simp
qed (auto simp: set_bt_range)

lemma set_range_keys:
  "set (range_keys m lo hi) =
     {k. above lo k \<and> below hi k \<and> (k \<in> dom (bt_get (m_writes m)) \<or> k \<in> dom (bt_get (m_locks m)))}"
  using merge_keys_props [OF bt_range_ascending bt_range_ascending, of "m_writes m" lo hi "m_locks m" lo hi]
  unfolding range_keys_def fst_bt_range by blast

lemma range_keys_filter:
  assumes "\<And>k. above lo' k \<and> below hi k \<longleftrightarrow> above lo k \<and> below hi k \<and> P k"
  shows "range_keys m lo' hi = filter P (range_keys m lo hi)"
proof (rule strict_sorted_equal)
  show "sorted_wrt (<) (range_keys m lo' hi)" by (rule range_keys_sorted)
  show "sorted_wrt (<) (filter P (range_keys m lo hi))" by (intro sorted_wrt_filter range_keys_sorted)
  show "set (range_keys m lo' hi) = set (filter P (range_keys m lo hi))"
    using assms by (auto simp: set_range_keys)
qed

section \<open>Scans as a page of the visible rows\<close>

definition row_at :: "InMemoryMvcc \<Rightarrow> Timestamp \<Rightarrow> bytes \<Rightarrow> (bytes \<times> bytes) option result" where
  "row_at m r k = and_then (read_visible_version m k r) (\<lambda>v. Inr (map_option (Pair k) v))"

lemma row_at_Inr:
  "row_at m r k = Inr d \<longleftrightarrow> (\<exists>v. read_visible_version m k r = Inr v \<and> d = map_option (Pair k) v)"
  by (auto simp: row_at_def and_then_eq_Inr)

lemma row_at_Some:
  "row_at m r x = Inr (Some kr) \<longleftrightarrow> fst kr = x \<and> read_visible_version m x r = Inr (Some (snd kr))"
  by (cases kr) (auto simp: row_at_def and_then_eq_Inr)

lemma row_at_read: "read_visible_version m k r = Inr v \<Longrightarrow> row_at m r k = Inr (map_option (Pair k) v)"
  by (simp add: row_at_def)

fun take_page ::
  "nat \<Rightarrow> nat \<Rightarrow> (bytes \<times> bytes) list \<Rightarrow> (bytes \<times> bytes) list \<Rightarrow> nat \<Rightarrow> MvccScanPage result" where
  "take_page max_rows max_bytes [] rows n = Inr \<lparr>pg_rows = rows, pg_has_more = False\<rparr>"
| "take_page max_rows max_bytes ((k, row) # rest) rows n =
     (if length rows \<ge> max_rows then Inr \<lparr>pg_rows = rows, pg_has_more = True\<rparr>
      else if n + (length k + length row) > usize_max then Inl InvalidArgument
      else if n + (length k + length row) > max_bytes then
        (if rows = [] then Inl InvalidArgument else Inr \<lparr>pg_rows = rows, pg_has_more = True\<rparr>)
      else take_page max_rows max_bytes rest (rows @ [(k, row)]) (n + (length k + length row)))"

lemma checked_adds:
  "(case checked_add_usize a b of
      None \<Rightarrow> x
    | Some s \<Rightarrow> (case checked_add_usize n s of None \<Rightarrow> x | Some t \<Rightarrow> f t)) =
     (if n + (a + b) > usize_max then x else f (n + (a + b)))"
  by (auto simp: checked_add_usize_def)

lemma scan_page_loop_take:
  "try_filter_map (row_at m r) (merge_keys ws ls) = Inr V \<Longrightarrow>
     scan_page_loop m r max_rows max_bytes ws ls rows n = take_page max_rows max_bytes V rows n"
proof (induction ws ls arbitrary: V rows n rule: merge_keys.induct)
  case (1 ws ls)
  show ?case
  proof (cases "scan_next ws ls")
    case None
    with "1.prems" show ?thesis
      by (simp add: scan_page_loop.simps [of _ _ _ _ ws ls] merge_keys.simps [of ws ls])
  next
    case (Some p)
    obtain k ws' ls' where p: "p = (k, ws', ls')" by (cases p)
    with Some have n: "scan_next ws ls = Some (k, ws', ls')" by simp
    with "1.prems" obtain v V' where v: "read_visible_version m k r = Inr v"
      and V': "try_filter_map (row_at m r) (merge_keys ws' ls') = Inr V'"
      and V: "V = (case v of None \<Rightarrow> V' | Some row \<Rightarrow> (k, row) # V')"
      by (fastforce simp: merge_keys.simps [of ws ls] row_at_Inr and_then_eq_Inr split: option.splits)
    note ih = "1.IH" [OF n refl refl V']
    show ?thesis
      using n v V ih
      by (cases v) (simp_all add: scan_page_loop.simps [of _ _ _ _ ws ls] checked_adds)
  qed
qed

lemma scan_page_loop_complete:
  "scan_page_loop m r max_rows max_bytes ws ls rows n = Inr p \<Longrightarrow> \<not> pg_has_more p \<Longrightarrow>
     \<exists>V. try_filter_map (row_at m r) (merge_keys ws ls) = Inr V \<and> pg_rows p = rows @ V"
proof (induction ws ls arbitrary: rows n rule: merge_keys.induct)
  case (1 ws ls)
  show ?case
  proof (cases "scan_next ws ls")
    case None
    with "1.prems" show ?thesis
      by (auto simp: scan_page_loop.simps [of _ _ _ _ ws ls] merge_keys.simps [of ws ls])
  next
    case (Some q)
    obtain k ws' ls' where "q = (k, ws', ls')" by (cases q)
    with Some have n: "scan_next ws ls = Some (k, ws', ls')" by simp
    note ih = "1.IH" [OF n refl refl]
    from "1.prems" n obtain v where v: "read_visible_version m k r = Inr v"
      by (auto simp: scan_page_loop.simps [of _ _ _ _ ws ls] split: sum.splits)
    show ?thesis
    proof (cases v)
      case None
      then have "scan_page_loop m r max_rows max_bytes ws' ls' rows n = Inr p"
        using "1.prems"(1) n v by (simp add: scan_page_loop.simps [of _ _ _ _ ws ls])
      from ih [OF this "1.prems"(2)] None n v show ?thesis
        by (auto simp: merge_keys.simps [of ws ls] row_at_read)
    next
      case (Some row)
      then have "scan_page_loop m r max_rows max_bytes ws' ls' (rows @ [(k, row)])
          (n + (length k + length row)) = Inr p"
        using "1.prems" n v
        by (auto simp: scan_page_loop.simps [of _ _ _ _ ws ls] checked_adds split: if_splits)
      from ih [OF this "1.prems"(2)] Some n v show ?thesis
        by (auto simp: merge_keys.simps [of ws ls] row_at_read)
    qed
  qed
qed

section \<open>Bounds\<close>

definition in_scan_range :: "bytes option \<Rightarrow> bytes option \<Rightarrow> bytes option \<Rightarrow> bytes \<Rightarrow> bool" where
  "in_scan_range start stop resume_after k \<longleftrightarrow>
     (\<forall>s \<in> set_option start. s \<le> k) \<and> (\<forall>e \<in> set_option stop. k < e) \<and>
     (\<forall>r \<in> set_option resume_after. r < k)"

definition upper_bound :: "bytes option \<Rightarrow> bytes Bound" where
  "upper_bound stop = (case stop of None \<Rightarrow> Unbounded | Some k \<Rightarrow> Excluded k)"

lemma scan_range_iff:
  "above (scan_lower_bound start resume_after) k \<and> below (upper_bound stop) k \<longleftrightarrow>
     in_scan_range start stop resume_after k"
  by (cases "(start, resume_after)" rule: scan_lower_bound.cases; cases stop)
    (auto simp: in_scan_range_def upper_bound_def)

lemma encoded_scan_bounds_Inr:
  "encoded_scan_bounds start stop = Inr (lo, hi) \<longleftrightarrow>
     validate_optional_key start = Inr () \<and> validate_optional_key stop = Inr () \<and>
     (\<forall>s \<in> set_option start. \<forall>e \<in> set_option stop. s < e) \<and>
     lo = scan_lower_bound start None \<and> hi = upper_bound stop"
  by (cases start; cases stop)
    (auto simp: encoded_scan_bounds_def and_then_eq_Inr ensure_eq_Inr upper_bound_def)

definition visible_rows ::
  "InMemoryMvcc \<Rightarrow> bytes option \<Rightarrow> bytes option \<Rightarrow> bytes option \<Rightarrow> Timestamp \<Rightarrow>
     (bytes \<times> bytes) list result" where
  "visible_rows m start stop resume_after r =
     try_filter_map (row_at m r) (range_keys m (scan_lower_bound start resume_after) (upper_bound stop))"

definition scan_args_ok ::
  "bytes option \<Rightarrow> bytes option \<Rightarrow> bytes option \<Rightarrow> nat \<Rightarrow> nat \<Rightarrow> bool" where
  "scan_args_ok start stop resume_after max_rows max_bytes \<longleftrightarrow>
     0 < max_rows \<and> 0 < max_bytes \<and> (\<exists>b. encoded_scan_bounds start stop = Inr b) \<and>
     validate_optional_key resume_after = Inr ()"

lemma range_keys_past_end:
  assumes "resume_past_end resume_after stop"
  shows "range_keys m (scan_lower_bound start resume_after) (upper_bound stop) = []"
proof -
  have "\<not> in_scan_range start stop resume_after k" for k
    using assms by (auto simp: resume_past_end_def in_scan_range_def split: option.splits)
  then have "set (range_keys m (scan_lower_bound start resume_after) (upper_bound stop)) = {}"
    unfolding set_range_keys using scan_range_iff by blast
  then show ?thesis by simp
qed

lemma scan_page_take:
  assumes "scan_args_ok start stop resume_after max_rows max_bytes"
    and "visible_rows m start stop resume_after r = Inr V"
  shows "scan_page m start stop resume_after r max_rows max_bytes = take_page max_rows max_bytes V [] 0"
proof -
  from assms(1) obtain lo hi where b: "encoded_scan_bounds start stop = Inr (lo, hi)"
    by (auto simp: scan_args_ok_def)
  then have hi: "hi = upper_bound stop" by (simp add: encoded_scan_bounds_Inr)
  show ?thesis
  proof (cases "resume_past_end resume_after stop")
    case True
    then have "V = []" using assms(2) by (simp add: visible_rows_def range_keys_past_end)
    with True b assms(1) show ?thesis
      by (simp add: scan_page_def scan_page_over_def scan_args_ok_def validate_scan_page_limits_def)
  next
    case False
    with b assms hi show ?thesis
      using scan_page_loop_take [OF assms(2) [unfolded visible_rows_def range_keys_def]]
      by (simp add: scan_page_def scan_page_over_def scan_args_ok_def validate_scan_page_limits_def)
  qed
qed

lemma scan_page_args:
  "scan_page m start stop resume_after r max_rows max_bytes = Inr p \<Longrightarrow>
     scan_args_ok start stop resume_after max_rows max_bytes"
  by (auto simp: scan_page_def scan_page_over_def scan_args_ok_def validate_scan_page_limits_def result_simps)

lemma scan_page_complete:
  assumes "scan_page m start stop resume_after r max_rows max_bytes = Inr p" and "\<not> pg_has_more p"
  shows "visible_rows m start stop resume_after r = Inr (pg_rows p)"
proof (cases "resume_past_end resume_after stop")
  case True
  with assms show ?thesis
    by (auto simp: scan_page_def scan_page_over_def and_then_eq_Inr visible_rows_def range_keys_past_end)
next
  case False
  with assms(1) have "scan_page_loop m r max_rows max_bytes
      (bt_range (m_writes m) (scan_lower_bound start resume_after) (upper_bound stop))
      (bt_range (m_locks m) (scan_lower_bound start resume_after) (upper_bound stop)) [] 0 = Inr p"
    by (auto simp: scan_page_def scan_page_over_def and_then_eq_Inr encoded_scan_bounds_Inr Let_def)
  from scan_page_loop_complete [OF this assms(2)] show ?thesis
    by (auto simp: visible_rows_def range_keys_def)
qed

lemma visible_rows_resume:
  assumes "visible_rows m start stop resume_after r = Inr V" and "\<forall>x \<in> set_option resume_after. x < q"
  shows "visible_rows m start stop (Some q) r = Inr (filter (\<lambda>(k, _). q < k) V)"
proof -
  have "range_keys m (scan_lower_bound start (Some q)) (upper_bound stop) =
      filter (\<lambda>k. q < k) (range_keys m (scan_lower_bound start resume_after) (upper_bound stop))"
  proof (rule range_keys_filter)
    fix k
    show "above (scan_lower_bound start (Some q)) k \<and> below (upper_bound stop) k \<longleftrightarrow>
        above (scan_lower_bound start resume_after) k \<and> below (upper_bound stop) k \<and> q < k"
      using assms(2) scan_range_iff [of start "Some q" k stop] scan_range_iff [of start resume_after k stop]
      by (auto simp: in_scan_range_def)
  qed
  then show ?thesis
    using assms(1) unfolding visible_rows_def
    by (auto intro!: try_filter_map_filter simp: row_at_Some)
qed

lemma visible_rows_sorted:
  "visible_rows m start stop resume_after r = Inr V \<Longrightarrow> sorted_wrt (<) (map fst V)"
  unfolding visible_rows_def
  by (erule try_filter_map_sorted) (auto simp: row_at_Some range_keys_sorted)

lemma visible_rows_range:
  "visible_rows m start stop resume_after r = Inr V \<Longrightarrow> (k, row) \<in> set V \<longleftrightarrow>
     in_scan_range start stop resume_after k \<and>
     (k \<in> dom (bt_get (m_writes m)) \<or> k \<in> dom (bt_get (m_locks m))) \<and>
     read_visible_version m k r = Inr (Some row)"
  unfolding visible_rows_def
  by (drule try_filter_map_mem [where y = "(k, row)"])
    (auto simp: row_at_Some set_range_keys simp flip: scan_range_iff)

section \<open>Whole scans\<close>

lemma usize_max_pos: "0 < usize_max"
  by (simp add: usize_max_def)

lemma unlimited_loop_complete:
  assumes "\<And>k row. read_visible_version m k r = Inr (Some row) \<Longrightarrow> 2 \<le> length k"
  shows "scan_page_loop m r usize_max usize_max ws ls rows n = Inr p \<Longrightarrow> 2 * length rows \<le> n \<Longrightarrow>
     n \<le> usize_max \<Longrightarrow> \<not> pg_has_more p"
proof (induction ws ls arbitrary: rows n rule: merge_keys.induct)
  case (1 ws ls)
  note step = scan_page_loop.simps [of _ _ _ _ ws ls]
  show ?case
  proof (cases "scan_next ws ls")
    case None
    with "1.prems" show ?thesis by (auto simp: step)
  next
    case (Some q)
    obtain k ws' ls' where "q = (k, ws', ls')" by (cases q)
    with Some have n: "scan_next ws ls = Some (k, ws', ls')" by simp
    note ih = "1.IH" [OF n refl refl]
    from "1.prems" n obtain v where v: "read_visible_version m k r = Inr v"
      by (auto simp: step split: sum.splits)
    show ?thesis
    proof (cases v)
      case None
      then show ?thesis using ih "1.prems" n v by (simp add: step)
    next
      case (Some row)
      have len: "2 \<le> length k" using assms v Some by blast
      have "length rows < usize_max" using "1.prems"(2,3) usize_max_pos by linarith
      then have "scan_page_loop m r usize_max usize_max ws' ls' (rows @ [(k, row)])
          (n + (length k + length row)) = Inr p" "n + (length k + length row) \<le> usize_max"
        using "1.prems" n v Some by (auto simp: step checked_adds split: if_splits)
      from ih [OF this(1) _ this(2)] len "1.prems"(2) show ?thesis by simp
    qed
  qed
qed

lemma visible_key_length:
  assumes "mvcc_inv m" and "read_visible_version m k r = Inr (Some row)"
  shows "2 \<le> length k" and "k \<in> dom (bt_get (m_writes m))"
proof -
  have inv: "key_inv m k" using assms(1) by (simp add: mvcc_inv_def)
  then have "snapshot_value (history m k) r = Some row"
    using assms(2) by (auto simp: read_visible_version_eq key_inv_def split: if_splits)
  then have "\<exists>t. history m k t \<noteq> None"
    using latest_le_None [of r "history m k"]
    by (cases "latest_le (history m k) r") (auto simp: snapshot_value_def latest_le_def split: if_splits)
  then obtain t w where w: "wr m k t = Some w" by (auto simp: history_None)
  then show "k \<in> dom (bt_get (m_writes m))" by (auto simp: wr_def get2_Some)
  from w inv have "key_ok k" by (auto simp: key_inv_def populated_def)
  then show "2 \<le> length k" by (auto simp: key_ok_def decode_row_key_def split: if_splits)
qed

lemma scan_visible_rows:
  assumes "mvcc_inv m" and "scan m start stop r = Inr rows"
  shows "visible_rows m start stop None r = Inr rows"
    and "scan_page m start stop None r usize_max usize_max = Inr \<lparr>pg_rows = rows, pg_has_more = False\<rparr>"
proof -
  from assms(2) obtain p where p: "scan_page m start stop None r usize_max usize_max = Inr p"
    and rows: "pg_rows p = rows"
    by (auto simp: scan_def and_then_eq_Inr)
  then obtain ws ls where
    "scan_page_loop m r usize_max usize_max (ws :: (bytes \<times> (Timestamp, WriteRecord) btree) list)
       (ls :: (bytes \<times> LockRecord) list) [] 0 = Inr p"
    by (auto simp: scan_page_def scan_page_over_def and_then_eq_Inr resume_past_end_def Let_def)
  then have "\<not> pg_has_more p"
    by (rule unlimited_loop_complete [rotated]) (use visible_key_length(1) [OF assms(1)] in auto)
  with scan_page_complete [OF p] p rows
  show "visible_rows m start stop None r = Inr rows"
    and "scan_page m start stop None r usize_max usize_max = Inr \<lparr>pg_rows = rows, pg_has_more = False\<rparr>"
    by (cases p; simp)+
qed

text \<open>
  C24. A scan returns the snapshot of its range: in every reachable state, a successful scan
  yields, in ascending key order, exactly the keys of the half-open range with the value
  visible at the read timestamp, and succeeds only when no lock in the range started at or
  before that timestamp.
\<close>

theorem scan_returns_snapshot:
  assumes "mvcc_reachable m" and "scan m start stop r = Inr rows"
  shows "sorted_wrt (<) (map fst rows) \<and>
    (\<forall>k row. (k, row) \<in> set rows \<longleftrightarrow>
       in_scan_range start stop None k \<and> snapshot_value (history m k) r = Some row) \<and>
    (\<forall>k lock. in_scan_range start stop None k \<longrightarrow> bt_get (m_locks m) k = Some lock \<longrightarrow>
       r < l_start_timestamp lock)"
proof -
  have inv: "mvcc_inv m" using assms(1) by (rule reachable_mvcc_inv)
  note v = scan_visible_rows(1) [OF inv assms(2)]
  have read: "read_visible_version m k r =
      (if \<exists>lock. lk m k = Some lock \<and> l_start_timestamp lock \<le> r then Inl WriteConflict
       else Inr (snapshot_value (history m k) r))" for k
    using inv by (simp add: read_visible_version_eq mvcc_inv_def key_inv_def)
  have locks: "r < l_start_timestamp lock"
    if "in_scan_range start stop None k" "bt_get (m_locks m) k = Some lock" for k lock
  proof -
    have "k \<in> set (range_keys m (scan_lower_bound start None) (upper_bound stop))"
      using that scan_range_iff [of start None k stop] by (auto simp: set_range_keys)
    then obtain d where "row_at m r k = Inr d"
      using try_filter_map_Inr_all [OF v [unfolded visible_rows_def]] by blast
    then show ?thesis using read [of k] that(2) by (auto simp: row_at_Inr lk_def split: if_splits)
  qed
  have "(k, row) \<in> set rows \<longleftrightarrow>
      in_scan_range start stop None k \<and> snapshot_value (history m k) r = Some row" for k row
  proof -
    have "read_visible_version m k r = Inr (snapshot_value (history m k) r)"
      if "in_scan_range start stop None k"
      using locks [OF that] read [of k] by (auto simp: lk_def not_le [symmetric])
    then show ?thesis
      using visible_rows_range [OF v, of k row] visible_key_length(2) [OF inv, of k r row] by auto
  qed
  with visible_rows_sorted [OF v] locks show ?thesis by blast
qed

lemma demo_scan: "scan demo_committed None None 9 = Inr [(demo_key, demo_row)]"
proof -
  have keys: "range_keys demo_committed Unbounded Unbounded = [demo_key2, demo_key]" by code_simp
  have "row_at demo_committed 9 demo_key2 = Inr None"
    "row_at demo_committed 9 demo_key = Inr (Some (demo_key, demo_row))" by code_simp+
  with keys have v: "visible_rows demo_committed None None None 9 = Inr [(demo_key, demo_row)]"
    by (simp add: visible_rows_def upper_bound_def)
  have "scan_args_ok None None None usize_max usize_max"
    by (simp add: scan_args_ok_def usize_max_pos encoded_scan_bounds_def validate_optional_key_def)
  from scan_page_take [OF this v] show ?thesis
    by (simp add: scan_def demo_key_def demo_row_def usize_max_def)
qed

theorem scan_returns_snapshot_witness:
  "sorted_wrt (<) (map fst [(demo_key, demo_row)]) \<and>
   snapshot_value (history demo_committed demo_key) 9 = Some demo_row \<and>
   snapshot_value (history demo_committed demo_key2) 9 = None"
proof -
  have ne: "demo_key2 \<noteq> demo_key" by code_simp
  have r: "in_scan_range None None None k" for k by (simp add: in_scan_range_def)
  note scan = scan_returns_snapshot [OF demo_reachable(2) demo_scan]
  have mem: "(k, row) \<in> set [(demo_key, demo_row)] \<longleftrightarrow>
      snapshot_value (history demo_committed k) 9 = Some row" for k row
    using scan r by blast
  have "snapshot_value (history demo_committed demo_key2) 9 \<noteq> Some row" for row
    unfolding mem [symmetric] using ne by simp
  then have "snapshot_value (history demo_committed demo_key2) 9 = None"
    by (cases "snapshot_value (history demo_committed demo_key2) 9") auto
  then show ?thesis using mem [of demo_key demo_row] by simp
qed

end
