(* ===== verification/Mvcc_Pages.thy ===== *)
theory Mvcc_Pages
  imports Mvcc_Scan
begin

text \<open>
  Paging of row scans: the pages of \<^verbatim>\<open>InMemoryMvcc::scan_page\<close> partition the complete scan
  within their row and byte budgets, a page is refused only for its arguments or because one
  row exceeds the byte budget, and the override agrees with the default method of the
  \<^verbatim>\<open>MvccStorage\<close> trait (\<^verbatim>\<open>page_ordered_rows\<close> on a materialised scan).
\<close>

section \<open>What a page holds\<close>

abbreviation row_bytes :: "bytes \<times> bytes \<Rightarrow> nat" where
  "row_bytes \<equiv> \<lambda>(k, row). length k + length row"

definition page_bytes :: "(bytes \<times> bytes) list \<Rightarrow> nat" where
  "page_bytes rows = sum_list (map row_bytes rows)"

lemma page_bytes_simps [simp]:
  "page_bytes [] = 0" "page_bytes (x # xs) = row_bytes x + page_bytes xs"
  "page_bytes (xs @ ys) = page_bytes xs + page_bytes ys"
  by (simp_all add: page_bytes_def)

lemma page_bytes_filter: "page_bytes (filter P rows) \<le> page_bytes rows"
  by (induction rows) auto

lemma take_page_Inr:
  "take_page mr mb V rows n = Inr p \<Longrightarrow> n = page_bytes rows \<Longrightarrow> length rows \<le> mr \<Longrightarrow> n \<le> mb \<Longrightarrow> 0 < mr \<Longrightarrow>
     \<exists>rest. rows @ V = pg_rows p @ rest \<and> (pg_has_more p \<longleftrightarrow> rest \<noteq> []) \<and>
       (rest \<noteq> [] \<longrightarrow> pg_rows p \<noteq> [] \<and>
          (length (pg_rows p) = mr \<or> mb < page_bytes (pg_rows p) + row_bytes (hd rest))) \<and>
       length (pg_rows p) \<le> mr \<and> page_bytes (pg_rows p) \<le> mb"
proof (induction mr mb V rows n rule: take_page.induct)
  case (2 mr mb k row rest rows n)
  show ?case
  proof (cases "length rows \<ge> mr \<or> n + (length k + length row) > mb")
    case True
    with "2.prems" have "p = \<lparr>pg_rows = rows, pg_has_more = True\<rparr> \<and> rows \<noteq> []"
      by (auto split: if_splits)
    with True "2.prems" show ?thesis by (intro exI [of _ "(k, row) # rest"]) auto
  next
    case False
    with "2.prems" have "\<not> n + (length k + length row) > usize_max" by (auto split: if_splits)
    with False "2.prems" "2.IH" show ?thesis by (auto split: if_splits)
  qed
qed auto

lemma take_page_total:
  "n + page_bytes V \<le> usize_max \<Longrightarrow> rows \<noteq> [] \<or> (\<forall>x \<in> set (take 1 V). n + row_bytes x \<le> mb) \<Longrightarrow>
     \<exists>p. take_page mr mb V rows n = Inr p"
  by (induction mr mb V rows n rule: take_page.induct) auto

lemma take_page_Inr_usize:
  "take_page usize_max usize_max V rows n = Inr p \<Longrightarrow> \<not> pg_has_more p \<Longrightarrow> n \<le> usize_max \<Longrightarrow>
     n + page_bytes V \<le> usize_max"
  by (induction usize_max usize_max V rows n rule: take_page.induct) (auto split: if_splits)

section \<open>The visible rows after a continuation key\<close>

definition rows_after :: "bytes option \<Rightarrow> (bytes \<times> bytes) list \<Rightarrow> (bytes \<times> bytes) list" where
  "rows_after resume_after = filter (\<lambda>(k, _). \<forall>q \<in> set_option resume_after. q < k)"

lemma rows_after_simps [simp]:
  "rows_after None rows = rows" "rows_after (Some q) rows = filter (\<lambda>(k, _). q < k) rows"
  by (simp_all add: rows_after_def)

lemma rows_after_last:
  fixes xs :: "(bytes \<times> bytes) list"
  assumes "sorted_wrt (<) (map fst (xs @ ys))" and "xs \<noteq> []"
  shows "filter (\<lambda>(k, _). fst (last xs) < k) (xs @ ys) = ys"
proof -
  obtain zs z where xs: "xs = zs @ [z]" using assms(2) by (cases xs rule: rev_cases) auto
  have "\<forall>x \<in> set zs. fst x < fst z" "\<forall>x \<in> set ys. fst z < fst x"
    using assms(1) by (auto simp: xs sorted_wrt_append)
  then have "\<forall>x \<in> set zs. \<not> fst z < fst x" "\<forall>x \<in> set ys. fst z < fst x"
    by (auto dest: less_asym)
  then have "filter (\<lambda>x. fst z < fst x) zs = []" "filter (\<lambda>x. fst z < fst x) ys = ys"
    by (simp_all only: filter_empty_conv filter_id_conv)
  then show ?thesis by (simp add: xs case_prod_unfold)
qed

lemma visible_rows_after:
  assumes "visible_rows m start stop None r = Inr rows"
  shows "visible_rows m start stop resume_after r = Inr (rows_after resume_after rows)"
  using assms visible_rows_resume [OF assms] by (cases resume_after) auto

lemma scan_fits:
  assumes "mvcc_inv m" and "scan m start stop r = Inr rows"
  shows "page_bytes rows \<le> usize_max" and "\<exists>b. encoded_scan_bounds start stop = Inr b"
proof -
  note v = scan_visible_rows [OF assms]
  have ok: "scan_args_ok start stop None usize_max usize_max" by (rule scan_page_args) (fact v(2))
  from scan_page_take [OF ok v(1)] v(2)
  have "take_page usize_max usize_max rows [] 0 = Inr \<lparr>pg_rows = rows, pg_has_more = False\<rparr>" by simp
  from take_page_Inr_usize [OF this] show "page_bytes rows \<le> usize_max" by simp
  from ok show "\<exists>b. encoded_scan_bounds start stop = Inr b" by (simp add: scan_args_ok_def)
qed

lemma scan_page_of_scan:
  assumes "mvcc_inv m" and "scan m start stop r = Inr rows"
    and "0 < mr" and "0 < mb" and "validate_optional_key resume_after = Inr ()"
  shows "scan_page m start stop resume_after r mr mb = take_page mr mb (rows_after resume_after rows) [] 0"
proof (rule scan_page_take)
  show "scan_args_ok start stop resume_after mr mb"
    using assms(3-5) scan_fits(2) [OF assms(1,2)] by (simp add: scan_args_ok_def)
  show "visible_rows m start stop resume_after r = Inr (rows_after resume_after rows)"
    by (rule visible_rows_after) (rule scan_visible_rows(1) [OF assms(1,2)])
qed

text \<open>
  C25. Pages partition the scan: a page returned for any continuation key is the longest prefix
  of the remaining snapshot rows that respects the row and byte budgets, \<^verbatim>\<open>has_more\<close> says
  exactly whether rows remain, and continuing after the last key of the page yields the rest.
\<close>

theorem scan_pages_partition:
  assumes "mvcc_reachable m" and "scan m start stop r = Inr rows"
    and "scan_page m start stop resume_after r mr mb = Inr p"
  shows "\<exists>rest. rows_after resume_after rows = pg_rows p @ rest \<and> (pg_has_more p \<longleftrightarrow> rest \<noteq> []) \<and>
    length (pg_rows p) \<le> mr \<and> page_bytes (pg_rows p) \<le> mb \<and>
    (rest \<noteq> [] \<longrightarrow> pg_rows p \<noteq> [] \<and> rows_after (Some (fst (last (pg_rows p)))) rows = rest \<and>
       (length (pg_rows p) = mr \<or> mb < page_bytes (pg_rows p) + row_bytes (hd rest)))"
proof -
  have inv: "mvcc_inv m" using assms(1) by (rule reachable_mvcc_inv)
  have args: "0 < mr" "0 < mb" "validate_optional_key resume_after = Inr ()"
    using scan_page_args [OF assms(3)] by (auto simp: scan_args_ok_def)
  have "take_page mr mb (rows_after resume_after rows) [] 0 = Inr p"
    using assms(3) scan_page_of_scan [OF inv assms(2) args] by simp
  from take_page_Inr [OF this] args obtain rest where
    rest: "rows_after resume_after rows = pg_rows p @ rest" "pg_has_more p \<longleftrightarrow> rest \<noteq> []"
      "length (pg_rows p) \<le> mr" "page_bytes (pg_rows p) \<le> mb"
      "rest \<noteq> [] \<longrightarrow> pg_rows p \<noteq> [] \<and>
         (length (pg_rows p) = mr \<or> mb < page_bytes (pg_rows p) + row_bytes (hd rest))"
    by auto
  have sorted: "sorted_wrt (<) (map fst (rows_after resume_after rows))"
    using visible_rows_sorted [OF visible_rows_after [OF scan_visible_rows(1) [OF inv assms(2)]]] .
  have "rows_after (Some (fst (last (pg_rows p)))) rows = rest" if "pg_rows p \<noteq> []"
  proof -
    have "(fst (last (pg_rows p)), snd (last (pg_rows p))) \<in> set (rows_after resume_after rows)"
      using that rest(1) by simp
    then have "\<forall>q \<in> set_option resume_after. q < fst (last (pg_rows p))" by (auto simp: rows_after_def)
    then have "rows_after (Some (fst (last (pg_rows p)))) rows =
        filter (\<lambda>(k, _). fst (last (pg_rows p)) < k) (rows_after resume_after rows)"
      by (auto simp: rows_after_def intro!: filter_cong dest: less_trans)
    also have "\<dots> = rest"
      unfolding rest(1) by (rule rows_after_last) (use sorted rest(1) that in simp_all)
    finally show ?thesis .
  qed
  with rest show ?thesis by blast
qed

section \<open>A concrete pair of pages\<close>

definition demo_two_rows :: InMemoryMvcc where
  "demo_two_rows =
     snd (commit_batch demo_committed 9 15 16 (bt_insert demo_key2 (PutMutation demo_row) bt_new))"

lemma demo_two_rows_reachable: "mvcc_reachable demo_two_rows"
proof (rule mvcc_reachable_step [OF demo_reachable(2) step_commit_batch])
  show "commit_batch demo_committed 9 15 16 (bt_insert demo_key2 (PutMutation demo_row) bt_new) =
      (fst (commit_batch demo_committed 9 15 16 (bt_insert demo_key2 (PutMutation demo_row) bt_new)),
       demo_two_rows)"
    by (simp add: demo_two_rows_def)
qed

lemma demo_two_visible:
  "visible_rows demo_two_rows None None None 20 = Inr [(demo_key2, demo_row), (demo_key, demo_row)]"
proof -
  have "range_keys demo_two_rows Unbounded Unbounded = [demo_key2, demo_key]" by code_simp
  moreover have "row_at demo_two_rows 20 demo_key2 = Inr (Some (demo_key2, demo_row))"
    "row_at demo_two_rows 20 demo_key = Inr (Some (demo_key, demo_row))" by code_simp+
  ultimately show ?thesis by (simp add: visible_rows_def upper_bound_def)
qed

lemma demo_page:
  assumes "0 < mr" and "0 < mb"
  shows "scan_page demo_two_rows None None None 20 mr mb =
    take_page mr mb [(demo_key2, demo_row), (demo_key, demo_row)] [] 0"
proof (rule scan_page_take [OF _ demo_two_visible])
  show "scan_args_ok None None None mr mb"
    using assms by (simp add: scan_args_ok_def encoded_scan_bounds_def validate_optional_key_def)
qed

lemma demo_lengths: "length demo_key = 11" "length demo_key2 = 11" "length demo_row = 7"
  by (simp_all add: demo_key_def demo_key2_def demo_row_def)

lemma demo_two_scan:
  "scan demo_two_rows None None 20 = Inr [(demo_key2, demo_row), (demo_key, demo_row)]"
  using demo_page [OF usize_max_pos usize_max_pos]
  by (simp add: scan_def demo_lengths usize_max_def)

lemma demo_first_page:
  "scan_page demo_two_rows None None None 20 1 100 =
     Inr \<lparr>pg_rows = [(demo_key2, demo_row)], pg_has_more = True\<rparr>"
  using demo_page [of 1 100] by (simp add: demo_lengths usize_max_def)

theorem scan_pages_partition_witness:
  "\<exists>rest. [(demo_key2, demo_row), (demo_key, demo_row)] = [(demo_key2, demo_row)] @ rest \<and>
    rows_after (Some demo_key2) [(demo_key2, demo_row), (demo_key, demo_row)] = rest"
  using scan_pages_partition [OF demo_two_rows_reachable demo_two_scan demo_first_page] by auto

section \<open>Agreement with the default paging\<close>

lemma page_rows_loop_take:
  "\<forall>(k, _) \<in> set rows. in_scan_range start stop None k \<Longrightarrow> n + page_bytes rows \<le> usize_max \<Longrightarrow> 0 < mr \<Longrightarrow>
     page_rows_loop start stop resume_after mr mb rows page n =
       take_page mr mb (rows_after resume_after rows) page n"
proof (induction start stop resume_after mr mb rows page n rule: page_rows_loop.induct)
  case (2 start stop resume_after mr mb key row rest page n)
  then have range: "\<not> (\<exists>s \<in> set_option start. key < s)" "\<not> (\<exists>e \<in> set_option stop. key \<ge> e)"
    by (auto simp: in_scan_range_def not_le not_less)
  have fits: "checked_add_usize (length key) (length row) = Some (length key + length row)"
    "checked_add_usize n (length key + length row) = Some (n + (length key + length row))"
    "n + page_bytes rest \<le> usize_max" "n + (length key + length row) + page_bytes rest \<le> usize_max"
    using "2.prems"(2) by (auto simp: checked_add_usize_def)
  show ?case
  proof (cases "\<exists>q \<in> set_option resume_after. key \<le> q")
    case True
    then have skip: "rows_after resume_after ((key, row) # rest) = rows_after resume_after rest"
      by (auto simp: rows_after_def not_le)
    have "page_rows_loop start stop resume_after mr mb rest page n =
        take_page mr mb (rows_after resume_after rest) page n"
      using True "2.prems" fits by (intro "2.IH"(1)) auto
    with True skip show ?thesis by simp
  next
    case False
    then have keep: "rows_after resume_after ((key, row) # rest) = (key, row) # rows_after resume_after rest"
      by (auto simp: rows_after_def not_le)
    have c: "\<not> ((\<exists>s \<in> set_option start. key < s) \<or> (\<exists>e \<in> set_option stop. key \<ge> e) \<or>
        (\<exists>q \<in> set_option resume_after. key \<le> q))" using range False by blast
    show ?thesis
    proof (cases "mr \<le> length page \<or> n + (length key + length row) > mb")
      case True
      then show ?thesis unfolding keep using c "2.prems"(2,3) by (auto simp: fits(1,2))
    next
      case full: False
      have "page_rows_loop start stop resume_after mr mb rest (page @ [(key, row)]) (n + (length key + length row)) =
          take_page mr mb (rows_after resume_after rest) (page @ [(key, row)]) (n + (length key + length row))"
        using full "2.prems" by (intro "2.IH"(2) [OF c fits(1)]) (auto simp: fits(2) add.assoc)
      then show ?thesis unfolding keep using c full "2.prems"(2) by (simp add: fits(1,2))
    qed
  qed
qed (simp add: rows_after_def)

text \<open>
  C26. The native paging agrees with the trait's default: whenever the whole range scans, the
  paged scan of every continuation key and budget returns what \<^verbatim>\<open>page_ordered_rows\<close> cuts
  from the materialised scan, errors included.
\<close>

theorem scan_page_agrees_with_default:
  assumes "mvcc_reachable m" and "scan m start stop r = Inr rows"
  shows "scan_page m start stop resume_after r mr mb =
    page_ordered_rows rows start stop resume_after mr mb"
proof -
  have inv: "mvcc_inv m" using assms(1) by (rule reachable_mvcc_inv)
  obtain b where b: "encoded_scan_bounds start stop = Inr b"
    using scan_fits(2) [OF inv assms(2)] by blast
  show ?thesis
  proof (cases "0 < mr \<and> 0 < mb \<and> validate_optional_key resume_after = Inr ()")
    case True
    have "\<forall>(k, _) \<in> set rows. in_scan_range start stop None k"
      using visible_rows_range [OF scan_visible_rows(1) [OF inv assms(2)]] by blast
    then have "page_rows_loop start stop resume_after mr mb rows [] 0 =
        take_page mr mb (rows_after resume_after rows) [] 0"
      using True scan_fits(1) [OF inv assms(2)] by (intro page_rows_loop_take) auto
    with True b show ?thesis
      using scan_page_of_scan [OF inv assms(2), of mr mb resume_after]
      by (simp add: page_ordered_rows_def validate_scan_page_limits_def)
  next
    case False
    then show ?thesis
      using b by (cases "validate_optional_key resume_after"; cases b; cases "mr = 0"; cases "mb = 0")
        (simp_all add: scan_page_def scan_page_over_def page_ordered_rows_def validate_scan_page_limits_def)
  qed
qed

theorem scan_page_agrees_with_default_witness:
  "scan_page demo_two_rows None None (Some demo_key2) 20 1 100 =
     page_ordered_rows [(demo_key2, demo_row), (demo_key, demo_row)] None None (Some demo_key2) 1 100"
  by (rule scan_page_agrees_with_default [OF demo_two_rows_reachable demo_two_scan])

section \<open>Map ranges\<close>

lemma scan_range_bounds:
  assumes "encoded_scan_bounds start stop = Inr (lo, hi)" and "\<not> resume_past_end resume_after stop"
  shows "range_or_panic panic t (scan_lower_bound start resume_after) hi =
    Inr (bt_range t (scan_lower_bound start resume_after) hi)"
proof -
  have "\<not> range_panics (scan_lower_bound start resume_after) hi"
    using assms
    by (cases "(start, resume_after)" rule: scan_lower_bound.cases; cases stop)
      (auto simp: encoded_scan_bounds_Inr upper_bound_def resume_past_end_def not_le)
  then show ?thesis by (simp add: range_or_panic_def)
qed

text \<open>
  C27. A scan never panics in \<^verbatim>\<open>BTreeMap::range\<close>: running the paged row scan, the intent scan
  and the conflict scan with a range call that unwinds on inverted bounds gives, for all
  arguments, the outcome of the scan itself, so the unwinding never happens, whatever value
  marks it.
\<close>

theorem scan_ranges_never_panic:
  "scan_page_over (range_or_panic panic (m_writes m)) (range_or_panic panic (m_locks m)) m
     start stop resume_after r mr mb = scan_page m start stop resume_after r mr mb \<and>
   scan_intent_page_over (range_or_panic panic (m_locks m)) start stop resume_after ml =
     scan_intent_page m start stop resume_after ml \<and>
   scan_conflicting_intents_over (range_or_panic panic (m_locks m)) encoded_len
     start stop resume_after r ml mb =
     scan_conflicting_intents encoded_len m start stop resume_after r ml mb"
proof (cases "encoded_scan_bounds start stop")
  case (Inr b)
  obtain lo hi where b: "b = (lo, hi)" by (cases b)
  show ?thesis
    using Inr b
    by (cases "resume_past_end resume_after stop")
      (simp_all add: scan_range_bounds [OF Inr [unfolded b]] scan_page_def scan_page_over_def scan_intent_page_def scan_intent_page_over_def
        scan_conflicting_intents_def scan_conflicting_intents_over_def Let_def)
qed (simp add: scan_page_def scan_page_over_def scan_intent_page_def scan_intent_page_over_def
    scan_conflicting_intents_def scan_conflicting_intents_over_def)

end
