(* ===== verification/Mvcc_Snapshot.thy ===== *)
theory Mvcc_Snapshot
  imports Mvcc_Pages "HOL-Library.Multiset"
begin

text \<open>
  Snapshots of the MVCC maps: \<^verbatim>\<open>capture_snapshot_state\<close>, \<^verbatim>\<open>from_snapshot_table\<close> and
  \<^verbatim>\<open>restore_from_snapshot_entries\<close> of \<^verbatim>\<open>ragnordb-storage/src/mvcc.rs\<close>. A reachable engine
  is captured without error and restored to an equal engine; a table image is accepted only
  when it is the capture of what it restores to, up to the order of its entries.
\<close>

section \<open>Snapshot entries\<close>

record DefaultValueEntry =
  de_key :: bytes
  de_start_timestamp :: "Timestamp option"
  de_row :: bytes

record LockEntry =
  le_key :: bytes
  le_record :: "proto_LockRecord option"

record WriteEntry =
  we_key :: bytes
  we_write_timestamp :: "Timestamp option"
  we_record :: "proto_WriteRecord option"

record CapturedMvccState =
  cs_default_values :: "DefaultValueEntry list"
  cs_locks :: "LockEntry list"
  cs_writes :: "WriteEntry list"

record RestoredMvccState =
  rs_storage :: InMemoryMvcc
  rs_max_transaction_id :: TxnId
  rs_max_timestamp :: Timestamp

section \<open>Capture\<close>

definition flatten2 :: "('k::linorder, 't::linorder, 'v) btree2 \<Rightarrow> (('k \<times> 't) \<times> 'v) list" where
  "flatten2 m = concat (map (\<lambda>(k, versions). map (\<lambda>(t, v). ((k, t), v)) (bt_iter versions)) (bt_iter m))"

definition capture_default :: "(bytes \<times> Timestamp) \<times> bytes \<Rightarrow> DefaultValueEntry" where
  "capture_default = (\<lambda>((key, start_timestamp), row).
     \<lparr>de_key = key, de_start_timestamp = Some start_timestamp, de_row = row\<rparr>)"

definition capture_lock :: "bytes \<times> LockRecord \<Rightarrow> LockEntry result" where
  "capture_lock = (\<lambda>(key, record).
     and_then (map_err (\<lambda>_. CorruptData) (LockRecord_to_proto record)) (\<lambda>p.
       Inr \<lparr>le_key = key, le_record = Some p\<rparr>))"

definition capture_write :: "(bytes \<times> Timestamp) \<times> WriteRecord \<Rightarrow> WriteEntry result" where
  "capture_write = (\<lambda>((key, write_timestamp), record).
     and_then (map_err (\<lambda>_. CorruptData) (WriteRecord_to_proto record)) (\<lambda>p.
       Inr \<lparr>we_key = key, we_write_timestamp = Some write_timestamp, we_record = Some p\<rparr>))"

definition capture_snapshot_state :: "InMemoryMvcc \<Rightarrow> CapturedMvccState result" where
  "capture_snapshot_state m =
     (let default_values = map capture_default (flatten2 (m_default m)) in
      and_then (try_map capture_lock (bt_iter (m_locks m))) (\<lambda>locks.
      and_then (try_map capture_write (flatten2 (m_writes m))) (\<lambda>writes.
        Inr \<lparr>cs_default_values = default_values, cs_locks = locks, cs_writes = writes\<rparr>)))"

section \<open>Restoration\<close>

definition validate_snapshot_row_key :: "TableId \<Rightarrow> bytes \<Rightarrow> unit result" where
  "validate_snapshot_row_key table key =
     and_then (map_err (\<lambda>_. CorruptData) (decode_row_key key)) (\<lambda>row_key.
       ensure (table_id row_key = table) CorruptData)"

definition restore_default ::
  "TableId \<Rightarrow> RestoredMvccState \<Rightarrow> DefaultValueEntry \<Rightarrow> RestoredMvccState result" where
  "restore_default table r entry =
     and_then (validate_snapshot_row_key table (de_key entry)) (\<lambda>_.
     and_then (ok_or (de_start_timestamp entry) CorruptData) (\<lambda>start_timestamp.
     and_then (ensure (start_timestamp \<noteq> 0) CorruptData) (\<lambda>_.
     and_then (map_err (\<lambda>_. CorruptData) (decode_row (de_row entry))) (\<lambda>_.
     let storage = rs_storage r in
     and_then (ensure (get2 (m_default storage) (de_key entry) start_timestamp = None) CorruptData) (\<lambda>_.
       Inr (r\<lparr>rs_storage := storage\<lparr>m_default :=
                insert2 (de_key entry) start_timestamp (de_row entry) (m_default storage)\<rparr>,
              rs_max_timestamp := max (rs_max_timestamp r) start_timestamp\<rparr>))))))"

definition restore_lock ::
  "TableId \<Rightarrow> RestoredMvccState \<Rightarrow> LockEntry \<Rightarrow> RestoredMvccState result" where
  "restore_lock table r entry =
     and_then (validate_snapshot_row_key table (le_key entry)) (\<lambda>_.
     and_then (and_then (ok_or (le_record entry) CorruptData) (\<lambda>p.
        map_err (\<lambda>_. CorruptData) (LockRecord_from_proto p))) (\<lambda>record.
     and_then (ensure (\<not> (l_txn_id record = 0 \<or> l_start_timestamp record = 0)) CorruptData) (\<lambda>_.
     let storage = rs_storage r in
     and_then (ensure (bt_get (m_locks storage) (le_key entry) = None) CorruptData) (\<lambda>_.
       Inr (r\<lparr>rs_storage := storage\<lparr>m_locks := bt_insert (le_key entry) record (m_locks storage)\<rparr>,
              rs_max_transaction_id := max (rs_max_transaction_id r) (l_txn_id record),
              rs_max_timestamp := max (rs_max_timestamp r) (l_start_timestamp record)\<rparr>)))))"

definition restore_write ::
  "TableId \<Rightarrow> RestoredMvccState \<Rightarrow> WriteEntry \<Rightarrow> RestoredMvccState result" where
  "restore_write table r entry =
     and_then (validate_snapshot_row_key table (we_key entry)) (\<lambda>_.
     and_then (ok_or (we_write_timestamp entry) CorruptData) (\<lambda>write_timestamp.
     and_then (and_then (ok_or (we_record entry) CorruptData) (\<lambda>p.
        map_err (\<lambda>_. CorruptData) (WriteRecord_from_proto p))) (\<lambda>record.
     and_then (validate_write_record write_timestamp record) (\<lambda>_.
     let storage = rs_storage r in
     and_then (ensure (get2 (m_writes storage) (we_key entry) write_timestamp = None) CorruptData) (\<lambda>_.
       Inr (r\<lparr>rs_storage := storage\<lparr>m_writes :=
                insert2 (we_key entry) write_timestamp record (m_writes storage)\<rparr>,
              rs_max_timestamp :=
                max (max (rs_max_timestamp r) (w_start_timestamp record)) write_timestamp\<rparr>))))))"

definition check_put_payloads :: "InMemoryMvcc \<Rightarrow> unit result" where
  "check_put_payloads storage =
     try_each (\<lambda>(key, versions).
       try_each (\<lambda>record.
         ensure (\<not> (w_op record = Put \<and>
             get2 (m_default storage) key (w_start_timestamp record) = None)) CorruptData)
         (bt_values versions))
       (bt_iter (m_writes storage))"

definition from_snapshot_table ::
  "TableId \<Rightarrow> DefaultValueEntry list \<Rightarrow> LockEntry list \<Rightarrow> WriteEntry list \<Rightarrow> RestoredMvccState result" where
  "from_snapshot_table table default_values locks writes =
     and_then (try_fold (restore_default table)
       \<lparr>rs_storage = InMemoryMvcc_new, rs_max_transaction_id = 0, rs_max_timestamp = 0\<rparr> default_values) (\<lambda>r1.
     and_then (try_fold (restore_lock table) r1 locks) (\<lambda>r2.
     and_then (try_fold (restore_write table) r2 writes) (\<lambda>r3.
     and_then (check_put_payloads (rs_storage r3)) (\<lambda>_. Inr r3))))"

definition restore_from_snapshot_entries ::
  "TableId \<Rightarrow> DefaultValueEntry list \<Rightarrow> LockEntry list \<Rightarrow> WriteEntry list \<Rightarrow> InMemoryMvcc result" where
  "restore_from_snapshot_entries table default_values locks writes =
     and_then (from_snapshot_table table default_values locks writes) (\<lambda>r. Inr (rs_storage r))"

section \<open>Loading distinct entries\<close>

text \<open>
  The three loops of the restoration share one contract: an entry either is refused or adds
  one new binding, which \<open>parse\<close> reads off the entry alone, keeps the rest of the state and
  raises the observed maximum by the entry's stamps.
\<close>

locale snapshot_loop =
  fixes step :: "'s \<Rightarrow> 'e \<Rightarrow> 'err + 's"
    and parse :: "'e \<Rightarrow> 'err + 'id \<times> 'v"
    and look :: "'s \<Rightarrow> 'id \<Rightarrow> 'v option"
    and frame :: "'s \<Rightarrow> 'f"
    and good :: "'s \<Rightarrow> bool"
    and mark :: "'s \<Rightarrow> 'm::linorder"
    and stamps :: "'id \<times> 'v \<Rightarrow> 'm list"
  assumes step_Inr: "step s e = Inr s' \<Longrightarrow> \<exists>i v. parse e = Inr (i, v) \<and> look s i = None \<and>
      look s' = (look s)(i \<mapsto> v) \<and> frame s' = frame s \<and> (good s \<longrightarrow> good s') \<and>
      mark s' = fold max (stamps (i, v)) (mark s)"
    and step_ok: "parse e = Inr (i, v) \<Longrightarrow> look s i = None \<Longrightarrow> is_ok (step s e)"
begin

lemma loop_Inr:
  "try_fold step s es = Inr s' \<Longrightarrow> \<exists>ps. try_map parse es = Inr ps \<and> distinct (map fst ps) \<and>
     (\<forall>p \<in> set ps. look s (fst p) = None) \<and> look s' = look s ++ map_of ps \<and> frame s' = frame s \<and>
     (good s \<longrightarrow> good s') \<and> mark s' = fold max (concat (map stamps ps)) (mark s)"
proof (induction es arbitrary: s)
  case (Cons e es)
  then obtain s1 where s1: "step s e = Inr s1" "try_fold step s1 es = Inr s'"
    by (auto simp: and_then_eq_Inr)
  obtain i v where e: "parse e = Inr (i, v)" "look s i = None" "look s1 = (look s)(i \<mapsto> v)"
      "frame s1 = frame s" "good s \<longrightarrow> good s1" "mark s1 = fold max (stamps (i, v)) (mark s)"
    using step_Inr [OF s1(1)] by blast
  obtain ps where ps: "try_map parse es = Inr ps" "distinct (map fst ps)"
      "\<forall>p \<in> set ps. look s1 (fst p) = None" "look s' = look s1 ++ map_of ps" "frame s' = frame s1"
      "good s1 \<longrightarrow> good s'" "mark s' = fold max (concat (map stamps ps)) (mark s1)"
    using Cons.IH [OF s1(2)] by blast
  have new: "i \<notin> fst ` set ps" using ps(3) e(3) by force
  then have "map_of ps i = None" by (simp add: map_of_eq_None_iff)
  then have look: "look s' = look s ++ map_of ((i, v) # ps)"
    unfolding ps(4) e(3) by (auto simp: fun_eq_iff map_add_def split: option.splits)
  have "\<forall>p \<in> set ps. look s (fst p) = None"
    using ps(3) e(2,3) by (auto split: if_splits)
  with e ps(1,2,5-7) new show ?case
    by (intro exI [of _ "(i, v) # ps"] conjI look) simp_all
qed simp

lemma loop_ok:
  "try_map parse es = Inr ps \<Longrightarrow> distinct (map fst ps) \<Longrightarrow> \<forall>p \<in> set ps. look s (fst p) = None \<Longrightarrow>
     \<exists>s'. try_fold step s es = Inr s'"
proof (induction es arbitrary: s ps)
  case (Cons e es)
  then obtain p ps' where p: "parse e = Inr p" "try_map parse es = Inr ps'" "ps = p # ps'"
    by (auto simp: and_then_eq_Inr)
  obtain i v where iv: "p = (i, v)" by (cases p)
  with Cons.prems p step_ok obtain s1 where s1: "step s e = Inr s1" by (fastforce simp: is_ok_iff)
  with step_Inr [OF s1] p(1) iv have "look s1 = (look s)(i \<mapsto> v)" by auto
  with Cons.prems p(3) iv have "\<forall>p \<in> set ps'. look s1 (fst p) = None"
    by (auto simp: rev_image_eqI)
  with Cons.IH [OF p(2)] Cons.prems(2) p(3) s1 show ?case by simp
qed simp

end

section \<open>The loops of the restoration\<close>

definition no_empty :: "('k::linorder, 't::linorder, 'v) btree2 \<Rightarrow> bool" where
  "no_empty m \<longleftrightarrow> (\<forall>k versions. bt_get m k = Some versions \<longrightarrow> \<not> bt_is_empty versions)"

definition compact :: "InMemoryMvcc \<Rightarrow> bool" where
  "compact m \<longleftrightarrow> no_empty (m_default m) \<and> no_empty (m_writes m)"

lemma no_empty_new [simp]: "no_empty bt_new"
  by (simp add: no_empty_def)

lemma no_empty_insert2 [simp]: "no_empty m \<Longrightarrow> no_empty (insert2 k t v m)"
  by (auto simp: no_empty_def insert2_def bt_is_empty_iff split: if_splits)

lemma btree2_ext:
  assumes "no_empty m" and "no_empty m'" and "\<And>k t. get2 m k t = get2 m' k t"
  shows "m = m'"
proof (rule bt_ext, rule ext)
  fix k
  show "bt_get m k = bt_get m' k"
  proof (cases "bt_get m k"; cases "bt_get m' k")
    fix a b
    assume *: "bt_get m k = Some a" "bt_get m' k = Some b"
    then have "bt_get a t = bt_get b t" for t using assms(3) [of k t] by (simp add: get2_def)
    with * show ?thesis by (simp add: bt_eq_iff)
  next
    fix a
    assume *: "bt_get m k = Some a" "bt_get m' k = None"
    with assms(1) obtain t where "bt_get a t \<noteq> None" unfolding no_empty_def bt_is_empty_iff by blast
    with * assms(3) [of k t] show ?thesis by (simp add: get2_def)
  next
    fix b
    assume *: "bt_get m k = None" "bt_get m' k = Some b"
    with assms(2) obtain t where "bt_get b t \<noteq> None" unfolding no_empty_def bt_is_empty_iff by blast
    with * assms(3) [of k t] show ?thesis by (simp add: get2_def)
  qed simp
qed

definition table_key :: "TableId \<Rightarrow> bytes \<Rightarrow> bool" where
  "table_key table k \<longleftrightarrow> (\<exists>rk. decode_row_key k = Inr rk \<and> table_id rk = table)"

lemma validate_snapshot_row_key_Inr [result_simps]:
  "validate_snapshot_row_key table k = Inr u \<longleftrightarrow> table_key table k"
  by (auto simp: validate_snapshot_row_key_def table_key_def result_simps)

definition parse_default :: "TableId \<Rightarrow> DefaultValueEntry \<Rightarrow> ((bytes \<times> Timestamp) \<times> bytes) result" where
  "parse_default table entry =
     (case de_start_timestamp entry of
        Some t \<Rightarrow> if table_key table (de_key entry) \<and> t \<noteq> 0 \<and> row_ok (de_row entry)
                  then Inr ((de_key entry, t), de_row entry) else Inl CorruptData
      | None \<Rightarrow> Inl CorruptData)"

definition parse_lock :: "TableId \<Rightarrow> LockEntry \<Rightarrow> (bytes \<times> LockRecord) result" where
  "parse_lock table entry =
     and_then (ensure (table_key table (le_key entry)) CorruptData) (\<lambda>_.
     and_then (ok_or (le_record entry) CorruptData) (\<lambda>p.
     and_then (map_err (\<lambda>_. CorruptData) (LockRecord_from_proto p)) (\<lambda>record.
       Inr (le_key entry, record))))"

definition parse_write :: "TableId \<Rightarrow> WriteEntry \<Rightarrow> ((bytes \<times> Timestamp) \<times> WriteRecord) result" where
  "parse_write table entry =
     and_then (ensure (table_key table (we_key entry)) CorruptData) (\<lambda>_.
     and_then (ok_or (we_write_timestamp entry) CorruptData) (\<lambda>t.
     and_then (ok_or (we_record entry) CorruptData) (\<lambda>p.
     and_then (map_err (\<lambda>_. CorruptData) (WriteRecord_from_proto p)) (\<lambda>record.
     and_then (ensure (write_ok t record) CorruptData) (\<lambda>_.
       Inr ((we_key entry, t), record))))))"

lemma LockRecord_from_proto_ids:
  "LockRecord_from_proto p = Inr l \<Longrightarrow> l_txn_id l \<noteq> 0 \<and> l_start_timestamp l \<noteq> 0"
  by (auto simp: LockRecord_from_proto_def Let_def result_simps lock_valid_def)

interpretation default_loop: snapshot_loop "restore_default table" "parse_default table"
    "\<lambda>r i. get2 (m_default (rs_storage r)) (fst i) (snd i)"
    "\<lambda>r. (m_locks (rs_storage r), m_writes (rs_storage r), rs_max_transaction_id r)"
    "\<lambda>r. no_empty (m_default (rs_storage r))" rs_max_timestamp "\<lambda>((k, t), row). [t]"
  for table
  by unfold_locales
    (auto simp: restore_default_def parse_default_def Let_def is_ok_iff result_simps row_ok_iff
      fun_eq_iff max.commute split: option.splits if_splits)

interpretation lock_loop: snapshot_loop "restore_lock table" "parse_lock table"
    "\<lambda>r. bt_get (m_locks (rs_storage r))"
    "\<lambda>r. (m_default (rs_storage r), m_writes (rs_storage r))" "\<lambda>_. True"
    "\<lambda>r. rs_max_timestamp r" "\<lambda>(k, l). [l_start_timestamp l]"
  for table
  by unfold_locales
    (auto simp: restore_lock_def parse_lock_def Let_def is_ok_iff result_simps max.commute
      dest: LockRecord_from_proto_ids)

interpretation lock_txn_loop: snapshot_loop "restore_lock table" "parse_lock table"
    "\<lambda>r. bt_get (m_locks (rs_storage r))"
    "\<lambda>r. (m_default (rs_storage r), m_writes (rs_storage r))" "\<lambda>_. True"
    "\<lambda>r. rs_max_transaction_id r" "\<lambda>(k, l). [l_txn_id l]"
  for table
  by unfold_locales
    (auto simp: restore_lock_def parse_lock_def Let_def is_ok_iff result_simps max.commute
      dest: LockRecord_from_proto_ids)

interpretation write_loop: snapshot_loop "restore_write table" "parse_write table"
    "\<lambda>r i. get2 (m_writes (rs_storage r)) (fst i) (snd i)"
    "\<lambda>r. (m_locks (rs_storage r), m_default (rs_storage r), rs_max_transaction_id r)"
    "\<lambda>r. no_empty (m_writes (rs_storage r))" rs_max_timestamp
    "\<lambda>((k, t), w). [w_start_timestamp w, t]"
  for table
  by unfold_locales
    (auto simp: restore_write_def parse_write_def Let_def is_ok_iff result_simps fun_eq_iff max.commute
      max.left_commute validate_write_record_Inr)

section \<open>Flattened maps\<close>

lemma set_flatten2: "((k, t), v) \<in> set (flatten2 m) \<longleftrightarrow> get2 m k t = Some v"
  by (force simp: flatten2_def get2_Some bt.iter_mem)

lemma distinct_flatten2: "distinct (map fst (flatten2 m))"
proof -
  have "distinct (map fst xs) \<Longrightarrow>
      distinct (map fst (concat (map (\<lambda>(k, vs). map (\<lambda>(t, v). ((k, t), v)) (bt_iter vs)) xs)))"
    for xs :: "('a \<times> ('b, 'c) btree) list"
  proof (induction xs)
    case (Cons x xs)
    obtain k vs where x: "x = (k, vs)" by (cases x)
    have "map (fst \<circ> (\<lambda>(t, v). ((k, t), v))) (bt_iter vs) = map (Pair k) (bt_keys vs)"
      by (simp add: bt_keys_def comp_def case_prod_unfold)
    then have "distinct (map fst (map (\<lambda>(t, v). ((k, t), v)) (bt_iter vs)))"
      by (simp add: distinct_map inj_on_def bt_keys_distinct)
    moreover have "((k, t), v) \<notin> set (concat (map (\<lambda>(k, vs). map (\<lambda>(t, v). ((k, t), v)) (bt_iter vs)) xs))"
      for t v
      using Cons.prems x by (force simp: image_iff)
    ultimately show ?case using Cons x by (auto simp del: set_concat)
  qed simp
  then show ?thesis unfolding flatten2_def by (simp add: bt.iter_distinct)
qed

lemma map_of_flatten2: "map_of (flatten2 m) (k, t) = get2 m k t"
proof (cases "get2 m k t")
  case None
  then have "(k, t) \<notin> fst ` set (flatten2 m)" using set_flatten2 [of k t _ m] by auto
  with None show ?thesis by (simp add: map_of_eq_None_iff)
next
  case (Some v)
  then show ?thesis by (simp add: set_flatten2 distinct_flatten2)
qed

lemma try_map_projr: "try_map f xs = Inr ys \<longleftrightarrow> (\<forall>x \<in> set xs. is_ok (f x)) \<and> ys = map (\<lambda>x. projr (f x)) xs"
  by (induction xs arbitrary: ys) (auto simp: and_then_eq_Inr is_ok_iff)

lemma try_map_mset:
  assumes "try_map f xs = Inr ys" and "mset xs' = mset xs"
  shows "\<exists>ys'. try_map f xs' = Inr ys' \<and> mset ys' = mset ys"
  using assms mset_eq_setD [OF assms(2)] by (auto simp: try_map_projr)

lemma try_map_inverse:
  assumes "try_map parse es = Inr ps" and "\<And>e p. parse e = Inr p \<Longrightarrow> cap p = Inr e"
  shows "try_map cap ps = Inr es"
  using assms(1) unfolding try_map_eq_Inr
  by (subst list_all2_conv_all_nth) (auto simp: list_all2_conv_all_nth assms(2))

lemma mset_bindings:
  assumes "distinct (map fst xs)" and "distinct (map fst ys)" and "map_of xs = map_of ys"
  shows "mset xs = mset ys"
proof -
  have "set xs = set ys" using assms map_of_inject_set [of xs ys] by simp
  then show ?thesis using assms by (simp add: distinct_map set_eq_iff_mset_eq_distinct [symmetric])
qed

lemma fold_max_set:
  fixes a :: "'a::linorder"
  assumes "set xs = set ys"
  shows "fold max xs a = fold max ys a"
proof -
  have "fold max zs a = Max (set (a # zs))" for zs using Max.set_eq_fold [of a zs] by simp
  then show ?thesis using assms by simp
qed

section \<open>What a table image restores to\<close>

lemma from_snapshot_table_Inr:
  assumes "from_snapshot_table table D L W = Inr r"
  obtains ds ls ws where
    "try_map (parse_default table) D = Inr ds" "distinct (map fst ds)"
    "\<And>k t. get2 (m_default (rs_storage r)) k t = map_of ds (k, t)"
    "try_map (parse_lock table) L = Inr ls" "distinct (map fst ls)"
    "bt_get (m_locks (rs_storage r)) = map_of ls"
    "try_map (parse_write table) W = Inr ws" "distinct (map fst ws)"
    "\<And>k t. get2 (m_writes (rs_storage r)) k t = map_of ws (k, t)"
    "compact (rs_storage r)"
    "rs_max_transaction_id r = fold max (map (l_txn_id \<circ> snd) ls) 0"
    "rs_max_timestamp r = fold max (map (snd \<circ> fst) ds @ map (l_start_timestamp \<circ> snd) ls @
       concat (map (\<lambda>((k, t), w). [w_start_timestamp w, t]) ws)) 0"
proof -
  define r0 where "r0 = \<lparr>rs_storage = InMemoryMvcc_new, rs_max_transaction_id = 0, rs_max_timestamp = 0\<rparr>"
  obtain r1 r2 where r: "try_fold (restore_default table) r0 D = Inr r1"
    "try_fold (restore_lock table) r1 L = Inr r2" "try_fold (restore_write table) r2 W = Inr r"
    using assms by (auto simp: from_snapshot_table_def and_then_eq_Inr r0_def)
  from default_loop.loop_Inr [OF r(1)] obtain ds where ds:
    "try_map (parse_default table) D = Inr ds" "distinct (map fst ds)"
    "(\<lambda>i. get2 (m_default (rs_storage r1)) (fst i) (snd i)) = map_of ds"
    "m_locks (rs_storage r1) = bt_new" "m_writes (rs_storage r1) = bt_new" "rs_max_transaction_id r1 = 0"
    "no_empty (m_default (rs_storage r1))" "rs_max_timestamp r1 = fold max (map (snd \<circ> fst) ds) 0"
    by (auto simp: r0_def InMemoryMvcc_new_def case_prod_unfold comp_def)
  from lock_loop.loop_Inr [OF r(2)] lock_txn_loop.loop_Inr [OF r(2)] obtain ls where ls:
    "try_map (parse_lock table) L = Inr ls" "distinct (map fst ls)"
    "bt_get (m_locks (rs_storage r2)) = map_of ls"
    "m_default (rs_storage r2) = m_default (rs_storage r1)" "m_writes (rs_storage r2) = bt_new"
    "rs_max_transaction_id r2 = fold max (map (l_txn_id \<circ> snd) ls) 0"
    "rs_max_timestamp r2 = fold max (map (l_start_timestamp \<circ> snd) ls) (rs_max_timestamp r1)"
    by (auto simp: ds(4-6) case_prod_unfold comp_def bt_get_new_fun)
  from write_loop.loop_Inr [OF r(3)] obtain ws where ws:
    "try_map (parse_write table) W = Inr ws" "distinct (map fst ws)"
    "(\<lambda>i. get2 (m_writes (rs_storage r)) (fst i) (snd i)) = map_of ws"
    "m_default (rs_storage r) = m_default (rs_storage r1)" "m_locks (rs_storage r) = m_locks (rs_storage r2)"
    "rs_max_transaction_id r = rs_max_transaction_id r2" "no_empty (m_writes (rs_storage r))"
    "rs_max_timestamp r = fold max (concat (map (\<lambda>((k, t), w). [w_start_timestamp w, t]) ws)) (rs_max_timestamp r2)"
    by (auto simp: ls(4,5))
  show ?thesis
  proof (rule that [OF ds(1,2) _ ls(1,2) _ ws(1,2)])
    show "get2 (m_default (rs_storage r)) k t = map_of ds (k, t)" for k t
      using fun_cong [OF ds(3), of "(k, t)"] ws(4) by simp
    show "get2 (m_writes (rs_storage r)) k t = map_of ws (k, t)" for k t
      using fun_cong [OF ws(3), of "(k, t)"] by simp
  qed (use ds ls ws in \<open>simp_all add: compact_def\<close>)
qed

lemma parse_default_capture: "parse_default table e = Inr p \<Longrightarrow> capture_default p = e"
  by (auto simp: parse_default_def capture_default_def split: option.splits if_splits)

lemma parse_lock_capture: "parse_lock table e = Inr p \<Longrightarrow> capture_lock p = Inr e"
  by (auto simp: parse_lock_def capture_lock_def result_simps LockRecord_wire)

lemma parse_write_capture: "parse_write table e = Inr p \<Longrightarrow> capture_write p = Inr e"
  by (auto simp: parse_write_def capture_write_def result_simps WriteRecord_wire)

section \<open>Observed maxima\<close>

lemma fold_max_map: "fold (\<lambda>x a. max a (f x)) xs a = fold max (map f xs) (a :: 'm::linorder)"
  by (induction xs arbitrary: a) (auto simp: max.commute)

lemma fold_max_concat: "fold (\<lambda>x. fold max (f x)) xs a = fold max (concat (map f xs)) (a :: 'm::linorder)"
  by (induction xs arbitrary: a) auto

lemma fold_max_writes:
  "fold (\<lambda>(c, r) ts. max (max ts c) (w_start_timestamp r)) xs =
     fold max (concat (map (\<lambda>(c, r). [c, w_start_timestamp r]) xs))"
  by (induction xs) (auto simp: fun_eq_iff max.commute max.left_commute)

lemma high_water_marks_fold:
  "allocator_high_water_marks m =
     (fold max (map l_txn_id (bt_values (m_locks m))) 0,
      fold max (concat (map bt_keys (bt_values (m_default m))) @
        map l_start_timestamp (bt_values (m_locks m)) @
        concat (map (\<lambda>vs. concat (map (\<lambda>(c, r). [c, w_start_timestamp r]) (bt_iter vs)))
          (bt_values (m_writes m)))) 0)"
  by (simp add: high_water_marks_eq lock_high_def default_high_def fold_max_map fold_max_concat
      fold_max_writes)

lemma set_bt_values: "set (bt_values m) = {v. \<exists>k. bt_get m k = Some v}"
  by (auto simp: bt_values_mem)

lemma version_keys: "set (concat (map bt_keys (bt_values m))) = {t. \<exists>k v. get2 m k t = Some v}"
  by (auto simp: set_bt_values get2_Some)

lemma version_stamps:
  "set (concat (map (\<lambda>vs. concat (map (\<lambda>(c, r). [c, w_start_timestamp r]) (bt_iter vs))) (bt_values m))) =
     {x. \<exists>k t w. get2 m k t = Some w \<and> (x = t \<or> x = w_start_timestamp w)}"
proof -
  have inner: "set (concat (map (\<lambda>(c, r). [c, w_start_timestamp r]) (bt_iter vs))) =
      {x. \<exists>t w. bt_get vs t = Some w \<and> (x = t \<or> x = w_start_timestamp w)}" for vs
    by (fastforce simp flip: bt.iter_mem)
  have outer: "set (concat (map g (bt_values m))) = (\<Union>vs \<in> {v. \<exists>k. bt_get m k = Some v}. set (g vs))"
    for g :: "_ \<Rightarrow> Timestamp list"
    by (simp add: set_bt_values)
  show ?thesis unfolding outer inner by (auto simp: get2_Some)
qed

lemma image_bindings:
  assumes "distinct (map fst xs)"
  shows "f ` set xs = {y. \<exists>k v. map_of xs k = Some v \<and> y = f (k, v)}"
  using assms by (auto simp: image_iff Bex_def)

lemma restored_marks:
  assumes "from_snapshot_table table D L W = Inr r"
  shows "allocator_high_water_marks (rs_storage r) = (rs_max_transaction_id r, rs_max_timestamp r)"
  using assms
proof (cases rule: from_snapshot_table_Inr)
  case (1 ds ls ws)
  have ds: "set (map (snd \<circ> fst) ds) = {t. \<exists>k v. map_of ds (k, t) = Some v}"
    by (auto simp: image_bindings [OF 1(2)])
  have ls: "set (map (f \<circ> snd) ls) = {x. \<exists>k l. map_of ls k = Some l \<and> x = f l}" for f :: "LockRecord \<Rightarrow> u64"
    by (auto simp: image_bindings [OF 1(5)])
  have ws: "set (concat (map (\<lambda>((k, t), w). [w_start_timestamp w, t]) ws)) =
      {x. \<exists>k t w. map_of ws (k, t) = Some w \<and> (x = t \<or> x = w_start_timestamp w)}"
    by (fastforce simp: map_of_eq_Some_iff [OF 1(8)])
  have locks: "set (map f (bt_values (m_locks (rs_storage r)))) = {x. \<exists>k l. map_of ls k = Some l \<and> x = f l}"
    for f :: "LockRecord \<Rightarrow> u64"
    using 1(6) by (auto simp: set_bt_values)
  show ?thesis
    unfolding high_water_marks_fold 1(11,12)
    by (intro prod.inject [THEN iffD2] conjI fold_max_set)
      (simp_all only: set_append version_keys version_stamps ds ls ws locks 1(3,9))
qed

lemma try_map_memE: "try_map f xs = Inr ys \<Longrightarrow> y \<in> set ys \<Longrightarrow> \<exists>x \<in> set xs. f x = Inr y"
  by (induction xs arbitrary: ys) (auto simp: and_then_eq_Inr)

lemma parsed_keys:
  assumes "try_map (parse_default table) D = Inr ds" and "try_map (parse_lock table) L = Inr ls"
    and "try_map (parse_write table) W = Inr ws"
  shows "map_of ds (k, t) = Some row \<Longrightarrow> table_key table k"
    and "map_of ls k = Some l \<Longrightarrow> table_key table k"
    and "map_of ws (k, t) = Some w \<Longrightarrow> table_key table k"
proof -
  show "map_of ds (k, t) = Some row \<Longrightarrow> table_key table k"
    by (drule map_of_SomeD, drule try_map_memE [OF assms(1)])
      (auto simp: parse_default_def split: option.splits if_splits)
  show "map_of ls k = Some l \<Longrightarrow> table_key table k"
    by (drule map_of_SomeD, drule try_map_memE [OF assms(2)]) (auto simp: parse_lock_def result_simps)
  show "map_of ws (k, t) = Some w \<Longrightarrow> table_key table k"
    by (drule map_of_SomeD, drule try_map_memE [OF assms(3)]) (auto simp: parse_write_def result_simps)
qed

lemma parsed_rows:
  assumes "try_map (parse_default table) D = Inr ds" and "map_of ds (k, t) = Some row"
  shows "row_ok row"
  using try_map_memE [OF assms(1) map_of_SomeD [OF assms(2)]]
  by (auto simp: parse_default_def split: option.splits if_splits)

lemma check_put_payloads_Inr:
  "check_put_payloads m = Inr u \<longleftrightarrow>
     (\<forall>k t w. wr m k t = Some w \<longrightarrow> w_op w = Put \<longrightarrow> (\<exists>row. dv m k (w_start_timestamp w) = Some row))"
proof -
  have "check_put_payloads m = Inr u \<longleftrightarrow> (\<forall>k vs t w. bt_get (m_writes m) k = Some vs \<longrightarrow> bt_get vs t = Some w \<longrightarrow>
      w_op w = Put \<longrightarrow> dv m k (w_start_timestamp w) \<noteq> None)"
    by (fastforce simp: check_put_payloads_def result_simps set_bt_values dv_def simp flip: bt.iter_mem)
  then show ?thesis by (auto simp: wr_def get2_Some)
qed

text \<open>
  C29. A table image is accepted only if it is faithful: when restoration succeeds, capturing
  the restored engine yields the entries of the image again (up to their order, so nothing was
  dropped, merged or altered), every key belongs to the table, every committed Put has its
  payload, and the reported maxima are the allocator high-water marks of the restored state.
\<close>

theorem snapshot_restore_faithful:
  assumes "from_snapshot_table table D L W = Inr r"
  shows "(\<exists>c. capture_snapshot_state (rs_storage r) = Inr c \<and> mset (cs_default_values c) = mset D \<and>
      mset (cs_locks c) = mset L \<and> mset (cs_writes c) = mset W) \<and>
    (\<forall>k. populated (rs_storage r) k \<longrightarrow> table_key table k) \<and>
    (\<forall>k. readable_defaults (rs_storage r) k) \<and>
    allocator_high_water_marks (rs_storage r) = (rs_max_transaction_id r, rs_max_timestamp r)"
  using assms
proof (cases rule: from_snapshot_table_Inr)
  case (1 ds ls ws)
  let ?m = "rs_storage r"
  have D: "map capture_default ds = D"
    using try_map_inverse [OF 1(1), of "\<lambda>p. Inr (capture_default p)"] parse_default_capture
    by (auto simp: try_map_projr)
  have d: "mset (flatten2 (m_default ?m)) = mset ds"
    using 1(2,3) by (intro mset_bindings distinct_flatten2) (auto simp: map_of_flatten2 fun_eq_iff)
  have "mset (bt_iter (m_locks ?m)) = mset ls"
    using 1(5,6) by (intro mset_bindings bt.iter_distinct) (auto simp: bt.iter_get)
  with try_map_mset [OF try_map_inverse [where cap = capture_lock, OF 1(4)]] parse_lock_capture obtain L' where
    L: "try_map capture_lock (bt_iter (m_locks ?m)) = Inr L'" "mset L' = mset L" by blast
  have "mset (flatten2 (m_writes ?m)) = mset ws"
    using 1(8,9) by (intro mset_bindings distinct_flatten2) (auto simp: map_of_flatten2 fun_eq_iff)
  with try_map_mset [OF try_map_inverse [where cap = capture_write, OF 1(7)]] parse_write_capture obtain W' where
    W: "try_map capture_write (flatten2 (m_writes ?m)) = Inr W'" "mset W' = mset W" by blast
  have keys: "table_key table k" if "populated ?m k" for k
    using that 1(3,6,9) parsed_keys [OF 1(1) 1(4) 1(7)] by (auto simp: populated_def dv_def lk_def wr_def)
  have puts: "readable_defaults ?m k" for k
    unfolding readable_defaults_def
  proof (intro allI impI)
    fix t w
    assume "wr ?m k t = Some w" "w_op w = Put"
    with check_put_payloads_Inr assms obtain row where
      row: "dv ?m k (w_start_timestamp w) = Some row"
      by (fastforce simp: from_snapshot_table_def and_then_eq_Inr)
    then have "row_ok row" using 1(3) parsed_rows [OF 1(1)] by (simp add: dv_def)
    with row show "\<exists>row r. dv ?m k (w_start_timestamp w) = Some row \<and> decode_row row = Inr r"
      by (auto simp: row_ok_iff)
  qed
  have "mset (map capture_default (flatten2 (m_default ?m))) = mset D" using d D by (simp flip: D)
  with L W show ?thesis
    using keys puts restored_marks [OF assms] by (simp add: capture_snapshot_state_def)
qed

definition demo_image :: "DefaultValueEntry list" where
  "demo_image = [\<lparr>de_key = demo_key, de_start_timestamp = Some 5, de_row = demo_row\<rparr>,
     \<lparr>de_key = demo_key2, de_start_timestamp = Some 3, de_row = demo_row\<rparr>]"

theorem snapshot_restore_faithful_witness:
  "\<exists>r c. from_snapshot_table 1 demo_image [] [] = Inr r \<and>
    capture_snapshot_state (rs_storage r) = Inr c \<and> mset (cs_default_values c) = mset demo_image \<and>
    allocator_high_water_marks (rs_storage r) = (0, 5)"
proof -
  have "is_ok (from_snapshot_table 1 demo_image [] [])" by code_simp
  then obtain r where r: "from_snapshot_table 1 demo_image [] [] = Inr r" by (auto simp: is_ok_iff)
  have "map_sum id (\<lambda>r. (rs_max_transaction_id r, rs_max_timestamp r)) (from_snapshot_table 1 demo_image [] []) =
      Inr (0, 5)" by code_simp
  with r have "(rs_max_transaction_id r, rs_max_timestamp r) = (0, 5)" by simp
  with snapshot_restore_faithful [OF r] r show ?thesis by auto
qed

section \<open>Round trip of a reachable engine\<close>

lemma no_empty_remove_default_version: "no_empty d \<Longrightarrow> no_empty (remove_default_version k s d)"
  by (auto simp: no_empty_def remove_default_version_def Let_def split: option.splits if_splits)

lemma compact_apply:
  assumes "compact m"
  shows "compact (apply_prewrite p m)" and "compact (apply_intent_commit q m)"
    and "compact (apply_intent_rollback s r m)" and "compact (publish_mutation txn s c x m)"
  using assms
  by (auto simp: compact_def apply_prewrite_def apply_intent_commit_def apply_intent_rollback_def
      publish_mutation_def no_empty_remove_default_version Let_def
      split: option.splits prod.splits Mutation.splits)

interpretation mvcc_compact: step_invariant "\<lambda>m. m = InMemoryMvcc_new" mvcc_step compact
proof
  show "\<And>m. m = InMemoryMvcc_new \<Longrightarrow> compact m" by (simp add: compact_def InMemoryMvcc_new_def)
  have folds: "(\<And>x m. compact m \<Longrightarrow> compact (f x m)) \<Longrightarrow> compact m \<Longrightarrow> compact (fold f xs m)"
    for f :: "'a \<Rightarrow> InMemoryMvcc \<Rightarrow> InMemoryMvcc" and xs m
    by (induction xs arbitrary: m) auto
  show "\<And>m m'. compact m \<Longrightarrow> mvcc_step m m' \<Longrightarrow> compact m'"
    by (erule mvcc_step_batch_cases)
      (auto elim!: prewrite_batch_cases commit_intents_batch_cases rollback_intents_batch_cases
        commit_batch_cases intro!: folds compact_apply)
qed

lemma try_map_capture:
  assumes "\<And>p. p \<in> set ps \<Longrightarrow> \<exists>e. cap p = Inr e \<and> parse e = Inr p"
  shows "\<exists>es. try_map cap ps = Inr es \<and> try_map parse es = Inr ps"
  using assms by (induction ps) fastforce+

lemma LockRecord_to_proto_ok: "lock_valid l \<Longrightarrow> \<exists>p. LockRecord_to_proto l = Inr p"
  by (auto simp: LockRecord_to_proto_def result_simps)

lemma WriteRecord_to_proto_ok: "write_ok t w \<Longrightarrow> \<exists>p. WriteRecord_to_proto w = Inr p"
  by (auto simp: WriteRecord_to_proto_def result_simps write_ok_def split: if_splits)

lemma default_payload_ok:
  assumes "key_inv m k" and "dv m k s = Some row"
  shows "s \<noteq> 0 \<and> row_ok row"
proof -
  note i = key_invD [OF assms(1)]
  from i(4) assms(2) consider l where "lk m k = Some l" "l_start_timestamp l = s" "l_op l = Put"
    | t w where "wr m k t = Some w" "w_start_timestamp w = s" "w_op w = Put"
    by (auto simp: no_orphans_def)
  then show ?thesis
  proof cases
    case 1
    with i(3) assms(2) show ?thesis by (auto simp: lock_inv_def lock_valid_def)
  next
    case 2
    with i(1,2) assms(2) show ?thesis
      by (fastforce simp: writes_ok_def write_ok_def readable_defaults_def row_ok_iff)
  qed
qed

lemma capture_reachable:
  assumes inv: "mvcc_inv m" and keys: "\<And>k. populated m k \<Longrightarrow> table_key table k"
  shows "\<exists>c. capture_snapshot_state m = Inr c \<and>
    try_map (parse_default table) (cs_default_values c) = Inr (flatten2 (m_default m)) \<and>
    try_map (parse_lock table) (cs_locks c) = Inr (bt_iter (m_locks m)) \<and>
    try_map (parse_write table) (cs_writes c) = Inr (flatten2 (m_writes m))"
proof -
  have k: "key_inv m k" for k using inv by (simp add: mvcc_inv_def)
  have d: "parse_default table (capture_default p) = Inr p" if "p \<in> set (flatten2 (m_default m))" for p
  proof -
    obtain k t row where p: "p = ((k, t), row)" by (metis surj_pair)
    with that have "dv m k t = Some row" by (simp add: set_flatten2 dv_def)
    with default_payload_ok [OF k this] keys [of k] show ?thesis
      by (auto simp: p capture_default_def parse_default_def populated_def)
  qed
  then have D: "try_map (parse_default table) (map capture_default (flatten2 (m_default m))) =
      Inr (flatten2 (m_default m))"
    by (auto simp: try_map_projr o_def intro!: map_idI [symmetric])
  have "\<exists>e. capture_lock p = Inr e \<and> parse_lock table e = Inr p" if "p \<in> set (bt_iter (m_locks m))" for p
  proof -
    obtain key l where p: "p = (key, l)" by (cases p)
    with that have l: "lk m key = Some l" by (simp add: bt.iter_mem lk_def)
    then have "lock_valid l" using key_invD(3) [OF k] by (auto simp: lock_inv_def)
    then obtain q where "LockRecord_to_proto l = Inr q" using LockRecord_to_proto_ok by blast
    with l keys [of key] show ?thesis
      by (auto simp: p capture_lock_def parse_lock_def result_simps LockRecord_wire populated_def)
  qed
  from try_map_capture [OF this] obtain L where L: "try_map capture_lock (bt_iter (m_locks m)) = Inr L"
    "try_map (parse_lock table) L = Inr (bt_iter (m_locks m))" by blast
  have "\<exists>e. capture_write p = Inr e \<and> parse_write table e = Inr p" if "p \<in> set (flatten2 (m_writes m))" for p
  proof -
    obtain key t w where p: "p = ((key, t), w)" by (metis surj_pair)
    with that have w: "wr m key t = Some w" by (simp add: set_flatten2 wr_def)
    then have ok: "write_ok t w" using k [of key] by (auto simp: key_inv_def writes_ok_def)
    then obtain q where "WriteRecord_to_proto w = Inr q" using WriteRecord_to_proto_ok by blast
    with w ok keys [of key] show ?thesis
      by (auto simp: p capture_write_def parse_write_def result_simps WriteRecord_wire populated_def)
  qed
  from try_map_capture [OF this] obtain W where W: "try_map capture_write (flatten2 (m_writes m)) = Inr W"
    "try_map (parse_write table) W = Inr (flatten2 (m_writes m))" by blast
  from D L W show ?thesis by (simp add: capture_snapshot_state_def Let_def)
qed

lemma restore_captured:
  assumes inv: "mvcc_inv m"
    and D: "try_map (parse_default table) D = Inr (flatten2 (m_default m))"
    and L: "try_map (parse_lock table) L = Inr (bt_iter (m_locks m))"
    and W: "try_map (parse_write table) W = Inr (flatten2 (m_writes m))"
  shows "\<exists>r. from_snapshot_table table D L W = Inr r"
proof -
  define r0 where "r0 = \<lparr>rs_storage = InMemoryMvcc_new, rs_max_transaction_id = 0, rs_max_timestamp = 0\<rparr>"
  obtain r1 where r1: "try_fold (restore_default table) r0 D = Inr r1"
    using default_loop.loop_ok [OF D distinct_flatten2, of r0] by (auto simp: r0_def InMemoryMvcc_new_def)
  from default_loop.loop_Inr [OF r1] D
  have d: "m_locks (rs_storage r1) = bt_new" "m_writes (rs_storage r1) = bt_new"
    "(\<lambda>i. get2 (m_default (rs_storage r1)) (fst i) (snd i)) = map_of (flatten2 (m_default m))"
    by (auto simp: r0_def InMemoryMvcc_new_def)
  obtain r2 where r2: "try_fold (restore_lock table) r1 L = Inr r2"
    using lock_loop.loop_ok [OF L bt.iter_distinct, of r1] by (auto simp: d(1))
  from lock_loop.loop_Inr [OF r2]
  have l: "m_default (rs_storage r2) = m_default (rs_storage r1)" "m_writes (rs_storage r2) = bt_new"
    by (auto simp: d(2))
  obtain r3 where r3: "try_fold (restore_write table) r2 W = Inr r3"
    using write_loop.loop_ok [OF W distinct_flatten2, of r2] by (auto simp: l(2))
  from write_loop.loop_Inr [OF r3] W
  have w: "m_default (rs_storage r3) = m_default (rs_storage r1)"
    "(\<lambda>i. get2 (m_writes (rs_storage r3)) (fst i) (snd i)) = map_of (flatten2 (m_writes m))"
    by (auto simp: l)
  have views: "wr (rs_storage r3) k t = wr m k t" "dv (rs_storage r3) k t = dv m k t" for k t
    using fun_cong [OF w(2), of "(k, t)"] fun_cong [OF d(3), of "(k, t)"] w(1)
    by (simp_all add: wr_def dv_def map_of_flatten2)
  have "\<exists>row. dv m k (w_start_timestamp w) = Some row" if "wr m k t = Some w" "w_op w = Put" for k t w
    using inv that by (fastforce simp: mvcc_inv_def key_inv_def readable_defaults_def)
  then have "check_put_payloads (rs_storage r3) = Inr ()" by (simp add: check_put_payloads_Inr views)
  with r1 r2 r3 show ?thesis by (simp add: from_snapshot_table_def r0_def)
qed

text \<open>
  C28. Snapshots restore the engine: every reachable engine whose keys belong to one table is
  captured without error, and restoring the captured entries for that table succeeds and
  yields the same three maps.
\<close>

theorem snapshot_roundtrip:
  assumes "mvcc_reachable m" and "\<And>k. populated m k \<Longrightarrow> table_key table k"
  shows "\<exists>c. capture_snapshot_state m = Inr c \<and>
    restore_from_snapshot_entries table (cs_default_values c) (cs_locks c) (cs_writes c) = Inr m"
proof -
  have inv: "mvcc_inv m" using assms(1) by (rule reachable_mvcc_inv)
  have compact: "compact m"
    using assms(1) unfolding mvcc_reachable_def by (rule mvcc_compact.reachable_inv [OF refl])
  obtain c where c: "capture_snapshot_state m = Inr c"
    "try_map (parse_default table) (cs_default_values c) = Inr (flatten2 (m_default m))"
    "try_map (parse_lock table) (cs_locks c) = Inr (bt_iter (m_locks m))"
    "try_map (parse_write table) (cs_writes c) = Inr (flatten2 (m_writes m))"
    using capture_reachable [OF inv assms(2)] by blast
  obtain r where r: "from_snapshot_table table (cs_default_values c) (cs_locks c) (cs_writes c) = Inr r"
    using restore_captured [OF inv c(2-4)] by blast
  then have "rs_storage r = m"
  proof (cases rule: from_snapshot_table_Inr)
    case (1 ds ls ws)
    have "m_default (rs_storage r) = m_default m"
      using 1(1,3,10) c(2) compact by (intro btree2_ext) (auto simp: compact_def map_of_flatten2)
    moreover have "m_writes (rs_storage r) = m_writes m"
      using 1(7,9,10) c(4) compact by (intro btree2_ext) (auto simp: compact_def map_of_flatten2)
    moreover have "m_locks (rs_storage r) = m_locks m"
      using 1(4,6) c(3) by (intro bt_ext) (auto simp: bt.iter_get)
    ultimately show ?thesis by simp
  qed
  with c(1) r show ?thesis by (simp add: restore_from_snapshot_entries_def)
qed

lemma demo_table:
  assumes "populated demo_relocked k"
  shows "table_key 1 k"
proof -
  have "bt_keys (m_default demo_relocked) = [demo_key]" "bt_keys (m_locks demo_relocked) = [demo_key]"
    "bt_keys (m_writes demo_relocked) = [demo_key2, demo_key]" by code_simp+
  then have "dom (bt_get (m_default demo_relocked)) \<subseteq> {demo_key, demo_key2}"
    "dom (bt_get (m_locks demo_relocked)) \<subseteq> {demo_key, demo_key2}"
    "dom (bt_get (m_writes demo_relocked)) \<subseteq> {demo_key, demo_key2}"
    by (simp_all flip: set_bt_keys)
  with assms have "k = demo_key \<or> k = demo_key2"
    by (auto simp: populated_def dv_def lk_def wr_def get2_Some)
  moreover have "decode_row_key demo_key = Inr (RowKey 1 [0x30, 1])"
    "decode_row_key demo_key2 = Inr (RowKey 1 [0x30, 0])" by code_simp+
  ultimately show ?thesis by (auto simp: table_key_def)
qed

theorem snapshot_roundtrip_witness:
  "\<exists>c. capture_snapshot_state demo_relocked = Inr c \<and>
    restore_from_snapshot_entries 1 (cs_default_values c) (cs_locks c) (cs_writes c) = Inr demo_relocked"
  by (rule snapshot_roundtrip [OF demo_reachable(4) demo_table])

end
