(* ===== verification/Txn_Ids.thy ===== *)
theory Txn_Ids
  imports Mvcc_Records "HOL-Library.Product_Lexorder"
begin

text \<open>
  Request and command identities (\<^verbatim>\<open>ragnordb-common/src/ids.rs\<close>): client request ids, logical
  command ids, group-qualified request ids and the derivation of a participant's command
  identity from a transaction, a phase and a row key. BLAKE3 is a library; it is the parameter
  \<open>blake3\<close> of the definitions that use it, of which only the length of the digest matters.
\<close>

type_synonym RaftGroupId = u64
type_synonym ReplicaId = u64

section \<open>Identities\<close>

datatype RequestId = RequestId
  (rq_client_id: u128) (rq_sequence: u64) (rq_raft_group_id: RaftGroupId)

datatype ClientRequestId = ClientRequestId
  (cr_client_id: u128) (cr_session_epoch: u64) (cr_request_sequence: u64)

datatype CommandKind =
  CkRead | CkPrewrite | CkCommit | CkRollback | CkResolveIntent | CkSingleShardCommit | CkCatalog | CkNoop

datatype LogicalCommandId = LogicalCommandId
  (lc_client_request_id: ClientRequestId) (lc_command_ordinal: u32) (lc_kind: CommandKind)

fun command_kind_byte :: "CommandKind \<Rightarrow> u8" where
  "command_kind_byte CkRead = 1"
| "command_kind_byte CkPrewrite = 2"
| "command_kind_byte CkCommit = 3"
| "command_kind_byte CkRollback = 4"
| "command_kind_byte CkResolveIntent = 5"
| "command_kind_byte CkSingleShardCommit = 6"
| "command_kind_byte CkCatalog = 7"
| "command_kind_byte CkNoop = 8"

lemma command_kind_byte_inj [simp]: "command_kind_byte a = command_kind_byte b \<longleftrightarrow> a = b"
  by (cases a; cases b) auto

text \<open>The derived orders compare the fields from first to last.\<close>

definition request_id_key :: "RequestId \<Rightarrow> u128 \<times> u64 \<times> u64" where
  "request_id_key r = (rq_client_id r, rq_sequence r, rq_raft_group_id r)"

definition logical_command_key :: "LogicalCommandId \<Rightarrow> u128 \<times> u64 \<times> u64 \<times> u32 \<times> u8" where
  "logical_command_key c =
     (cr_client_id (lc_client_request_id c), cr_session_epoch (lc_client_request_id c),
      cr_request_sequence (lc_client_request_id c), lc_command_ordinal c, command_kind_byte (lc_kind c))"

lemma request_id_key_inj [simp]: "request_id_key a = request_id_key b \<longleftrightarrow> a = b"
  by (cases a; cases b) (simp add: request_id_key_def)

lemma logical_command_key_inj [simp]: "logical_command_key a = logical_command_key b \<longleftrightarrow> a = b"
  by (cases a; cases b; cases "lc_client_request_id a"; cases "lc_client_request_id b")
    (simp add: logical_command_key_def)

instantiation RequestId :: linorder
begin

definition less_RequestId :: "RequestId \<Rightarrow> RequestId \<Rightarrow> bool" where
  "less_RequestId a b \<longleftrightarrow> request_id_key a < request_id_key b"

definition less_eq_RequestId :: "RequestId \<Rightarrow> RequestId \<Rightarrow> bool" where
  "less_eq_RequestId a b \<longleftrightarrow> request_id_key a \<le> request_id_key b"

instance
  by standard (auto simp: less_RequestId_def less_eq_RequestId_def simp flip: request_id_key_inj)

end

instantiation LogicalCommandId :: linorder
begin

definition less_LogicalCommandId :: "LogicalCommandId \<Rightarrow> LogicalCommandId \<Rightarrow> bool" where
  "less_LogicalCommandId a b \<longleftrightarrow> logical_command_key a < logical_command_key b"

definition less_eq_LogicalCommandId :: "LogicalCommandId \<Rightarrow> LogicalCommandId \<Rightarrow> bool" where
  "less_eq_LogicalCommandId a b \<longleftrightarrow> logical_command_key a \<le> logical_command_key b"

instance
  by standard
    (auto simp: less_LogicalCommandId_def less_eq_LogicalCommandId_def simp flip: logical_command_key_inj)

end

datatype ParticipantCommandPhase = PhPrewrite | PhCommit | PhRollback | PhResolveIntent

fun command_kind :: "ParticipantCommandPhase \<Rightarrow> CommandKind" where
  "command_kind PhPrewrite = CkPrewrite"
| "command_kind PhCommit = CkCommit"
| "command_kind PhRollback = CkRollback"
| "command_kind PhResolveIntent = CkResolveIntent"

fun phase_byte :: "ParticipantCommandPhase \<Rightarrow> u8" where
  "phase_byte PhPrewrite = 1"
| "phase_byte PhCommit = 2"
| "phase_byte PhRollback = 3"
| "phase_byte PhResolveIntent = 4"

definition ClientRequestId_validate :: "ClientRequestId \<Rightarrow> unit str_result" where
  "ClientRequestId_validate r =
     and_then (ensure (cr_client_id r \<noteq> 0) ''client ID must be non-zero'') (\<lambda>_.
     and_then (ensure (cr_session_epoch r \<noteq> 0) ''client session epoch must be non-zero'') (\<lambda>_.
       ensure (cr_request_sequence r \<noteq> 0) ''client request sequence must be non-zero''))"

definition LogicalCommandId_validate :: "LogicalCommandId \<Rightarrow> unit str_result" where
  "LogicalCommandId_validate c =
     and_then (ClientRequestId_validate (lc_client_request_id c)) (\<lambda>_.
       ensure (lc_command_ordinal c \<noteq> 0) ''logical command ordinal must be non-zero'')"

section \<open>Protobuf messages\<close>

record proto_RequestId =
  prq_client_id :: bytes
  prq_sequence :: u64
  prq_raft_group_id :: "u64 option"

record proto_ClientRequestId =
  pcr_client_id :: bytes
  pcr_session_epoch :: u64
  pcr_request_sequence :: u64

record proto_LogicalCommandId =
  plc_client_request_id :: "proto_ClientRequestId option"
  plc_command_ordinal :: u32
  plc_kind :: i32

definition RequestId_to_proto :: "RequestId \<Rightarrow> proto_RequestId" where
  "RequestId_to_proto r =
     \<lparr>prq_client_id = u128_to_le_bytes (rq_client_id r), prq_sequence = rq_sequence r,
      prq_raft_group_id = Some (rq_raft_group_id r)\<rparr>"

definition RequestId_from_proto :: "proto_RequestId \<Rightarrow> RequestId str_result" where
  "RequestId_from_proto p =
     and_then (ensure (length (prq_client_id p) = 16) ''invalid client_id length'') (\<lambda>_.
     and_then (ok_or (prq_raft_group_id p) ''missing raft_group_id'') (\<lambda>g.
       Inr (RequestId (u128_from_le_bytes (prq_client_id p)) (prq_sequence p) g)))"

definition ClientRequestId_to_proto :: "ClientRequestId \<Rightarrow> proto_ClientRequestId" where
  "ClientRequestId_to_proto r =
     \<lparr>pcr_client_id = u128_to_le_bytes (cr_client_id r), pcr_session_epoch = cr_session_epoch r,
      pcr_request_sequence = cr_request_sequence r\<rparr>"

definition ClientRequestId_from_proto :: "proto_ClientRequestId \<Rightarrow> ClientRequestId str_result" where
  "ClientRequestId_from_proto p =
     and_then (ensure (length (pcr_client_id p) = 16) ''invalid client_id length'') (\<lambda>_.
     let identity = ClientRequestId (u128_from_le_bytes (pcr_client_id p))
           (pcr_session_epoch p) (pcr_request_sequence p) in
     and_then (ClientRequestId_validate identity) (\<lambda>_. Inr identity))"

fun CommandKind_to_proto :: "CommandKind \<Rightarrow> i32" where
  "CommandKind_to_proto CkRead = 1"
| "CommandKind_to_proto CkPrewrite = 2"
| "CommandKind_to_proto CkCommit = 3"
| "CommandKind_to_proto CkRollback = 4"
| "CommandKind_to_proto CkResolveIntent = 5"
| "CommandKind_to_proto CkSingleShardCommit = 6"
| "CommandKind_to_proto CkCatalog = 7"
| "CommandKind_to_proto CkNoop = 8"

definition CommandKind_from_proto :: "i32 \<Rightarrow> CommandKind str_result" where
  "CommandKind_from_proto k =
     (if k = 1 then Inr CkRead else if k = 2 then Inr CkPrewrite else if k = 3 then Inr CkCommit
      else if k = 4 then Inr CkRollback else if k = 5 then Inr CkResolveIntent
      else if k = 6 then Inr CkSingleShardCommit else if k = 7 then Inr CkCatalog
      else if k = 8 then Inr CkNoop
      else if k = 0 then Inl ''command kind is unspecified'' else Inl ''invalid command kind'')"

definition LogicalCommandId_to_proto :: "LogicalCommandId \<Rightarrow> proto_LogicalCommandId" where
  "LogicalCommandId_to_proto c =
     \<lparr>plc_client_request_id = Some (ClientRequestId_to_proto (lc_client_request_id c)),
      plc_command_ordinal = lc_command_ordinal c, plc_kind = CommandKind_to_proto (lc_kind c)\<rparr>"

definition LogicalCommandId_from_proto :: "proto_LogicalCommandId \<Rightarrow> LogicalCommandId str_result" where
  "LogicalCommandId_from_proto p =
     and_then (ok_or (plc_client_request_id p) ''missing logical command client request ID'') (\<lambda>q.
     and_then (ClientRequestId_from_proto q) (\<lambda>r.
     and_then (CommandKind_from_proto (plc_kind p)) (\<lambda>k.
     let identity = LogicalCommandId r (plc_command_ordinal p) k in
     and_then (LogicalCommandId_validate identity) (\<lambda>_. Inr identity))))"

section \<open>Derived identities\<close>

definition ascii :: "string \<Rightarrow> bytes" where
  "ascii s = map (\<lambda>c. word_of_nat (of_char c)) s"

definition u128_from_be_bytes :: "bytes \<Rightarrow> u128" where
  "u128_from_be_bytes bs = of_nat (be_nat bs)"

text \<open>What \<^verbatim>\<open>participant_logical_command_id\<close> feeds to the hasher.\<close>

definition participant_command_preimage :: "TxnId \<Rightarrow> ParticipantCommandPhase \<Rightarrow> bytes \<Rightarrow> bytes" where
  "participant_command_preimage txn_id phase logical_mutation_id =
     ascii ''ragnordb/participant-logical-command/v1'' @ u64_to_be_bytes txn_id @ [phase_byte phase] @
     u64_to_be_bytes (of_nat (length logical_mutation_id)) @ logical_mutation_id"

definition participant_logical_command_id ::
  "(bytes \<Rightarrow> bytes) \<Rightarrow> TxnId \<Rightarrow> ParticipantCommandPhase \<Rightarrow> bytes \<Rightarrow> LogicalCommandId str_result" where
  "participant_logical_command_id blake3 txn_id phase logical_mutation_id =
     and_then (ensure (txn_id \<noteq> 0) ''participant command transaction ID must be non-zero'') (\<lambda>_.
     and_then (ensure (logical_mutation_id \<noteq> [])
       ''participant command logical mutation ID must be non-empty'') (\<lambda>_.
     let digest = blake3 (participant_command_preimage txn_id phase logical_mutation_id);
         c = u128_from_be_bytes (take 16 digest);
         client_id = (if c = 0 then 1 else c);
         session_epoch = max (u64_from_be_bytes (take 8 (drop 16 digest))) 1;
         request_sequence = max (u64_from_be_bytes (take 8 (drop 24 digest))) 1;
         identity = LogicalCommandId (ClientRequestId client_id session_epoch request_sequence)
           1 (command_kind phase) in
     and_then (LogicalCommandId_validate identity) (\<lambda>_. Inr identity)))"

definition request_id_for_logical_command ::
  "LogicalCommandId \<Rightarrow> RaftGroupId \<Rightarrow> RequestId str_result" where
  "request_id_for_logical_command c raft_group_id =
     and_then (LogicalCommandId_validate c) (\<lambda>_.
     and_then (ensure (raft_group_id \<noteq> 0) ''participant request Raft group ID must be non-zero'') (\<lambda>_.
       Inr (RequestId (cr_client_id (lc_client_request_id c))
              (cr_request_sequence (lc_client_request_id c)) raft_group_id)))"

definition participant_request_id ::
  "(bytes \<Rightarrow> bytes) \<Rightarrow> TxnId \<Rightarrow> ParticipantCommandPhase \<Rightarrow> TabletId \<Rightarrow> RaftGroupId \<Rightarrow> RequestId str_result" where
  "participant_request_id blake3 txn_id phase tablet raft_group_id =
     and_then (ensure (txn_id \<noteq> 0) ''participant request transaction ID must be non-zero'') (\<lambda>_.
     and_then (ensure (tablet \<noteq> 0) ''participant request tablet ID must be non-zero'') (\<lambda>_.
     and_then (ensure (raft_group_id \<noteq> 0) ''participant request Raft group ID must be non-zero'') (\<lambda>_.
     let digest = blake3 (ascii ''ragnordb/participant-request/v1'' @ u64_to_be_bytes txn_id @
           [phase_byte phase] @ u64_to_be_bytes raft_group_id @ u64_to_be_bytes tablet) in
     Inr (RequestId (u128_from_be_bytes (take 16 digest)) 1 raft_group_id))))"

section \<open>Wire round trips\<close>

lemma u128_le_inverse: "length bs = 16 \<Longrightarrow> u128_to_le_bytes (u128_from_le_bytes bs) = bs"
proof -
  assume "length bs = 16"
  then have "length (rev bs) = 16" by simp
  with be_nat_lt [of "rev bs"] be_bytes_be_nat [of "rev bs"] show ?thesis
    by (simp add: u128_to_le_bytes_def u128_from_le_bytes_def unat_of_nat)
qed

lemma CommandKind_from_proto_Inr: "CommandKind_from_proto k = Inr c \<longleftrightarrow> k = CommandKind_to_proto c"
  by (cases c) (auto simp: CommandKind_from_proto_def)

lemma RequestId_wire: "RequestId_from_proto p = Inr r \<longleftrightarrow> p = RequestId_to_proto r"
  by (cases p; cases r)
    (auto simp: RequestId_from_proto_def RequestId_to_proto_def result_simps u128_le_inverse)

lemma ClientRequestId_wire:
  "ClientRequestId_from_proto p = Inr r \<longleftrightarrow>
     p = ClientRequestId_to_proto r \<and> ClientRequestId_validate r = Inr ()"
  by (cases p; cases r)
    (auto simp: ClientRequestId_from_proto_def ClientRequestId_to_proto_def Let_def and_then_eq_Inr
      ensure_eq_Inr u128_le_inverse)

lemma LogicalCommandId_wire:
  "LogicalCommandId_from_proto p = Inr c \<longleftrightarrow>
     p = LogicalCommandId_to_proto c \<and> LogicalCommandId_validate c = Inr ()"
  by (cases p; cases c)
    (auto simp: LogicalCommandId_from_proto_def LogicalCommandId_to_proto_def Let_def and_then_eq_Inr
      ok_or_eq_Inr ClientRequestId_wire CommandKind_from_proto_Inr LogicalCommandId_validate_def)

lemma phase_byte_inj [simp]: "phase_byte p = phase_byte q \<longleftrightarrow> p = q"
  by (cases p; cases q) auto

lemma participant_command_preimage_inj:
  "participant_command_preimage t p k = participant_command_preimage t' p' k' \<longleftrightarrow> t = t' \<and> p = p' \<and> k = k'"
  by (auto simp: participant_command_preimage_def)

section \<open>The identity of a participant command\<close>

text \<open>
  The bytes that name a command (a domain tag, the transaction, the phase, the length of the key
  and the key, but no tablet and no group), and the client request identity read from a digest as
  three big-endian integers with zero replaced by one.
\<close>

definition command_bytes :: "TxnId \<Rightarrow> ParticipantCommandPhase \<Rightarrow> bytes \<Rightarrow> bytes" where
  "command_bytes txn phase key =
     concat [ascii ''ragnordb/participant-logical-command/v1'', u64_to_be_bytes txn,
       [case phase of PhPrewrite \<Rightarrow> 1 | PhCommit \<Rightarrow> 2 | PhRollback \<Rightarrow> 3 | PhResolveIntent \<Rightarrow> 4],
       u64_to_be_bytes (of_nat (length key)), key]"

definition digest_identity :: "bytes \<Rightarrow> ClientRequestId" where
  "digest_identity digest =
     ClientRequestId (max 1 (u128_from_be_bytes (take 16 digest)))
       (max 1 (u64_from_be_bytes (take 8 (drop 16 digest))))
       (max 1 (u64_from_be_bytes (take 8 (drop 24 digest))))"

lemma command_bytes_eq: "command_bytes txn phase key = participant_command_preimage txn phase key"
  by (cases phase) (simp_all add: command_bytes_def participant_command_preimage_def)

lemma max_one_eq: "max 1 (w :: 'a::len word) = (if w = 0 then 1 else w)"
  by (auto simp: max_def not_le word_less_1)

lemma participant_logical_command_id_eq:
  assumes "txn \<noteq> 0" and "key \<noteq> []"
  shows "participant_logical_command_id blake3 txn phase key =
    Inr (LogicalCommandId (digest_identity (blake3 (command_bytes txn phase key))) 1 (command_kind phase))"
  using assms
  by (simp add: participant_logical_command_id_def Let_def LogicalCommandId_validate_def
      ClientRequestId_validate_def digest_identity_def command_bytes_eq max_one_eq max.commute [of _ 1]
      ensure_def)

lemma participant_logical_command_id_Inr:
  "participant_logical_command_id blake3 txn phase key = Inr c \<Longrightarrow> txn \<noteq> 0 \<and> key \<noteq> []"
  by (auto simp: participant_logical_command_id_def result_simps)

text \<open>
  C37. The identity of a participant command is derived soundly: for every transaction and key
  it is defined and is exactly the normalised digest of the command's bytes with ordinal one and
  the kind of the phase, so it depends on no tablet or group; it survives the wire format and gives a request
  id for every group. When two commands get one identity, they are the same command (same
  transaction, phase and key) or their different bytes have digests that agree once normalised,
  a collision of the hash.
\<close>

theorem command_identity_sound:
  assumes "txn \<noteq> 0" and "key \<noteq> []" and "g \<noteq> 0"
  shows "\<exists>c. participant_logical_command_id blake3 txn phase key = Inr c \<and>
    c = LogicalCommandId (digest_identity (blake3 (command_bytes txn phase key))) 1 (command_kind phase) \<and>
    LogicalCommandId_from_proto (LogicalCommandId_to_proto c) = Inr c \<and>
    (\<exists>r. request_id_for_logical_command c g = Inr r \<and> rq_raft_group_id r = g \<and>
       RequestId_from_proto (RequestId_to_proto r) = Inr r) \<and>
    (participant_logical_command_id blake3 txn' phase' key' = Inr c \<longrightarrow>
       txn' = txn \<and> phase' = phase \<and> key' = key \<or>
       command_bytes txn' phase' key' \<noteq> command_bytes txn phase key \<and>
       digest_identity (blake3 (command_bytes txn' phase' key')) =
         digest_identity (blake3 (command_bytes txn phase key)))"
proof -
  let ?c = "LogicalCommandId (digest_identity (blake3 (command_bytes txn phase key))) 1 (command_kind phase)"
  have valid: "LogicalCommandId_validate ?c = Inr ()"
    by (simp add: LogicalCommandId_validate_def ClientRequestId_validate_def digest_identity_def
        max_one_eq ensure_def)
  have same: "txn' = txn \<and> phase' = phase \<and> key' = key \<or>
      command_bytes txn' phase' key' \<noteq> command_bytes txn phase key \<and>
      digest_identity (blake3 (command_bytes txn' phase' key')) =
        digest_identity (blake3 (command_bytes txn phase key))"
    if "participant_logical_command_id blake3 txn' phase' key' = Inr ?c"
    using that participant_logical_command_id_Inr [OF that]
    by (auto simp: participant_logical_command_id_eq command_bytes_eq participant_command_preimage_inj)
  have "\<exists>r. request_id_for_logical_command ?c g = Inr r \<and> rq_raft_group_id r = g \<and>
      RequestId_from_proto (RequestId_to_proto r) = Inr r"
    using assms(3) valid by (simp add: request_id_for_logical_command_def RequestId_wire)
  with same valid participant_logical_command_id_eq [OF assms(1,2)] show ?thesis
    by (intro exI [of _ ?c] conjI) (auto simp: LogicalCommandId_wire)
qed

theorem command_identity_sound_witness:
  "\<exists>c. participant_logical_command_id (\<lambda>_. replicate 32 0) 5 PhCommit [1] = Inr c \<and>
    c = LogicalCommandId (digest_identity (replicate 32 0)) 1 CkCommit \<and>
    LogicalCommandId_from_proto (LogicalCommandId_to_proto c) = Inr c"
  using command_identity_sound [of 5 "[1]" 3 "\<lambda>_. replicate 32 0" PhCommit 5 PhCommit "[1]"] by auto

end
