(* ===== verification/Catalog_Codec.thy ===== *)
theory Catalog_Codec
  imports Value_Encoding Txn_Ids
begin

text \<open>
  Protobuf forms of values and rows (\<^verbatim>\<open>Value\<close>, \<^verbatim>\<open>Row\<close> of
  \<^verbatim>\<open>ragnordb-common/src/codec.rs\<close>) and of table definitions
  (\<^verbatim>\<open>ragnordb-common/src/catalog_codec.rs\<close>).
\<close>

section \<open>Values and rows\<close>

datatype value_Kind = IntValue i64 | TextValue bytes | BoolValue bool | NullValue i32

record proto_Value =
  pv_kind :: "value_Kind option"

record proto_Row =
  pr_values :: "proto_Value list"

fun Value_to_proto :: "Value \<Rightarrow> proto_Value" where
  "Value_to_proto (VInt v) = \<lparr>pv_kind = Some (IntValue v)\<rparr>"
| "Value_to_proto (VText v) = \<lparr>pv_kind = Some (TextValue v)\<rparr>"
| "Value_to_proto (VBool v) = \<lparr>pv_kind = Some (BoolValue v)\<rparr>"
| "Value_to_proto VNull = \<lparr>pv_kind = Some (NullValue 0)\<rparr>"

definition Value_from_proto :: "proto_Value \<Rightarrow> Value str_result" where
  "Value_from_proto p =
     (case pv_kind p of
        Some (IntValue v) \<Rightarrow> Inr (VInt v)
      | Some (TextValue v) \<Rightarrow> Inr (VText v)
      | Some (BoolValue v) \<Rightarrow> Inr (VBool v)
      | Some (NullValue _) \<Rightarrow> Inr VNull
      | None \<Rightarrow> Inl ''missing value kind'')"

definition Row_to_proto :: "Row \<Rightarrow> proto_Row" where
  "Row_to_proto r = \<lparr>pr_values = map Value_to_proto (row_values r)\<rparr>"

definition Row_from_proto :: "proto_Row \<Rightarrow> Row str_result" where
  "Row_from_proto p =
     and_then (try_map Value_from_proto (pr_values p)) (\<lambda>vs. Inr \<lparr>row_values = vs\<rparr>)"

section \<open>Table definitions\<close>

type_synonym ColumnId = u64

datatype DataType = DtInt | DtText | DtBool

record ColumnDefinition =
  cd_column_id :: ColumnId
  cd_name :: bytes
  cd_ty :: DataType
  cd_nullable :: bool

record TableDefinition =
  td_table_id :: u64
  td_name :: bytes
  td_columns :: "ColumnDefinition list"
  td_primary_key_column_ids :: "ColumnId list"
  td_schema_version :: u64
  td_tablet_count :: u32

record proto_ColumnDefinition =
  pcd_column_id :: u64
  pcd_name :: bytes
  pcd_type :: i32
  pcd_nullable :: bool

record proto_TableDefinition =
  ptd_table_id :: u64
  ptd_name :: bytes
  ptd_columns :: "proto_ColumnDefinition list"
  ptd_primary_key_column_ids :: "u64 list"
  ptd_schema_version :: u64
  ptd_tablet_count :: u32

fun DataType_to_proto :: "DataType \<Rightarrow> i32" where
  "DataType_to_proto DtInt = 1"
| "DataType_to_proto DtText = 2"
| "DataType_to_proto DtBool = 3"

definition DataType_from_proto :: "i32 \<Rightarrow> DataType str_result" where
  "DataType_from_proto t =
     (if t = 1 then Inr DtInt else if t = 2 then Inr DtText else if t = 3 then Inr DtBool
      else if t = 0 then Inl ''unspecified data type'' else Inl ''invalid enum'')"

definition ColumnDefinition_to_proto :: "ColumnDefinition \<Rightarrow> proto_ColumnDefinition" where
  "ColumnDefinition_to_proto c =
     \<lparr>pcd_column_id = cd_column_id c, pcd_name = cd_name c, pcd_type = DataType_to_proto (cd_ty c),
      pcd_nullable = cd_nullable c\<rparr>"

definition ColumnDefinition_from_proto :: "proto_ColumnDefinition \<Rightarrow> ColumnDefinition str_result" where
  "ColumnDefinition_from_proto p =
     and_then (DataType_from_proto (pcd_type p)) (\<lambda>ty.
       Inr \<lparr>cd_column_id = pcd_column_id p, cd_name = pcd_name p, cd_ty = ty,
            cd_nullable = pcd_nullable p\<rparr>)"

definition TableDefinition_to_proto :: "TableDefinition \<Rightarrow> proto_TableDefinition" where
  "TableDefinition_to_proto t =
     \<lparr>ptd_table_id = td_table_id t, ptd_name = td_name t,
      ptd_columns = map ColumnDefinition_to_proto (td_columns t),
      ptd_primary_key_column_ids = td_primary_key_column_ids t,
      ptd_schema_version = td_schema_version t, ptd_tablet_count = td_tablet_count t\<rparr>"

definition TableDefinition_from_proto :: "proto_TableDefinition \<Rightarrow> TableDefinition str_result" where
  "TableDefinition_from_proto p =
     and_then (try_map ColumnDefinition_from_proto (ptd_columns p)) (\<lambda>columns.
       Inr \<lparr>td_table_id = ptd_table_id p, td_name = ptd_name p, td_columns = columns,
            td_primary_key_column_ids = ptd_primary_key_column_ids p,
            td_schema_version = ptd_schema_version p, td_tablet_count = ptd_tablet_count p\<rparr>)"

section \<open>Round trips\<close>

lemma try_map_roundtrip: "(\<And>x. g (f x) = Inr x) \<Longrightarrow> try_map g (map f xs) = Inr xs"
  by (induction xs) auto

lemma Value_proto_roundtrip: "Value_from_proto (Value_to_proto v) = Inr v"
  by (cases v) (simp_all add: Value_from_proto_def)

lemma Row_proto_roundtrip [simp]: "Row_from_proto (Row_to_proto r) = Inr r"
  by (simp add: Row_from_proto_def Row_to_proto_def try_map_roundtrip Value_proto_roundtrip)

lemma DataType_from_proto_Inr: "DataType_from_proto t = Inr d \<longleftrightarrow> t = DataType_to_proto d"
  by (cases d) (auto simp: DataType_from_proto_def)

lemma ColumnDefinition_wire:
  "ColumnDefinition_from_proto p = Inr c \<longleftrightarrow> p = ColumnDefinition_to_proto c"
  by (cases p; cases c)
    (auto simp: ColumnDefinition_from_proto_def ColumnDefinition_to_proto_def result_simps
      DataType_from_proto_Inr)

lemma TableDefinition_wire:
  "TableDefinition_from_proto p = Inr t \<longleftrightarrow> p = TableDefinition_to_proto t"
proof -
  have "list_all2 (\<lambda>x y. x = ColumnDefinition_to_proto y) xs ys \<longleftrightarrow>
      xs = map ColumnDefinition_to_proto ys" for xs ys
    by (auto simp: list_eq_iff_nth_eq list_all2_conv_all_nth)
  then show ?thesis
    by (cases p; cases t)
      (auto simp: TableDefinition_from_proto_def TableDefinition_to_proto_def and_then_eq_Inr
        try_map_eq_Inr ColumnDefinition_wire)
qed

end
