(* ===== verification/Commands.thy ===== *)
theory Commands
  imports Catalog_Codec BTreeMap
begin

text \<open>
  The replicated tablet commands of \<^verbatim>\<open>ragnordb-common/src/command_codec.rs\<close>: the
  participant commands with their validation, and their conversion to and from the protobuf
  messages. Every message struct is a record, every oneof a datatype.
\<close>

section \<open>Commands\<close>

record CommandWriteEntry =
  ce_key :: bytes
  ce_row :: "Row option"
  ce_op :: WriteKind

record PrewriteCommand =
  pre_txn_id :: TxnId
  pre_start_timestamp :: Timestamp
  pre_writes :: "CommandWriteEntry list"
  pre_primary_key :: bytes
  pre_ttl_ms :: u64
  pre_pending_status :: "TxnStatusRecord option"

record CommitCommand =
  com_txn_id :: TxnId
  com_start_timestamp :: Timestamp
  com_commit_timestamp :: Timestamp
  com_keys :: "bytes list"
  com_committed_status :: "TxnStatusRecord option"

record PublishAbortedTransactionStatus =
  pa_status_record :: TxnStatusRecord

record HeartbeatTransactionStatus =
  hb_expected_status :: TxnStatusRecord
  hb_next_status :: TxnStatusRecord
  hb_now_ms :: u64

record ExpirePendingTransactionStatus =
  ex_expected_status :: TxnStatusRecord
  ex_now_ms :: u64

record RollbackCommand =
  rb_txn_id :: TxnId
  rb_start_timestamp :: Timestamp
  rb_keys :: "bytes list"

record SingleShardCommitCommand =
  ss_txn_id :: TxnId
  ss_start_timestamp :: Timestamp
  ss_commit_timestamp :: Timestamp
  ss_writes :: "CommandWriteEntry list"

record ResolveIntentCommand =
  ri_txn_id :: TxnId
  ri_start_timestamp :: Timestamp
  ri_keys :: "bytes list"
  ri_resolved_status :: TxnStatus
  ri_commit_timestamp :: "Timestamp option"

record CreateTableOperation =
  cto_table_def :: TableDefinition

datatype CatalogOperation = CreateTable CreateTableOperation

record CatalogCommand =
  cc_operation :: CatalogOperation

datatype NoopCommand = NoopCommand

datatype TabletCommand =
    TcPrewrite PrewriteCommand
  | TcCommit CommitCommand
  | TcRollback RollbackCommand
  | TcSingleShardCommit SingleShardCommitCommand
  | TcResolveIntent ResolveIntentCommand
  | TcCatalog CatalogCommand
  | TcNoop NoopCommand
  | TcPublishAborted PublishAbortedTransactionStatus
  | TcHeartbeat HeartbeatTransactionStatus
  | TcExpirePending ExpirePendingTransactionStatus

section \<open>Validation\<close>

definition validate_txn_start :: "TxnId \<Rightarrow> Timestamp \<Rightarrow> unit str_result" where
  "validate_txn_start txn_id start_timestamp =
     and_then (ensure (txn_id \<noteq> 0) ''transaction ID must be non-zero'') (\<lambda>_.
       ensure (start_timestamp \<noteq> 0) ''transaction start timestamp must be non-zero'')"

fun validate_command_mutation :: "WriteKind \<Rightarrow> Row option \<Rightarrow> unit str_result" where
  "validate_command_mutation Put (Some _) = Inr ()"
| "validate_command_mutation Delete None = Inr ()"
| "validate_command_mutation Put None = Inl ''Put command requires a complete row''"
| "validate_command_mutation Delete (Some _) = Inl ''Delete command must not contain a row''"
| "validate_command_mutation Rollback _ = Inl ''Rollback is not a valid write mutation payload''"

primrec write_entries_loop :: "CommandWriteEntry list \<Rightarrow> bytes bset \<Rightarrow> unit str_result" where
  "write_entries_loop [] seen = Inr ()"
| "write_entries_loop (w # ws) seen =
     and_then (ensure (ce_key w \<noteq> []) ''participant command contains an empty row key'') (\<lambda>_.
     and_then (validate_command_mutation (ce_op w) (ce_row w)) (\<lambda>_.
     and_then (ensure (\<not> bt_contains_key seen (ce_key w))
       ''participant command contains a duplicate row key'') (\<lambda>_.
       write_entries_loop ws (bs_insert (ce_key w) seen))))"

definition validate_write_entries :: "CommandWriteEntry list \<Rightarrow> unit str_result" where
  "validate_write_entries writes =
     and_then (ensure (writes \<noteq> []) ''participant command requires at least one write'') (\<lambda>_.
       write_entries_loop writes bt_new)"

primrec keys_loop :: "bytes list \<Rightarrow> bytes bset \<Rightarrow> unit str_result" where
  "keys_loop [] unique = Inr ()"
| "keys_loop (k # ks) unique =
     and_then (ensure (k \<noteq> []) ''participant command contains an empty row key'') (\<lambda>_.
     and_then (ensure (\<not> bt_contains_key unique k)
       ''participant command contains a duplicate row key'') (\<lambda>_.
       keys_loop ks (bs_insert k unique)))"

definition validate_keys :: "bytes list \<Rightarrow> unit str_result" where
  "validate_keys ks =
     and_then (ensure (ks \<noteq> []) ''participant command requires at least one row key'') (\<lambda>_.
       keys_loop ks bt_new)"

fun validate_resolved_status :: "TxnStatus \<Rightarrow> Timestamp \<Rightarrow> Timestamp option \<Rightarrow> unit str_result" where
  "validate_resolved_status Committed start (Some commit_timestamp) =
     (if commit_timestamp > start then Inr ()
      else Inl ''committed intent resolution requires commit_timestamp greater than start_timestamp'')"
| "validate_resolved_status Aborted start None = Inr ()"
| "validate_resolved_status Committed start None =
     Inl ''committed intent resolution requires commit_timestamp''"
| "validate_resolved_status Aborted start (Some _) =
     Inl ''aborted intent resolution must not contain commit_timestamp''"
| "validate_resolved_status Pending start _ = Inl ''pending transaction cannot be resolved''"

definition PrewriteCommand_validate :: "PrewriteCommand \<Rightarrow> unit str_result" where
  "PrewriteCommand_validate c =
     and_then (validate_txn_start (pre_txn_id c) (pre_start_timestamp c)) (\<lambda>_.
     and_then (validate_write_entries (pre_writes c)) (\<lambda>_.
     and_then (ensure (pre_primary_key c \<noteq> []) ''prewrite primary key must not be empty'') (\<lambda>_.
     and_then (ensure (pre_ttl_ms c \<noteq> 0) ''prewrite lock TTL must be non-zero'') (\<lambda>_.
     case pre_pending_status c of
       None \<Rightarrow> Inr ()
     | Some status \<Rightarrow>
         and_then (TxnStatusRecord_validate status) (\<lambda>_.
         and_then (ensure (s_txn_id status = pre_txn_id c \<and>
             s_start_timestamp status = pre_start_timestamp c \<and> s_status status = Pending \<and>
             s_commit_timestamp status = None \<and> s_primary_key status = pre_primary_key c)
           ''pending status does not match the primary prewrite'') (\<lambda>_.
           ensure (\<exists>w \<in> set (pre_writes c). ce_key w = s_primary_key status)
             ''primary prewrite must include the status record primary key''))))))"

definition CommitCommand_validate :: "CommitCommand \<Rightarrow> unit str_result" where
  "CommitCommand_validate c =
     and_then (validate_txn_start (com_txn_id c) (com_start_timestamp c)) (\<lambda>_.
     and_then (ensure (com_start_timestamp c < com_commit_timestamp c)
       ''commit timestamp must be greater than start timestamp'') (\<lambda>_.
     and_then (validate_keys (com_keys c)) (\<lambda>_.
     case com_committed_status c of
       None \<Rightarrow> Inr ()
     | Some status \<Rightarrow>
         and_then (TxnStatusRecord_validate status) (\<lambda>_.
         and_then (ensure (s_txn_id status = com_txn_id c \<and>
             s_start_timestamp status = com_start_timestamp c \<and>
             s_commit_timestamp status = Some (com_commit_timestamp c) \<and> s_status status = Committed)
           ''committed status does not match the primary commit'') (\<lambda>_.
           ensure (s_primary_key status \<in> set (com_keys c))
             ''primary commit must include the status record primary key'')))))"

definition PublishAborted_validate :: "PublishAbortedTransactionStatus \<Rightarrow> unit str_result" where
  "PublishAborted_validate c =
     and_then (TxnStatusRecord_validate (pa_status_record c)) (\<lambda>_.
       ensure (s_status (pa_status_record c) = Aborted \<and> s_commit_timestamp (pa_status_record c) = None)
         ''abort publication requires an aborted status without commit timestamp'')"

definition same_transaction_status_identity :: "TxnStatusRecord \<Rightarrow> TxnStatusRecord \<Rightarrow> bool" where
  "same_transaction_status_identity left right \<longleftrightarrow>
     s_txn_id left = s_txn_id right \<and> s_start_timestamp left = s_start_timestamp right \<and>
     s_primary_key left = s_primary_key right \<and>
     s_participant_tablet_ids left = s_participant_tablet_ids right"

definition unwrap_or :: "'a option \<Rightarrow> 'a \<Rightarrow> 'a" where
  "unwrap_or m d = (case m of None \<Rightarrow> d | Some x \<Rightarrow> x)"

definition Heartbeat_validate :: "HeartbeatTransactionStatus \<Rightarrow> unit str_result" where
  "Heartbeat_validate c =
     (let expected = hb_expected_status c; nxt = hb_next_status c in
     and_then (TxnStatusRecord_validate expected) (\<lambda>_.
     and_then (TxnStatusRecord_validate nxt) (\<lambda>_.
     and_then (ensure (hb_now_ms c \<noteq> 0) ''heartbeat apply time must be non-zero'') (\<lambda>_.
     and_then (ensure (s_status expected = Pending \<and> s_status nxt = Pending \<and>
         s_commit_timestamp expected = None \<and> s_commit_timestamp nxt = None)
       ''heartbeat requires pending status records'') (\<lambda>_.
     and_then (ensure (same_transaction_status_identity expected nxt)
       ''heartbeat changed transaction status identity'') (\<lambda>_.
     and_then (ok_or (s_lease_deadline_ms expected)
       ''heartbeat requires an existing lease deadline'') (\<lambda>current_deadline.
     and_then (ensure (hb_now_ms c < current_deadline)
       ''heartbeat apply time is at or after the current lease deadline'') (\<lambda>_.
     and_then (ok_or (s_lease_deadline_ms nxt)
       ''heartbeat requires a next lease deadline'') (\<lambda>next_deadline.
     and_then (ensure (current_deadline \<le> next_deadline)
       ''heartbeat lease deadline must not regress'') (\<lambda>_.
     and_then (ok_or (s_last_heartbeat_timestamp nxt)
       ''heartbeat requires a next heartbeat timestamp'') (\<lambda>next_timestamp.
       ensure (unwrap_or (s_last_heartbeat_timestamp expected) (s_start_timestamp expected)
           < next_timestamp)
         ''heartbeat timestamp must advance monotonically'')))))))))))"

definition ExpirePending_validate :: "ExpirePendingTransactionStatus \<Rightarrow> unit str_result" where
  "ExpirePending_validate c =
     (let expected = ex_expected_status c in
     and_then (TxnStatusRecord_validate expected) (\<lambda>_.
     and_then (ensure (ex_now_ms c \<noteq> 0) ''expiry apply time must be non-zero'') (\<lambda>_.
     and_then (ensure (s_status expected = Pending \<and> s_commit_timestamp expected = None)
       ''expiry requires a pending status record'') (\<lambda>_.
     and_then (ok_or (s_lease_deadline_ms expected)
       ''expiry requires an existing lease deadline'') (\<lambda>deadline.
       ensure (deadline \<le> ex_now_ms c)
         ''expiry apply time precedes the pending lease deadline'')))))"

definition RollbackCommand_validate :: "RollbackCommand \<Rightarrow> unit str_result" where
  "RollbackCommand_validate c =
     and_then (validate_txn_start (rb_txn_id c) (rb_start_timestamp c)) (\<lambda>_.
       validate_keys (rb_keys c))"

section \<open>What validation accepts\<close>

definition write_entries_ok :: "CommandWriteEntry list \<Rightarrow> bool" where
  "write_entries_ok writes \<longleftrightarrow> writes \<noteq> [] \<and> distinct (map ce_key writes) \<and>
     (\<forall>w \<in> set writes. ce_key w \<noteq> [] \<and>
        (ce_op w = Put \<and> ce_row w \<noteq> None \<or> ce_op w = Delete \<and> ce_row w = None))"

definition keys_ok :: "bytes list \<Rightarrow> bool" where
  "keys_ok ks \<longleftrightarrow> ks \<noteq> [] \<and> distinct ks \<and> [] \<notin> set ks"

lemma validate_txn_start_Inr [result_simps]:
  "validate_txn_start t s = Inr u \<longleftrightarrow> t \<noteq> 0 \<and> s \<noteq> 0"
  by (auto simp: validate_txn_start_def result_simps)

lemma validate_command_mutation_Inr [result_simps]:
  "validate_command_mutation op row = Inr u \<longleftrightarrow> op = Put \<and> row \<noteq> None \<or> op = Delete \<and> row = None"
  by (cases "(op, row)" rule: validate_command_mutation.cases) auto

lemma unit_option_None [simp]: "m \<noteq> Some () \<longleftrightarrow> m = None"
  by (cases m) auto

lemma bt_get_bs_insert [simp]: "bt_get (bs_insert k s) k' = (if k' = k then Some () else bt_get s k')"
  by (simp add: bs_insert_def)

lemma write_entries_loop_Inr:
  "write_entries_loop ws seen = Inr u \<longleftrightarrow>
     distinct (map ce_key ws) \<and> (\<forall>w \<in> set ws. ce_key w \<noteq> [] \<and> bt_get seen (ce_key w) = None \<and>
        validate_command_mutation (ce_op w) (ce_row w) = Inr ())"
proof (induction ws arbitrary: seen)
  case (Cons w ws)
  show ?case
    unfolding write_entries_loop.simps and_then_eq_Inr ensure_eq_Inr Cons.IH
    by (auto simp: bt_contains_key_def image_iff simp del: bt_contains_key_iff)
qed simp

lemma validate_write_entries_Inr [result_simps]: "validate_write_entries ws = Inr u \<longleftrightarrow> write_entries_ok ws"
  by (auto simp: validate_write_entries_def write_entries_loop_Inr write_entries_ok_def result_simps)

lemma keys_loop_Inr:
  "keys_loop ks seen = Inr u \<longleftrightarrow> distinct ks \<and> (\<forall>k \<in> set ks. k \<noteq> [] \<and> bt_get seen k = None)"
proof (induction ks arbitrary: seen)
  case (Cons k ks)
  show ?case
    unfolding keys_loop.simps and_then_eq_Inr ensure_eq_Inr Cons.IH
    by (auto simp: bt_contains_key_def image_iff simp del: bt_contains_key_iff)
qed simp

lemma validate_keys_Inr [result_simps]: "validate_keys ks = Inr u \<longleftrightarrow> keys_ok ks"
  by (auto simp: validate_keys_def keys_loop_Inr keys_ok_def result_simps)

lemma validate_resolved_status_Inr [result_simps]:
  "validate_resolved_status st start c = Inr u \<longleftrightarrow>
     st = Committed \<and> (\<exists>ct. c = Some ct \<and> start < ct) \<or> st = Aborted \<and> c = None"
  by (cases "(st, start, c)" rule: validate_resolved_status.cases) auto

lemma PrewriteCommand_validate_status:
  "PrewriteCommand_validate c = Inr u \<Longrightarrow> pre_pending_status c = Some s \<Longrightarrow>
     TxnStatusRecord_validate s = Inr ()"
  by (auto simp: PrewriteCommand_validate_def result_simps)

lemma PrewriteCommand_validate_writes: "PrewriteCommand_validate c = Inr u \<Longrightarrow> write_entries_ok (pre_writes c)"
  by (auto simp: PrewriteCommand_validate_def result_simps)

lemma CommitCommand_validate_status:
  "CommitCommand_validate c = Inr u \<Longrightarrow> com_committed_status c = Some s \<Longrightarrow>
     TxnStatusRecord_validate s = Inr ()"
  by (auto simp: CommitCommand_validate_def result_simps)

end
