(* ===== verification/Command_Codec.thy ===== *)
theory Command_Codec
  imports Commands
begin

text \<open>
  Protobuf forms of the tablet commands (\<^verbatim>\<open>to_proto\<close> and \<^verbatim>\<open>from_proto\<close> of
  \<^verbatim>\<open>ragnordb-common/src/command_codec.rs\<close>) and the round trip of each of them.
\<close>

section \<open>Messages\<close>

record proto_WriteEntry =
  pe_key :: bytes
  pe_op :: i32
  pe_row :: "proto_Row option"

record proto_PrewriteCommand =
  ppre_txn_id :: "u64 option"
  ppre_start_timestamp :: "u64 option"
  ppre_primary_key :: bytes
  ppre_ttl_ms :: u64
  ppre_writes :: "proto_WriteEntry list"
  ppre_pending_status :: "proto_TxnStatusRecord option"

record proto_CommitCommand =
  pcom_txn_id :: "u64 option"
  pcom_start_timestamp :: "u64 option"
  pcom_commit_timestamp :: "u64 option"
  pcom_keys :: "bytes list"
  pcom_committed_status :: "proto_TxnStatusRecord option"

record proto_PublishAbortedTransactionStatus =
  ppa_status_record :: "proto_TxnStatusRecord option"

record proto_HeartbeatTransactionStatus =
  phb_expected_status :: "proto_TxnStatusRecord option"
  phb_next_status :: "proto_TxnStatusRecord option"
  phb_now_ms :: u64

record proto_ExpirePendingTransactionStatus =
  pex_expected_status :: "proto_TxnStatusRecord option"
  pex_now_ms :: u64

record proto_RollbackCommand =
  prb_txn_id :: "u64 option"
  prb_start_timestamp :: "u64 option"
  prb_keys :: "bytes list"

record proto_SingleShardCommitCommand =
  pss_txn_id :: "u64 option"
  pss_start_timestamp :: "u64 option"
  pss_commit_timestamp :: "u64 option"
  pss_writes :: "proto_WriteEntry list"

record proto_ResolveIntentCommand =
  pri_txn_id :: "u64 option"
  pri_start_timestamp :: "u64 option"
  pri_resolved_status :: i32
  pri_commit_timestamp :: "u64 option"
  pri_keys :: "bytes list"

record proto_CreateTableOperation =
  pcto_table_definition :: "proto_TableDefinition option"

datatype catalog_Operation = PcCreateTable proto_CreateTableOperation

record proto_CatalogCommand =
  pcc_operation :: "catalog_Operation option"

datatype proto_NoopCommand = ProtoNoopCommand

datatype tablet_Command =
    PtPrewrite proto_PrewriteCommand
  | PtCommit proto_CommitCommand
  | PtRollback proto_RollbackCommand
  | PtSingleShardCommit proto_SingleShardCommitCommand
  | PtResolveIntent proto_ResolveIntentCommand
  | PtCatalogUpdate proto_CatalogCommand
  | PtNoop proto_NoopCommand
  | PtPublishAborted proto_PublishAbortedTransactionStatus
  | PtHeartbeat proto_HeartbeatTransactionStatus
  | PtExpirePending proto_ExpirePendingTransactionStatus

record proto_TabletCommand =
  ptc_command :: "tablet_Command option"

section \<open>Encoding\<close>

definition WriteEntry_to_proto :: "CommandWriteEntry \<Rightarrow> proto_WriteEntry str_result" where
  "WriteEntry_to_proto w =
     and_then (validate_command_mutation (ce_op w) (ce_row w)) (\<lambda>_.
       Inr \<lparr>pe_key = ce_key w, pe_op = WriteKind_to_proto (ce_op w),
            pe_row = map_option Row_to_proto (ce_row w)\<rparr>)"

definition PrewriteCommand_to_proto :: "PrewriteCommand \<Rightarrow> proto_PrewriteCommand str_result" where
  "PrewriteCommand_to_proto c =
     and_then (PrewriteCommand_validate c) (\<lambda>_.
     and_then (try_map WriteEntry_to_proto (pre_writes c)) (\<lambda>writes.
     and_then (try_option TxnStatusRecord_to_proto (pre_pending_status c)) (\<lambda>pending_status.
       Inr \<lparr>ppre_txn_id = Some (pre_txn_id c), ppre_start_timestamp = Some (pre_start_timestamp c),
            ppre_primary_key = pre_primary_key c, ppre_ttl_ms = pre_ttl_ms c,
            ppre_writes = writes, ppre_pending_status = pending_status\<rparr>)))"

definition CommitCommand_to_proto :: "CommitCommand \<Rightarrow> proto_CommitCommand str_result" where
  "CommitCommand_to_proto c =
     and_then (CommitCommand_validate c) (\<lambda>_.
     and_then (try_option TxnStatusRecord_to_proto (com_committed_status c)) (\<lambda>committed_status.
       Inr \<lparr>pcom_txn_id = Some (com_txn_id c), pcom_start_timestamp = Some (com_start_timestamp c),
            pcom_commit_timestamp = Some (com_commit_timestamp c), pcom_keys = com_keys c,
            pcom_committed_status = committed_status\<rparr>))"

definition PublishAborted_to_proto ::
  "PublishAbortedTransactionStatus \<Rightarrow> proto_PublishAbortedTransactionStatus str_result" where
  "PublishAborted_to_proto c =
     and_then (PublishAborted_validate c) (\<lambda>_.
     and_then (TxnStatusRecord_to_proto (pa_status_record c)) (\<lambda>status_record.
       Inr \<lparr>ppa_status_record = Some status_record\<rparr>))"

definition Heartbeat_to_proto ::
  "HeartbeatTransactionStatus \<Rightarrow> proto_HeartbeatTransactionStatus str_result" where
  "Heartbeat_to_proto c =
     and_then (Heartbeat_validate c) (\<lambda>_.
     and_then (TxnStatusRecord_to_proto (hb_expected_status c)) (\<lambda>expected_status.
     and_then (TxnStatusRecord_to_proto (hb_next_status c)) (\<lambda>next_status.
       Inr \<lparr>phb_expected_status = Some expected_status, phb_next_status = Some next_status,
            phb_now_ms = hb_now_ms c\<rparr>)))"

definition ExpirePending_to_proto ::
  "ExpirePendingTransactionStatus \<Rightarrow> proto_ExpirePendingTransactionStatus str_result" where
  "ExpirePending_to_proto c =
     and_then (ExpirePending_validate c) (\<lambda>_.
     and_then (TxnStatusRecord_to_proto (ex_expected_status c)) (\<lambda>expected_status.
       Inr \<lparr>pex_expected_status = Some expected_status, pex_now_ms = ex_now_ms c\<rparr>))"

definition RollbackCommand_to_proto :: "RollbackCommand \<Rightarrow> proto_RollbackCommand str_result" where
  "RollbackCommand_to_proto c =
     and_then (RollbackCommand_validate c) (\<lambda>_.
       Inr \<lparr>prb_txn_id = Some (rb_txn_id c), prb_start_timestamp = Some (rb_start_timestamp c),
            prb_keys = rb_keys c\<rparr>)"

definition SingleShardCommitCommand_to_proto ::
  "SingleShardCommitCommand \<Rightarrow> proto_SingleShardCommitCommand str_result" where
  "SingleShardCommitCommand_to_proto c =
     and_then (validate_txn_start (ss_txn_id c) (ss_start_timestamp c)) (\<lambda>_.
     and_then (ensure (ss_start_timestamp c < ss_commit_timestamp c)
       ''commit timestamp must be greater than start timestamp'') (\<lambda>_.
     and_then (validate_write_entries (ss_writes c)) (\<lambda>_.
     and_then (try_map WriteEntry_to_proto (ss_writes c)) (\<lambda>writes.
       Inr \<lparr>pss_txn_id = Some (ss_txn_id c), pss_start_timestamp = Some (ss_start_timestamp c),
            pss_commit_timestamp = Some (ss_commit_timestamp c), pss_writes = writes\<rparr>))))"

definition ResolveIntentCommand_to_proto ::
  "ResolveIntentCommand \<Rightarrow> proto_ResolveIntentCommand str_result" where
  "ResolveIntentCommand_to_proto c =
     and_then (validate_txn_start (ri_txn_id c) (ri_start_timestamp c)) (\<lambda>_.
     and_then (validate_keys (ri_keys c)) (\<lambda>_.
     and_then (validate_resolved_status (ri_resolved_status c) (ri_start_timestamp c)
       (ri_commit_timestamp c)) (\<lambda>_.
       Inr \<lparr>pri_txn_id = Some (ri_txn_id c), pri_start_timestamp = Some (ri_start_timestamp c),
            pri_resolved_status = TxnStatus_to_proto (ri_resolved_status c),
            pri_commit_timestamp = ri_commit_timestamp c, pri_keys = ri_keys c\<rparr>)))"

definition CreateTableOperation_to_proto :: "CreateTableOperation \<Rightarrow> proto_CreateTableOperation" where
  "CreateTableOperation_to_proto c =
     \<lparr>pcto_table_definition = Some (TableDefinition_to_proto (cto_table_def c))\<rparr>"

definition CatalogCommand_to_proto :: "CatalogCommand \<Rightarrow> proto_CatalogCommand" where
  "CatalogCommand_to_proto c =
     \<lparr>pcc_operation = (case cc_operation c of
        CreateTable op \<Rightarrow> Some (PcCreateTable (CreateTableOperation_to_proto op)))\<rparr>"

definition NoopCommand_to_proto :: "NoopCommand \<Rightarrow> proto_NoopCommand" where
  "NoopCommand_to_proto c = ProtoNoopCommand"

definition TabletCommand_to_proto :: "TabletCommand \<Rightarrow> proto_TabletCommand str_result" where
  "TabletCommand_to_proto command =
     (let some = (\<lambda>c. Inr \<lparr>ptc_command = Some c\<rparr>) in
      case command of
        TcPrewrite c \<Rightarrow> and_then (PrewriteCommand_to_proto c) (\<lambda>p. some (PtPrewrite p))
      | TcCommit c \<Rightarrow> and_then (CommitCommand_to_proto c) (\<lambda>p. some (PtCommit p))
      | TcRollback c \<Rightarrow> and_then (RollbackCommand_to_proto c) (\<lambda>p. some (PtRollback p))
      | TcSingleShardCommit c \<Rightarrow>
          and_then (SingleShardCommitCommand_to_proto c) (\<lambda>p. some (PtSingleShardCommit p))
      | TcResolveIntent c \<Rightarrow>
          and_then (ResolveIntentCommand_to_proto c) (\<lambda>p. some (PtResolveIntent p))
      | TcCatalog c \<Rightarrow> some (PtCatalogUpdate (CatalogCommand_to_proto c))
      | TcNoop c \<Rightarrow> some (PtNoop (NoopCommand_to_proto c))
      | TcPublishAborted c \<Rightarrow> and_then (PublishAborted_to_proto c) (\<lambda>p. some (PtPublishAborted p))
      | TcHeartbeat c \<Rightarrow> and_then (Heartbeat_to_proto c) (\<lambda>p. some (PtHeartbeat p))
      | TcExpirePending c \<Rightarrow> and_then (ExpirePending_to_proto c) (\<lambda>p. some (PtExpirePending p)))"

section \<open>Decoding\<close>

definition WriteEntry_from_proto :: "proto_WriteEntry \<Rightarrow> CommandWriteEntry str_result" where
  "WriteEntry_from_proto p =
     and_then (if pe_op p \<in> {0, 1, 2, 3} then WriteKind_from_proto (pe_op p) else Inl ''invalid op'') (\<lambda>op.
     and_then (try_option Row_from_proto (pe_row p)) (\<lambda>row.
     and_then (validate_command_mutation op row) (\<lambda>_.
       Inr \<lparr>ce_key = pe_key p, ce_row = row, ce_op = op\<rparr>)))"

definition PrewriteCommand_from_proto :: "proto_PrewriteCommand \<Rightarrow> PrewriteCommand str_result" where
  "PrewriteCommand_from_proto p =
     and_then (ok_or (ppre_txn_id p) ''missing txn_id'') (\<lambda>txn_id.
     and_then (ok_or (ppre_start_timestamp p) ''missing start_timestamp'') (\<lambda>start_timestamp.
     and_then (try_map WriteEntry_from_proto (ppre_writes p)) (\<lambda>writes.
     and_then (try_option TxnStatusRecord_from_proto (ppre_pending_status p)) (\<lambda>pending_status.
     let command = \<lparr>pre_txn_id = txn_id, pre_start_timestamp = start_timestamp, pre_writes = writes,
           pre_primary_key = ppre_primary_key p, pre_ttl_ms = ppre_ttl_ms p,
           pre_pending_status = pending_status\<rparr> in
     and_then (PrewriteCommand_validate command) (\<lambda>_. Inr command)))))"

definition CommitCommand_from_proto :: "proto_CommitCommand \<Rightarrow> CommitCommand str_result" where
  "CommitCommand_from_proto p =
     and_then (ok_or (pcom_txn_id p) ''missing txn_id'') (\<lambda>txn_id.
     and_then (ok_or (pcom_start_timestamp p) ''missing start_timestamp'') (\<lambda>start_timestamp.
     and_then (ok_or (pcom_commit_timestamp p) ''missing commit_timestamp'') (\<lambda>commit_timestamp.
     and_then (try_option TxnStatusRecord_from_proto (pcom_committed_status p)) (\<lambda>committed_status.
     let command = \<lparr>com_txn_id = txn_id, com_start_timestamp = start_timestamp,
           com_commit_timestamp = commit_timestamp, com_keys = pcom_keys p,
           com_committed_status = committed_status\<rparr> in
     and_then (CommitCommand_validate command) (\<lambda>_. Inr command)))))"

definition PublishAborted_from_proto ::
  "proto_PublishAbortedTransactionStatus \<Rightarrow> PublishAbortedTransactionStatus str_result" where
  "PublishAborted_from_proto p =
     and_then (ok_or (ppa_status_record p) ''missing status_record'') (\<lambda>q.
     and_then (TxnStatusRecord_from_proto q) (\<lambda>status_record.
     let command = \<lparr>pa_status_record = status_record\<rparr> in
     and_then (PublishAborted_validate command) (\<lambda>_. Inr command)))"

definition Heartbeat_from_proto ::
  "proto_HeartbeatTransactionStatus \<Rightarrow> HeartbeatTransactionStatus str_result" where
  "Heartbeat_from_proto p =
     and_then (ok_or (phb_expected_status p) ''missing expected_status'') (\<lambda>q.
     and_then (TxnStatusRecord_from_proto q) (\<lambda>expected_status.
     and_then (ok_or (phb_next_status p) ''missing next_status'') (\<lambda>r.
     and_then (TxnStatusRecord_from_proto r) (\<lambda>next_status.
     let heartbeat = \<lparr>hb_expected_status = expected_status, hb_next_status = next_status,
           hb_now_ms = phb_now_ms p\<rparr> in
     and_then (Heartbeat_validate heartbeat) (\<lambda>_. Inr heartbeat)))))"

definition ExpirePending_from_proto ::
  "proto_ExpirePendingTransactionStatus \<Rightarrow> ExpirePendingTransactionStatus str_result" where
  "ExpirePending_from_proto p =
     and_then (ok_or (pex_expected_status p) ''missing expected_status'') (\<lambda>q.
     and_then (TxnStatusRecord_from_proto q) (\<lambda>expected_status.
     let expiry = \<lparr>ex_expected_status = expected_status, ex_now_ms = pex_now_ms p\<rparr> in
     and_then (ExpirePending_validate expiry) (\<lambda>_. Inr expiry)))"

definition RollbackCommand_from_proto :: "proto_RollbackCommand \<Rightarrow> RollbackCommand str_result" where
  "RollbackCommand_from_proto p =
     and_then (ok_or (prb_txn_id p) ''missing txn_id'') (\<lambda>txn_id.
     and_then (ok_or (prb_start_timestamp p) ''missing start_timestamp'') (\<lambda>start_timestamp.
     let command = \<lparr>rb_txn_id = txn_id, rb_start_timestamp = start_timestamp, rb_keys = prb_keys p\<rparr> in
     and_then (RollbackCommand_validate command) (\<lambda>_. Inr command)))"

definition SingleShardCommitCommand_from_proto ::
  "proto_SingleShardCommitCommand \<Rightarrow> SingleShardCommitCommand str_result" where
  "SingleShardCommitCommand_from_proto p =
     and_then (try_map WriteEntry_from_proto (pss_writes p)) (\<lambda>writes.
     and_then (ok_or (pss_txn_id p) ''missing txn_id'') (\<lambda>txn_id.
     and_then (ok_or (pss_start_timestamp p) ''missing start_timestamp'') (\<lambda>start_timestamp.
     and_then (ok_or (pss_commit_timestamp p) ''missing commit_timestamp'') (\<lambda>commit_timestamp.
       Inr \<lparr>ss_txn_id = txn_id, ss_start_timestamp = start_timestamp,
            ss_commit_timestamp = commit_timestamp, ss_writes = writes\<rparr>))))"

definition ResolveIntentCommand_from_proto ::
  "proto_ResolveIntentCommand \<Rightarrow> ResolveIntentCommand str_result" where
  "ResolveIntentCommand_from_proto p =
     and_then (if pri_resolved_status p \<in> {0, 1, 2, 3} then TxnStatus_from_proto (pri_resolved_status p)
       else Inl ''invalid resolved status'') (\<lambda>resolved_status.
     and_then (ok_or (pri_start_timestamp p) ''missing start_timestamp'') (\<lambda>start_timestamp.
     and_then (validate_resolved_status resolved_status start_timestamp (pri_commit_timestamp p)) (\<lambda>_.
     and_then (ok_or (pri_txn_id p) ''missing txn_id'') (\<lambda>txn_id.
       Inr \<lparr>ri_txn_id = txn_id, ri_start_timestamp = start_timestamp, ri_keys = pri_keys p,
            ri_resolved_status = resolved_status, ri_commit_timestamp = pri_commit_timestamp p\<rparr>))))"

definition CreateTableOperation_from_proto ::
  "proto_CreateTableOperation \<Rightarrow> CreateTableOperation str_result" where
  "CreateTableOperation_from_proto p =
     and_then (ok_or (pcto_table_definition p) ''missing table_definition'') (\<lambda>q.
     and_then (TableDefinition_from_proto q) (\<lambda>table_def. Inr \<lparr>cto_table_def = table_def\<rparr>))"

definition CatalogCommand_from_proto :: "proto_CatalogCommand \<Rightarrow> CatalogCommand str_result" where
  "CatalogCommand_from_proto p =
     (case pcc_operation p of
        Some (PcCreateTable op) \<Rightarrow>
          and_then (CreateTableOperation_from_proto op) (\<lambda>c. Inr \<lparr>cc_operation = CreateTable c\<rparr>)
      | None \<Rightarrow> Inl ''missing catalog operation'')"

definition NoopCommand_from_proto :: "proto_NoopCommand \<Rightarrow> NoopCommand str_result" where
  "NoopCommand_from_proto p = Inr NoopCommand"

definition TabletCommand_from_proto :: "proto_TabletCommand \<Rightarrow> TabletCommand str_result" where
  "TabletCommand_from_proto p =
     (case ptc_command p of
        Some (PtPrewrite c) \<Rightarrow> and_then (PrewriteCommand_from_proto c) (\<lambda>c. Inr (TcPrewrite c))
      | Some (PtCommit c) \<Rightarrow> and_then (CommitCommand_from_proto c) (\<lambda>c. Inr (TcCommit c))
      | Some (PtRollback c) \<Rightarrow> and_then (RollbackCommand_from_proto c) (\<lambda>c. Inr (TcRollback c))
      | Some (PtSingleShardCommit c) \<Rightarrow>
          and_then (SingleShardCommitCommand_from_proto c) (\<lambda>c. Inr (TcSingleShardCommit c))
      | Some (PtResolveIntent c) \<Rightarrow>
          and_then (ResolveIntentCommand_from_proto c) (\<lambda>c. Inr (TcResolveIntent c))
      | Some (PtCatalogUpdate c) \<Rightarrow> and_then (CatalogCommand_from_proto c) (\<lambda>c. Inr (TcCatalog c))
      | Some (PtNoop c) \<Rightarrow> and_then (NoopCommand_from_proto c) (\<lambda>c. Inr (TcNoop c))
      | Some (PtPublishAborted c) \<Rightarrow> and_then (PublishAborted_from_proto c) (\<lambda>c. Inr (TcPublishAborted c))
      | Some (PtHeartbeat c) \<Rightarrow> and_then (Heartbeat_from_proto c) (\<lambda>c. Inr (TcHeartbeat c))
      | Some (PtExpirePending c) \<Rightarrow> and_then (ExpirePending_from_proto c) (\<lambda>c. Inr (TcExpirePending c))
      | None \<Rightarrow> Inl ''missing tablet command'')"

section \<open>Round trips\<close>

lemma TxnStatusRecord_to_proto_valid:
  "TxnStatusRecord_to_proto r = Inr p \<Longrightarrow> TxnStatusRecord_validate r = Inr ()"
  by (auto simp: TxnStatusRecord_to_proto_def and_then_eq_Inr)

interpretation status_codec: wire_codec "\<lambda>r. TxnStatusRecord_validate r = Inr ()"
  TxnStatusRecord_to_proto TxnStatusRecord_from_proto
proof
  fix r p
  show "TxnStatusRecord_to_proto r = Inr p \<Longrightarrow> TxnStatusRecord_from_proto p = Inr r"
    by (simp add: TxnStatusRecord_wire)
qed (auto simp: TxnStatusRecord_to_proto_valid, simp add: TxnStatusRecord_to_proto_def)

interpretation write_entry_codec: wire_codec
  "\<lambda>w. validate_command_mutation (ce_op w) (ce_row w) = Inr ()" WriteEntry_to_proto WriteEntry_from_proto
proof
  fix w p
  show "WriteEntry_to_proto w = Inr p \<Longrightarrow> WriteEntry_from_proto p = Inr w"
    by (cases w; cases "ce_row w"; cases "ce_op w")
      (auto simp: WriteEntry_to_proto_def WriteEntry_from_proto_def WriteKind_from_proto_def and_then_eq_Inr)
qed (auto simp: WriteEntry_to_proto_def and_then_eq_Inr)

lemma write_entries_ok_entry: "write_entries_ok ws \<Longrightarrow> w \<in> set ws \<Longrightarrow> validate_command_mutation (ce_op w) (ce_row w) = Inr ()"
  by (auto simp: write_entries_ok_def result_simps)

interpretation prewrite_codec: wire_codec "\<lambda>c. PrewriteCommand_validate c = Inr ()"
  PrewriteCommand_to_proto PrewriteCommand_from_proto
proof
  fix c p
  show "PrewriteCommand_to_proto c = Inr p \<Longrightarrow> PrewriteCommand_validate c = Inr ()"
    by (auto simp: PrewriteCommand_to_proto_def and_then_eq_Inr)
  show "PrewriteCommand_to_proto c = Inr p \<Longrightarrow> PrewriteCommand_from_proto p = Inr c"
    by (cases c) (auto simp: PrewriteCommand_to_proto_def PrewriteCommand_from_proto_def and_then_eq_Inr Let_def
        dest!: write_entry_codec.list_dec_enc status_codec.option_dec_enc)
  assume c: "PrewriteCommand_validate c = Inr ()"
  obtain ws where "try_map WriteEntry_to_proto (pre_writes c) = Inr ws"
    using write_entry_codec.list_total write_entries_ok_entry PrewriteCommand_validate_writes [OF c] by meson
  moreover obtain st where "try_option TxnStatusRecord_to_proto (pre_pending_status c) = Inr st"
    using status_codec.option_total PrewriteCommand_validate_status [OF c] by blast
  ultimately show "\<exists>p. PrewriteCommand_to_proto c = Inr p"
    using c by (simp add: PrewriteCommand_to_proto_def)
qed

interpretation commit_codec: wire_codec "\<lambda>c. CommitCommand_validate c = Inr ()"
  CommitCommand_to_proto CommitCommand_from_proto
proof
  fix c p
  show "CommitCommand_to_proto c = Inr p \<Longrightarrow> CommitCommand_validate c = Inr ()"
    by (auto simp: CommitCommand_to_proto_def and_then_eq_Inr)
  show "CommitCommand_to_proto c = Inr p \<Longrightarrow> CommitCommand_from_proto p = Inr c"
    by (cases c) (auto simp: CommitCommand_to_proto_def CommitCommand_from_proto_def and_then_eq_Inr Let_def
        dest!: status_codec.option_dec_enc)
  assume c: "CommitCommand_validate c = Inr ()"
  obtain st where "try_option TxnStatusRecord_to_proto (com_committed_status c) = Inr st"
    using status_codec.option_total CommitCommand_validate_status [OF c] by blast
  then show "\<exists>p. CommitCommand_to_proto c = Inr p"
    using c by (simp add: CommitCommand_to_proto_def)
qed

interpretation publish_aborted_codec: wire_codec "\<lambda>c. PublishAborted_validate c = Inr ()"
  PublishAborted_to_proto PublishAborted_from_proto
proof
  fix c p
  show "PublishAborted_to_proto c = Inr p \<Longrightarrow> PublishAborted_from_proto p = Inr c"
    by (cases c) (auto simp: PublishAborted_to_proto_def PublishAborted_from_proto_def and_then_eq_Inr Let_def
        dest!: status_codec.dec_enc)
qed (auto simp: PublishAborted_to_proto_def PublishAborted_validate_def and_then_eq_Inr
    TxnStatusRecord_to_proto_def)

interpretation heartbeat_codec: wire_codec "\<lambda>c. Heartbeat_validate c = Inr ()"
  Heartbeat_to_proto Heartbeat_from_proto
proof
  fix c p
  show "Heartbeat_to_proto c = Inr p \<Longrightarrow> Heartbeat_from_proto p = Inr c"
    by (cases c) (auto simp: Heartbeat_to_proto_def Heartbeat_from_proto_def and_then_eq_Inr Let_def
        dest!: status_codec.dec_enc)
  assume c: "Heartbeat_validate c = Inr ()"
  then have "TxnStatusRecord_validate (hb_expected_status c) = Inr ()"
    "TxnStatusRecord_validate (hb_next_status c) = Inr ()"
    by (auto simp: Heartbeat_validate_def Let_def and_then_eq_Inr)
  with c show "\<exists>p. Heartbeat_to_proto c = Inr p"
    by (simp add: Heartbeat_to_proto_def TxnStatusRecord_to_proto_def)
qed (auto simp: Heartbeat_to_proto_def and_then_eq_Inr)

interpretation expire_codec: wire_codec "\<lambda>c. ExpirePending_validate c = Inr ()"
  ExpirePending_to_proto ExpirePending_from_proto
proof
  fix c p
  show "ExpirePending_to_proto c = Inr p \<Longrightarrow> ExpirePending_from_proto p = Inr c"
    by (cases c) (auto simp: ExpirePending_to_proto_def ExpirePending_from_proto_def and_then_eq_Inr Let_def
        dest!: status_codec.dec_enc)
  assume c: "ExpirePending_validate c = Inr ()"
  then have "TxnStatusRecord_validate (ex_expected_status c) = Inr ()"
    by (auto simp: ExpirePending_validate_def Let_def and_then_eq_Inr)
  with c show "\<exists>p. ExpirePending_to_proto c = Inr p"
    by (simp add: ExpirePending_to_proto_def TxnStatusRecord_to_proto_def)
qed (auto simp: ExpirePending_to_proto_def and_then_eq_Inr)

interpretation rollback_codec: wire_codec "\<lambda>c. RollbackCommand_validate c = Inr ()"
  RollbackCommand_to_proto RollbackCommand_from_proto
proof
  fix c p
  show "RollbackCommand_to_proto c = Inr p \<Longrightarrow> RollbackCommand_from_proto p = Inr c"
    by (cases c) (auto simp: RollbackCommand_to_proto_def RollbackCommand_from_proto_def and_then_eq_Inr Let_def)
qed (auto simp: RollbackCommand_to_proto_def and_then_eq_Inr)

definition single_shard_ok :: "SingleShardCommitCommand \<Rightarrow> bool" where
  "single_shard_ok c \<longleftrightarrow> ss_txn_id c \<noteq> 0 \<and> ss_start_timestamp c \<noteq> 0 \<and>
     ss_start_timestamp c < ss_commit_timestamp c \<and> write_entries_ok (ss_writes c)"

interpretation single_shard_codec: wire_codec single_shard_ok
  SingleShardCommitCommand_to_proto SingleShardCommitCommand_from_proto
proof
  fix c p
  show "SingleShardCommitCommand_to_proto c = Inr p \<Longrightarrow> single_shard_ok c"
    by (auto simp: SingleShardCommitCommand_to_proto_def single_shard_ok_def result_simps)
  show "SingleShardCommitCommand_to_proto c = Inr p \<Longrightarrow> SingleShardCommitCommand_from_proto p = Inr c"
    by (auto simp: SingleShardCommitCommand_to_proto_def SingleShardCommitCommand_from_proto_def
        and_then_eq_Inr dest!: write_entry_codec.list_dec_enc)
  assume c: "single_shard_ok c"
  then obtain ws where "try_map WriteEntry_to_proto (ss_writes c) = Inr ws"
    using write_entry_codec.list_total write_entries_ok_entry unfolding single_shard_ok_def by meson
  with c show "\<exists>p. SingleShardCommitCommand_to_proto c = Inr p"
    by (simp add: SingleShardCommitCommand_to_proto_def single_shard_ok_def result_simps)
qed

definition resolve_ok :: "ResolveIntentCommand \<Rightarrow> bool" where
  "resolve_ok c \<longleftrightarrow> ri_txn_id c \<noteq> 0 \<and> ri_start_timestamp c \<noteq> 0 \<and> keys_ok (ri_keys c) \<and>
     validate_resolved_status (ri_resolved_status c) (ri_start_timestamp c) (ri_commit_timestamp c) = Inr ()"

interpretation resolve_codec: wire_codec resolve_ok
  ResolveIntentCommand_to_proto ResolveIntentCommand_from_proto
proof
  fix c p
  show "ResolveIntentCommand_to_proto c = Inr p \<Longrightarrow> ResolveIntentCommand_from_proto p = Inr c"
    by (cases c; cases "ri_resolved_status c")
      (auto simp: ResolveIntentCommand_to_proto_def ResolveIntentCommand_from_proto_def
        TxnStatus_from_proto_def and_then_eq_Inr)
qed (auto simp: ResolveIntentCommand_to_proto_def resolve_ok_def result_simps)

lemma CatalogCommand_roundtrip: "CatalogCommand_from_proto (CatalogCommand_to_proto c) = Inr c"
  by (cases c; cases "cc_operation c")
    (auto simp: CatalogCommand_from_proto_def CatalogCommand_to_proto_def
      CreateTableOperation_from_proto_def CreateTableOperation_to_proto_def result_simps TableDefinition_wire)

lemma NoopCommand_roundtrip: "NoopCommand_from_proto (NoopCommand_to_proto c) = Inr c"
  by (cases c) (simp add: NoopCommand_from_proto_def)

fun command_ok :: "TabletCommand \<Rightarrow> bool" where
  "command_ok (TcPrewrite c) = (PrewriteCommand_validate c = Inr ())"
| "command_ok (TcCommit c) = (CommitCommand_validate c = Inr ())"
| "command_ok (TcRollback c) = (RollbackCommand_validate c = Inr ())"
| "command_ok (TcSingleShardCommit c) = single_shard_ok c"
| "command_ok (TcResolveIntent c) = resolve_ok c"
| "command_ok (TcCatalog c) = True"
| "command_ok (TcNoop c) = True"
| "command_ok (TcPublishAborted c) = (PublishAborted_validate c = Inr ())"
| "command_ok (TcHeartbeat c) = (Heartbeat_validate c = Inr ())"
| "command_ok (TcExpirePending c) = (ExpirePending_validate c = Inr ())"

lemmas command_codecs_total =
  prewrite_codec.enc_total commit_codec.enc_total rollback_codec.enc_total
  single_shard_codec.enc_total resolve_codec.enc_total publish_aborted_codec.enc_total
  heartbeat_codec.enc_total expire_codec.enc_total

lemmas command_codecs_ok =
  prewrite_codec.enc_ok commit_codec.enc_ok rollback_codec.enc_ok
  single_shard_codec.enc_ok resolve_codec.enc_ok publish_aborted_codec.enc_ok
  heartbeat_codec.enc_ok expire_codec.enc_ok

lemmas command_codecs_dec =
  prewrite_codec.dec_enc commit_codec.dec_enc rollback_codec.dec_enc
  single_shard_codec.dec_enc resolve_codec.dec_enc publish_aborted_codec.dec_enc
  heartbeat_codec.dec_enc expire_codec.dec_enc

interpretation command_codec: wire_codec command_ok TabletCommand_to_proto TabletCommand_from_proto
proof
  fix c p
  show "TabletCommand_to_proto c = Inr p \<Longrightarrow> command_ok c"
    by (cases c) (auto simp: TabletCommand_to_proto_def Let_def and_then_eq_Inr dest: command_codecs_ok)
  show "command_ok c \<Longrightarrow> \<exists>p. TabletCommand_to_proto c = Inr p"
    by (cases c) (auto simp: TabletCommand_to_proto_def Let_def and_then_eq_Inr dest!: command_codecs_total)
  show "TabletCommand_to_proto c = Inr p \<Longrightarrow> TabletCommand_from_proto p = Inr c"
    by (cases c) (auto simp: TabletCommand_to_proto_def TabletCommand_from_proto_def Let_def
        and_then_eq_Inr CatalogCommand_roundtrip NoopCommand_roundtrip dest!: command_codecs_dec)
qed

end
