(* ===== verification/Envelope.thy ===== *)
theory Envelope
  imports Command_Codec
begin

text \<open>
  The durable command envelope and the bounded batch of envelopes that enter the Raft log
  (\<^verbatim>\<open>TabletCommandEnvelope\<close> and \<^verbatim>\<open>TabletCommandBatchEnvelope\<close> of
  \<^verbatim>\<open>ragnordb-common/src/command_codec.rs\<close>). The byte encoder and decoder of a message are
  prost code; they are the parameters \<open>encode_to_vec\<close> and \<open>prost_decode\<close> of the definitions
  that use them.
\<close>

section \<open>Envelopes\<close>

definition TABLET_COMMAND_ENVELOPE_VERSION :: u32 where [simp]: "TABLET_COMMAND_ENVELOPE_VERSION = 2"
definition TABLET_COMMAND_BATCH_ENVELOPE_VERSION :: u32 where [simp]: "TABLET_COMMAND_BATCH_ENVELOPE_VERSION = 1"
definition MAX_TABLET_COMMAND_BATCH_COMMANDS :: nat where [simp]: "MAX_TABLET_COMMAND_BATCH_COMMANDS = 32"
definition MAX_TABLET_COMMAND_BATCH_BYTES :: nat where "MAX_TABLET_COMMAND_BATCH_BYTES = 1024 * 1024"

record TabletCommandEnvelope =
  en_format_version :: u32
  en_request_id :: RequestId
  en_tablet_id :: TabletId
  en_expected_epoch :: u64
  en_logical_command_id :: "LogicalCommandId option"
  en_acknowledged_through :: "u64 option"
  en_command :: TabletCommand

datatype TabletCommandEnvelopeError =
    EeUnsupportedVersion u32
  | EeZeroTabletId
  | EeZeroExpectedEpoch
  | EeMissingField string
  | EeInvalidRequestId string
  | EeInvalidLogicalCommandId string
  | EeInvalidCommand string
  | EeDecode

type_synonym 'a envelope_result = "TabletCommandEnvelopeError + 'a"

record proto_TabletCommandEnvelope =
  pen_format_version :: u32
  pen_request_id :: "proto_RequestId option"
  pen_tablet_id :: "u64 option"
  pen_expected_epoch :: u64
  pen_command :: "proto_TabletCommand option"
  pen_logical_command_id :: "proto_LogicalCommandId option"
  pen_acknowledged_through :: "u64 option"

definition validate_metadata :: "TabletCommandEnvelope \<Rightarrow> unit envelope_result" where
  "validate_metadata e =
     and_then (ensure (en_format_version e = TABLET_COMMAND_ENVELOPE_VERSION)
       (EeUnsupportedVersion (en_format_version e))) (\<lambda>_.
     and_then (ensure (en_tablet_id e \<noteq> 0) EeZeroTabletId) (\<lambda>_.
     and_then (ensure (en_expected_epoch e \<noteq> 0) EeZeroExpectedEpoch) (\<lambda>_.
     and_then (ensure (rq_client_id (en_request_id e) \<noteq> 0)
       (EeInvalidRequestId ''client ID must be non-zero'')) (\<lambda>_.
     and_then (ensure (rq_sequence (en_request_id e) \<noteq> 0)
       (EeInvalidRequestId ''request sequence must be non-zero'')) (\<lambda>_.
     and_then (ensure (rq_raft_group_id (en_request_id e) \<noteq> 0)
       (EeInvalidRequestId ''Raft group ID must be non-zero'')) (\<lambda>_.
     case en_logical_command_id e of
       None \<Rightarrow> Inr ()
     | Some c \<Rightarrow> map_err EeInvalidLogicalCommandId (LogicalCommandId_validate c)))))))"

definition TabletCommandEnvelope_validate :: "TabletCommandEnvelope \<Rightarrow> unit envelope_result" where
  "TabletCommandEnvelope_validate e =
     and_then (validate_metadata e) (\<lambda>_.
     and_then (map_err EeInvalidCommand (TabletCommand_to_proto (en_command e))) (\<lambda>_. Inr ()))"

definition new_with_logical_command_id_and_ack ::
  "RequestId \<Rightarrow> LogicalCommandId \<Rightarrow> TabletId \<Rightarrow> u64 \<Rightarrow> u64 option \<Rightarrow> TabletCommand \<Rightarrow>
     TabletCommandEnvelope envelope_result" where
  "new_with_logical_command_id_and_ack request_id logical_command_id tablet_id expected_epoch
       acknowledged_through command =
     (let envelope = \<lparr>en_format_version = TABLET_COMMAND_ENVELOPE_VERSION, en_request_id = request_id,
            en_tablet_id = tablet_id, en_expected_epoch = expected_epoch,
            en_logical_command_id = Some logical_command_id,
            en_acknowledged_through = acknowledged_through, en_command = command\<rparr> in
      and_then (TabletCommandEnvelope_validate envelope) (\<lambda>_. Inr envelope))"

definition new_with_logical_command_id ::
  "RequestId \<Rightarrow> LogicalCommandId \<Rightarrow> TabletId \<Rightarrow> u64 \<Rightarrow> TabletCommand \<Rightarrow>
     TabletCommandEnvelope envelope_result" where
  "new_with_logical_command_id request_id logical_command_id tablet_id expected_epoch command =
     new_with_logical_command_id_and_ack request_id logical_command_id tablet_id expected_epoch None command"

definition TabletCommandEnvelope_new ::
  "RequestId \<Rightarrow> TabletId \<Rightarrow> u64 \<Rightarrow> TabletCommand \<Rightarrow> TabletCommandEnvelope envelope_result" where
  "TabletCommandEnvelope_new request_id tablet_id expected_epoch command =
     (let envelope = \<lparr>en_format_version = TABLET_COMMAND_ENVELOPE_VERSION, en_request_id = request_id,
            en_tablet_id = tablet_id, en_expected_epoch = expected_epoch,
            en_logical_command_id = None, en_acknowledged_through = None, en_command = command\<rparr> in
      and_then (TabletCommandEnvelope_validate envelope) (\<lambda>_. Inr envelope))"

definition TabletCommandEnvelope_to_proto ::
  "TabletCommandEnvelope \<Rightarrow> proto_TabletCommandEnvelope envelope_result" where
  "TabletCommandEnvelope_to_proto e =
     and_then (validate_metadata e) (\<lambda>_.
     and_then (map_err EeInvalidCommand (TabletCommand_to_proto (en_command e))) (\<lambda>command.
       Inr \<lparr>pen_format_version = en_format_version e,
            pen_request_id = Some (RequestId_to_proto (en_request_id e)),
            pen_tablet_id = Some (en_tablet_id e), pen_expected_epoch = en_expected_epoch e,
            pen_command = Some command,
            pen_logical_command_id = map_option LogicalCommandId_to_proto (en_logical_command_id e),
            pen_acknowledged_through = en_acknowledged_through e\<rparr>))"

definition TabletCommandEnvelope_from_proto ::
  "proto_TabletCommandEnvelope \<Rightarrow> TabletCommandEnvelope envelope_result" where
  "TabletCommandEnvelope_from_proto p =
     and_then (ok_or (pen_request_id p) (EeMissingField ''request_id'')) (\<lambda>q.
     and_then (map_err EeInvalidRequestId (RequestId_from_proto q)) (\<lambda>request_id.
     and_then (ok_or (pen_tablet_id p) (EeMissingField ''tablet_id'')) (\<lambda>tablet_id.
     and_then (map_err EeInvalidLogicalCommandId
       (try_option LogicalCommandId_from_proto (pen_logical_command_id p))) (\<lambda>logical_command_id.
     and_then (ok_or (pen_command p) (EeMissingField ''command'')) (\<lambda>c.
     and_then (map_err EeInvalidCommand (TabletCommand_from_proto c)) (\<lambda>command.
     let envelope = \<lparr>en_format_version = pen_format_version p, en_request_id = request_id,
           en_tablet_id = tablet_id, en_expected_epoch = pen_expected_epoch p,
           en_logical_command_id = logical_command_id,
           en_acknowledged_through = pen_acknowledged_through p, en_command = command\<rparr> in
     and_then (TabletCommandEnvelope_validate envelope) (\<lambda>_. Inr envelope)))))))"

definition TabletCommandEnvelope_encode ::
  "(proto_TabletCommandEnvelope \<Rightarrow> bytes) \<Rightarrow> TabletCommandEnvelope \<Rightarrow> bytes envelope_result" where
  "TabletCommandEnvelope_encode encode_to_vec e =
     and_then (TabletCommandEnvelope_to_proto e) (\<lambda>p. Inr (encode_to_vec p))"

definition TabletCommandEnvelope_decode ::
  "(bytes \<Rightarrow> proto_TabletCommandEnvelope option) \<Rightarrow> bytes \<Rightarrow> TabletCommandEnvelope envelope_result" where
  "TabletCommandEnvelope_decode prost_decode bs =
     and_then (ok_or (prost_decode bs) EeDecode) (\<lambda>p. TabletCommandEnvelope_from_proto p)"

section \<open>Batches\<close>

fun is_batchable :: "TabletCommand \<Rightarrow> bool" where
  "is_batchable (TcPrewrite _) = True"
| "is_batchable (TcCommit _) = True"
| "is_batchable (TcRollback _) = True"
| "is_batchable (TcSingleShardCommit _) = True"
| "is_batchable (TcResolveIntent _) = True"
| "is_batchable _ = False"

fun kind_name :: "TabletCommand \<Rightarrow> string" where
  "kind_name (TcPrewrite _) = ''prewrite''"
| "kind_name (TcCommit _) = ''commit''"
| "kind_name (TcRollback _) = ''rollback''"
| "kind_name (TcSingleShardCommit _) = ''single-shard-commit''"
| "kind_name (TcResolveIntent _) = ''resolve-intent''"
| "kind_name (TcCatalog _) = ''catalog''"
| "kind_name (TcNoop _) = ''noop''"
| "kind_name (TcPublishAborted _) = ''publish-aborted-transaction-status''"
| "kind_name (TcHeartbeat _) = ''heartbeat-transaction-status''"
| "kind_name (TcExpirePending _) = ''expire-pending-transaction-status''"

record TabletCommandBatchEnvelope =
  be_format_version :: u32
  be_commands :: "TabletCommandEnvelope list"

record proto_TabletCommandBatchEnvelope =
  pbe_format_version :: u32
  pbe_commands :: "proto_TabletCommandEnvelope list"

datatype TabletCommandBatchEnvelopeError =
    BeUnsupportedVersion u32
  | BeTooFewCommands nat
  | BeTooManyCommands nat
  | BeInvalidEnvelope nat
  | BeMismatchedTablet TabletId TabletId
  | BeMismatchedEpoch u64 u64
  | BeMismatchedRaftGroup RaftGroupId RaftGroupId
  | BeNonBatchableCommand nat string
  | BeDuplicateRequestId RequestId
  | BeDuplicateLogicalCommandId LogicalCommandId
  | BeTooLarge nat nat
  | BeDecode

type_synonym 'a batch_result = "TabletCommandBatchEnvelopeError + 'a"

text \<open>The loop of \<^verbatim>\<open>validate\<close>, with the targets of the first envelope and the identities seen.\<close>

primrec batch_loop ::
  "TabletId \<Rightarrow> u64 \<Rightarrow> RaftGroupId \<Rightarrow> TabletCommandEnvelope list \<Rightarrow> nat \<Rightarrow> RequestId bset \<Rightarrow>
     LogicalCommandId bset \<Rightarrow> unit batch_result" where
  "batch_loop tablet epoch raft_group [] index request_ids logical_ids = Inr ()"
| "batch_loop tablet epoch raft_group (e # es) index request_ids logical_ids =
     and_then (map_err (\<lambda>_. BeInvalidEnvelope index) (TabletCommandEnvelope_validate e)) (\<lambda>_.
     and_then (ensure (en_tablet_id e = tablet) (BeMismatchedTablet tablet (en_tablet_id e))) (\<lambda>_.
     and_then (ensure (en_expected_epoch e = epoch) (BeMismatchedEpoch epoch (en_expected_epoch e))) (\<lambda>_.
     and_then (ensure (rq_raft_group_id (en_request_id e) = raft_group)
       (BeMismatchedRaftGroup raft_group (rq_raft_group_id (en_request_id e)))) (\<lambda>_.
     and_then (ensure (is_batchable (en_command e))
       (BeNonBatchableCommand index (kind_name (en_command e)))) (\<lambda>_.
     and_then (ensure (\<not> bt_contains_key request_ids (en_request_id e))
       (BeDuplicateRequestId (en_request_id e))) (\<lambda>_.
     let request_ids' = bs_insert (en_request_id e) request_ids in
     case en_logical_command_id e of
       None \<Rightarrow> batch_loop tablet epoch raft_group es (index + 1) request_ids' logical_ids
     | Some c \<Rightarrow>
         and_then (ensure (\<not> bt_contains_key logical_ids c) (BeDuplicateLogicalCommandId c)) (\<lambda>_.
           batch_loop tablet epoch raft_group es (index + 1) request_ids' (bs_insert c logical_ids))))))))"

definition TabletCommandBatchEnvelope_validate :: "TabletCommandBatchEnvelope \<Rightarrow> unit batch_result" where
  "TabletCommandBatchEnvelope_validate b =
     and_then (ensure (be_format_version b = TABLET_COMMAND_BATCH_ENVELOPE_VERSION)
       (BeUnsupportedVersion (be_format_version b))) (\<lambda>_.
     and_then (ensure (\<not> length (be_commands b) < 2) (BeTooFewCommands (length (be_commands b)))) (\<lambda>_.
     and_then (ensure (\<not> length (be_commands b) > MAX_TABLET_COMMAND_BATCH_COMMANDS)
       (BeTooManyCommands (length (be_commands b)))) (\<lambda>_.
     let first = hd (be_commands b) in
     batch_loop (en_tablet_id first) (en_expected_epoch first) (rq_raft_group_id (en_request_id first))
       (be_commands b) 0 bt_new bt_new)))"

definition TabletCommandBatchEnvelope_new ::
  "TabletCommandEnvelope list \<Rightarrow> TabletCommandBatchEnvelope batch_result" where
  "TabletCommandBatchEnvelope_new commands =
     (let batch = \<lparr>be_format_version = TABLET_COMMAND_BATCH_ENVELOPE_VERSION, be_commands = commands\<rparr> in
      and_then (TabletCommandBatchEnvelope_validate batch) (\<lambda>_. Inr batch))"

text \<open>
  \<^verbatim>\<open>to_proto\<close> of a batch unwraps the encoding of each envelope with \<^verbatim>\<open>expect\<close>; a panic is
  the result \<^term>\<open>None\<close> here.
\<close>

definition TabletCommandBatchEnvelope_to_proto ::
  "TabletCommandBatchEnvelope \<Rightarrow> proto_TabletCommandBatchEnvelope option" where
  "TabletCommandBatchEnvelope_to_proto b =
     (case try_map TabletCommandEnvelope_to_proto (be_commands b) of
        Inl _ \<Rightarrow> None
      | Inr ps \<Rightarrow> Some \<lparr>pbe_format_version = be_format_version b, pbe_commands = ps\<rparr>)"

primrec batch_commands_from_proto ::
  "proto_TabletCommandEnvelope list \<Rightarrow> nat \<Rightarrow> TabletCommandEnvelope list batch_result" where
  "batch_commands_from_proto [] index = Inr []"
| "batch_commands_from_proto (p # ps) index =
     and_then (map_err (\<lambda>_. BeInvalidEnvelope index) (TabletCommandEnvelope_from_proto p)) (\<lambda>e.
     and_then (batch_commands_from_proto ps (index + 1)) (\<lambda>es. Inr (e # es)))"

definition TabletCommandBatchEnvelope_from_proto ::
  "proto_TabletCommandBatchEnvelope \<Rightarrow> TabletCommandBatchEnvelope batch_result" where
  "TabletCommandBatchEnvelope_from_proto p =
     and_then (batch_commands_from_proto (pbe_commands p) 0) (\<lambda>commands.
     let batch = \<lparr>be_format_version = pbe_format_version p, be_commands = commands\<rparr> in
     and_then (TabletCommandBatchEnvelope_validate batch) (\<lambda>_. Inr batch))"

definition TabletCommandBatchEnvelope_encode ::
  "(proto_TabletCommandBatchEnvelope \<Rightarrow> bytes) \<Rightarrow> TabletCommandBatchEnvelope \<Rightarrow>
     bytes batch_result option" where
  "TabletCommandBatchEnvelope_encode encode_to_vec b =
     (case TabletCommandBatchEnvelope_validate b of
        Inl e \<Rightarrow> Some (Inl e)
      | Inr _ \<Rightarrow>
          (case TabletCommandBatchEnvelope_to_proto b of
             None \<Rightarrow> None
           | Some p \<Rightarrow>
               let encoded = encode_to_vec p in
               if length encoded > MAX_TABLET_COMMAND_BATCH_BYTES
               then Some (Inl (BeTooLarge (length encoded) MAX_TABLET_COMMAND_BATCH_BYTES))
               else Some (Inr encoded)))"

definition TabletCommandBatchEnvelope_decode ::
  "(bytes \<Rightarrow> proto_TabletCommandBatchEnvelope option) \<Rightarrow> bytes \<Rightarrow> TabletCommandBatchEnvelope batch_result" where
  "TabletCommandBatchEnvelope_decode prost_decode bs =
     and_then (ensure (\<not> length bs > MAX_TABLET_COMMAND_BATCH_BYTES)
       (BeTooLarge (length bs) MAX_TABLET_COMMAND_BATCH_BYTES)) (\<lambda>_.
     and_then (ok_or (prost_decode bs) BeDecode) (\<lambda>p.
     and_then (ensure (\<not> length (pbe_commands p) > MAX_TABLET_COMMAND_BATCH_COMMANDS)
       (BeTooManyCommands (length (pbe_commands p)))) (\<lambda>_.
       TabletCommandBatchEnvelope_from_proto p)))"

section \<open>Round trips\<close>

lemma validate_metadata_logical:
  "validate_metadata e = Inr u \<Longrightarrow> en_logical_command_id e = Some c \<Longrightarrow> LogicalCommandId_validate c = Inr ()"
  by (auto simp: validate_metadata_def result_simps)

interpretation envelope_codec: wire_codec "\<lambda>e. TabletCommandEnvelope_validate e = Inr ()"
  TabletCommandEnvelope_to_proto TabletCommandEnvelope_from_proto
proof
  fix e p
  assume p: "TabletCommandEnvelope_to_proto e = Inr p"
  then obtain c where c: "TabletCommand_to_proto (en_command e) = Inr c"
    and m: "validate_metadata e = Inr ()"
    by (auto simp: TabletCommandEnvelope_to_proto_def and_then_eq_Inr map_err_eq_Inr)
  then show v: "TabletCommandEnvelope_validate e = Inr ()"
    by (simp add: TabletCommandEnvelope_validate_def)
  have "RequestId_from_proto (RequestId_to_proto r) = Inr r" for r
    by (simp add: RequestId_wire)
  moreover have "try_option LogicalCommandId_from_proto
      (map_option LogicalCommandId_to_proto (en_logical_command_id e)) = Inr (en_logical_command_id e)"
    using validate_metadata_logical [OF m]
    by (cases "en_logical_command_id e") (auto simp: LogicalCommandId_wire and_then_eq_Inr)
  ultimately show "TabletCommandEnvelope_from_proto p = Inr e"
    using p c v m command_codec.dec_enc [OF c]
    by (cases e)
      (auto simp: TabletCommandEnvelope_to_proto_def TabletCommandEnvelope_from_proto_def Let_def)
qed (auto simp: TabletCommandEnvelope_validate_def TabletCommandEnvelope_to_proto_def and_then_eq_Inr
    map_err_eq_Inr)

lemma envelope_from_proto_valid:
  "TabletCommandEnvelope_from_proto p = Inr e \<Longrightarrow> TabletCommandEnvelope_validate e = Inr ()"
  by (auto simp: TabletCommandEnvelope_from_proto_def and_then_eq_Inr Let_def)

definition envelope_ok :: "TabletCommandEnvelope \<Rightarrow> bool" where
  "envelope_ok e \<longleftrightarrow> en_format_version e = 2 \<and> en_tablet_id e \<noteq> 0 \<and> en_expected_epoch e \<noteq> 0 \<and>
     rq_client_id (en_request_id e) \<noteq> 0 \<and> rq_sequence (en_request_id e) \<noteq> 0 \<and>
     rq_raft_group_id (en_request_id e) \<noteq> 0 \<and> command_ok (en_command e) \<and>
     (case en_logical_command_id e of None \<Rightarrow> True | Some c \<Rightarrow> LogicalCommandId_validate c = Inr ())"

lemma TabletCommandEnvelope_validate_Inr:
  "TabletCommandEnvelope_validate e = Inr u \<longleftrightarrow> envelope_ok e"
  by (cases "en_logical_command_id e")
    (auto simp: TabletCommandEnvelope_validate_def validate_metadata_def envelope_ok_def
      and_then_eq_Inr map_err_eq_Inr ensure_eq_Inr command_codec.valid_iff)

definition logical_ids :: "TabletCommandEnvelope list \<Rightarrow> LogicalCommandId list" where
  "logical_ids es = List.map_filter en_logical_command_id es"

lemma logical_ids_simps [simp]:
  "logical_ids [] = []"
  "logical_ids (e # es) = (case en_logical_command_id e of None \<Rightarrow> logical_ids es | Some c \<Rightarrow> c # logical_ids es)"
  by (simp_all add: logical_ids_def map_filter_simps split: option.splits)

definition targets :: "TabletId \<Rightarrow> u64 \<Rightarrow> RaftGroupId \<Rightarrow> TabletCommandEnvelope \<Rightarrow> bool" where
  "targets tablet epoch grp e \<longleftrightarrow> envelope_ok e \<and> is_batchable (en_command e) \<and>
     en_tablet_id e = tablet \<and> en_expected_epoch e = epoch \<and> rq_raft_group_id (en_request_id e) = grp"

definition batch_ok :: "TabletCommandBatchEnvelope \<Rightarrow> bool" where
  "batch_ok b \<longleftrightarrow> be_format_version b = 1 \<and> 2 \<le> length (be_commands b) \<and> length (be_commands b) \<le> 32 \<and>
     (\<exists>tablet epoch grp. \<forall>e \<in> set (be_commands b). targets tablet epoch grp e) \<and>
     distinct (map en_request_id (be_commands b)) \<and> distinct (logical_ids (be_commands b))"

lemma batch_loop_Cons:
  "batch_loop tablet epoch grp (e # es) n rs ls = Inr () \<longleftrightarrow>
     targets tablet epoch grp e \<and> bt_get rs (en_request_id e) = None \<and>
     (case en_logical_command_id e of
        None \<Rightarrow> batch_loop tablet epoch grp es (n + 1) (bs_insert (en_request_id e) rs) ls = Inr ()
      | Some c \<Rightarrow> bt_get ls c = None \<and>
          batch_loop tablet epoch grp es (n + 1) (bs_insert (en_request_id e) rs) (bs_insert c ls) = Inr ())"
  by (cases "en_logical_command_id e")
    (auto simp: targets_def and_then_eq_Inr map_err_eq_Inr ensure_eq_Inr
      TabletCommandEnvelope_validate_Inr Let_def)

lemma batch_loop_Inr:
  "batch_loop tablet epoch grp es n rs ls = Inr () \<longleftrightarrow>
     (\<forall>e \<in> set es. targets tablet epoch grp e \<and> bt_get rs (en_request_id e) = None) \<and>
     distinct (map en_request_id es) \<and> distinct (logical_ids es) \<and>
     (\<forall>c \<in> set (logical_ids es). bt_get ls c = None)"
proof (induction es arbitrary: n rs ls)
  case (Cons e es)
  show ?case
    unfolding batch_loop_Cons Cons.IH
    by (cases "en_logical_command_id e") (auto simp: image_iff)
qed simp

lemma TabletCommandBatchEnvelope_validate_Inr:
  "TabletCommandBatchEnvelope_validate b = Inr u \<longleftrightarrow> batch_ok b"
proof -
  have "hd es \<in> set es" if "2 \<le> length es" for es :: "TabletCommandEnvelope list"
    using that by (cases es) auto
  then show ?thesis
    by (auto simp: TabletCommandBatchEnvelope_validate_def batch_ok_def and_then_eq_Inr ensure_eq_Inr
        batch_loop_Inr Let_def not_less targets_def)
qed

lemma batch_commands_roundtrip:
  "try_map TabletCommandEnvelope_to_proto es = Inr ps \<Longrightarrow> batch_commands_from_proto ps n = Inr es"
  by (induction es arbitrary: ps n) (auto simp: and_then_eq_Inr dest!: envelope_codec.dec_enc)

lemma batch_to_proto:
  assumes "batch_ok b"
  shows "\<exists>p. TabletCommandBatchEnvelope_to_proto b = Some p \<and> length (pbe_commands p) \<le> 32 \<and>
    TabletCommandBatchEnvelope_from_proto p = Inr b"
proof -
  from assms have "\<forall>e \<in> set (be_commands b). TabletCommandEnvelope_validate e = Inr ()"
    by (auto simp: batch_ok_def TabletCommandEnvelope_validate_Inr targets_def)
  then obtain ps where ps: "try_map TabletCommandEnvelope_to_proto (be_commands b) = Inr ps"
    using envelope_codec.list_total by blast
  then have "length ps = length (be_commands b)"
    by (metis try_map_eq_Inr list_all2_lengthD)
  with assms ps batch_commands_roundtrip [OF ps, of 0] show ?thesis
    by (cases b) (simp add: TabletCommandBatchEnvelope_to_proto_def
        TabletCommandBatchEnvelope_from_proto_def TabletCommandBatchEnvelope_validate_Inr batch_ok_def Let_def and_then_eq_Inr)
qed

section \<open>Properties\<close>

text \<open>
  C38. What enters the Raft log can always be read back: an envelope has an encoding exactly
  when its metadata and command are well formed, decoding the bytes gives the same envelope,
  and every envelope decoded from any bytes is well formed, given that the message decoder
  inverts the message encoder on it.
\<close>

theorem command_envelope_roundtrip:
  assumes "\<And>p. TabletCommandEnvelope_to_proto e = Inr p \<Longrightarrow> prost_decode (encode_to_vec p) = Some p"
  shows "(envelope_ok e \<longleftrightarrow> is_ok (TabletCommandEnvelope_encode encode_to_vec e)) \<and>
    (\<forall>bs. TabletCommandEnvelope_encode encode_to_vec e = Inr bs \<longrightarrow>
       TabletCommandEnvelope_decode prost_decode bs = Inr e) \<and>
    (\<forall>bs e'. TabletCommandEnvelope_decode prost_decode bs = Inr e' \<longrightarrow> envelope_ok e')"
proof -
  have "envelope_ok e \<longleftrightarrow> (\<exists>p. TabletCommandEnvelope_to_proto e = Inr p)"
    using envelope_codec.valid_iff TabletCommandEnvelope_validate_Inr by blast
  moreover have "TabletCommandEnvelope_decode prost_decode bs = Inr e' \<Longrightarrow> envelope_ok e'" for bs e'
    using envelope_from_proto_valid
    by (auto simp: TabletCommandEnvelope_decode_def and_then_eq_Inr TabletCommandEnvelope_validate_Inr)
  ultimately show ?thesis
    by (auto simp: TabletCommandEnvelope_encode_def TabletCommandEnvelope_decode_def is_ok_iff
        and_then_eq_Inr assms intro: envelope_codec.dec_enc)
qed

definition demo_envelope :: "u64 \<Rightarrow> TabletCommandEnvelope" where
  "demo_envelope n = \<lparr>en_format_version = 2, en_request_id = RequestId 7 n 3, en_tablet_id = 5,
     en_expected_epoch = 1, en_logical_command_id = None, en_acknowledged_through = None,
     en_command = TcRollback \<lparr>rb_txn_id = 4, rb_start_timestamp = 9, rb_keys = [[1], [2]]\<rparr>\<rparr>"

definition demo_batch :: TabletCommandBatchEnvelope where
  "demo_batch = \<lparr>be_format_version = 1, be_commands = [demo_envelope 1, demo_envelope 2]\<rparr>"

lemma demo_envelope_ok: "n \<noteq> 0 \<Longrightarrow> envelope_ok (demo_envelope n)"
  by (simp add: envelope_ok_def demo_envelope_def RollbackCommand_validate_def result_simps keys_ok_def)

lemma demo_batch_ok: "batch_ok demo_batch"
  using demo_envelope_ok [of 1] demo_envelope_ok [of 2]
  by (simp add: batch_ok_def demo_batch_def targets_def) (simp add: demo_envelope_def)

theorem command_envelope_roundtrip_witness:
  "envelope_ok (demo_envelope 1) \<and>
   TabletCommandEnvelope_encode (\<lambda>_. [1]) (demo_envelope 1) = Inr [1] \<and>
   TabletCommandEnvelope_decode (\<lambda>_. Some (projr (TabletCommandEnvelope_to_proto (demo_envelope 1)))) [1] =
     Inr (demo_envelope 1)"
proof -
  let ?dec = "\<lambda>_. Some (projr (TabletCommandEnvelope_to_proto (demo_envelope 1)))"
  have "envelope_ok (demo_envelope 1)" by (simp add: demo_envelope_ok)
  moreover have "TabletCommandEnvelope_to_proto (demo_envelope 1) = Inr p \<Longrightarrow> ?dec ((\<lambda>_. [1]) p) = Some p" for p
    by simp
  ultimately show ?thesis
    using command_envelope_roundtrip [of "demo_envelope 1" ?dec "\<lambda>_. [1]"]
    by (auto simp: TabletCommandEnvelope_encode_def is_ok_iff and_then_eq_Inr)
qed

text \<open>
  C39. A batch proposal is accepted exactly when it holds between two and 32 well-formed
  mutation commands of one tablet, generation and Raft group whose request and logical
  identities are pairwise different; encoding never panics, a batch that fits the size limit
  decodes to itself, and no decoded batch breaks these rules.
\<close>

theorem command_batch_sound:
  assumes "\<And>p. TabletCommandBatchEnvelope_to_proto b = Some p \<Longrightarrow> prost_decode (encode_to_vec p) = Some p"
  shows "(is_ok (TabletCommandBatchEnvelope_validate b) \<longleftrightarrow> batch_ok b) \<and>
    TabletCommandBatchEnvelope_encode encode_to_vec b \<noteq> None \<and>
    (\<forall>bs. TabletCommandBatchEnvelope_encode encode_to_vec b = Some (Inr bs) \<longrightarrow>
       length bs \<le> 1024 * 1024 \<and> TabletCommandBatchEnvelope_decode prost_decode bs = Inr b) \<and>
    (\<forall>bs b'. TabletCommandBatchEnvelope_decode prost_decode bs = Inr b' \<longrightarrow> batch_ok b')"
proof -
  have enc: "TabletCommandBatchEnvelope_encode encode_to_vec b \<noteq> None \<and>
     (\<forall>bs. TabletCommandBatchEnvelope_encode encode_to_vec b = Some (Inr bs) \<longrightarrow>
       length bs \<le> 1024 * 1024 \<and> TabletCommandBatchEnvelope_decode prost_decode bs = Inr b)"
  proof (cases "TabletCommandBatchEnvelope_validate b")
    case (Inr u)
    then obtain p where p: "TabletCommandBatchEnvelope_to_proto b = Some p"
      "length (pbe_commands p) \<le> 32" "TabletCommandBatchEnvelope_from_proto p = Inr b"
      using batch_to_proto TabletCommandBatchEnvelope_validate_Inr by blast
    with Inr show ?thesis
      by (simp add: TabletCommandBatchEnvelope_encode_def TabletCommandBatchEnvelope_decode_def assms
          MAX_TABLET_COMMAND_BATCH_BYTES_def Let_def)
  qed (simp add: TabletCommandBatchEnvelope_encode_def)
  have "TabletCommandBatchEnvelope_decode prost_decode bs = Inr b' \<Longrightarrow> batch_ok b'" for bs b'
    by (auto simp: TabletCommandBatchEnvelope_decode_def TabletCommandBatchEnvelope_from_proto_def
        and_then_eq_Inr Let_def TabletCommandBatchEnvelope_validate_Inr)
  with enc show ?thesis
    by (simp add: is_ok_iff TabletCommandBatchEnvelope_validate_Inr)
qed

theorem command_batch_sound_witness:
  "batch_ok demo_batch \<and> TabletCommandBatchEnvelope_encode (\<lambda>_. [1]) demo_batch = Some (Inr [1]) \<and>
   TabletCommandBatchEnvelope_decode (\<lambda>_. TabletCommandBatchEnvelope_to_proto demo_batch) [1] =
     Inr demo_batch"
proof -
  let ?dec = "\<lambda>_. TabletCommandBatchEnvelope_to_proto demo_batch"
  have "TabletCommandBatchEnvelope_encode (\<lambda>_. [1]) demo_batch = Some (Inr [1])"
    using batch_to_proto [OF demo_batch_ok] TabletCommandBatchEnvelope_validate_Inr [of demo_batch "()"]
    by (auto simp: TabletCommandBatchEnvelope_encode_def demo_batch_ok MAX_TABLET_COMMAND_BATCH_BYTES_def Let_def)
  then show ?thesis
    using command_batch_sound [of demo_batch ?dec "\<lambda>_. [1]"] demo_batch_ok by simp
qed

end
