(* ===== verification/Tablet_Codec.thy ===== *)
theory Tablet_Codec
  imports Envelope
begin

text \<open>
  The replicated command metadata carried by a tablet snapshot
  (\<^verbatim>\<open>TabletStateMachineSnapshot\<close> of \<^verbatim>\<open>ragnordb-common/src/command_codec.rs\<close>): cached
  outcomes, deduplication state, retry horizons and transaction decisions, their validation
  and their protobuf form. The text of a cached rejection is a message and is left out.
\<close>

section \<open>Cached outcomes\<close>

datatype CachedTabletCommandResult =
    CrNoop | CrSingleShardCommit | CrPrewrite | CrCommit | CrRollback | CrResolveIntent
  | CrPublishAborted | CrHeartbeat

datatype CachedTabletCommandRejectionKind = RkInvalidCommand | RkWriteConflict | RkUnsupportedCommand

record CachedTabletCommandRejection =
  rej_kind :: CachedTabletCommandRejectionKind

datatype CachedTabletCommandOutcome =
    OcApplied CachedTabletCommandResult
  | OcRejected CachedTabletCommandRejection

record ClientDeduplicationSnapshot =
  dd_last_sequence_applied :: u64
  dd_cached_outcome :: CachedTabletCommandOutcome

datatype TabletStateMachineSnapshotError =
    SeUnsupportedVersion u32
  | SeZeroTabletId
  | SeZeroTabletEpoch
  | SeZeroRaftGroupId
  | SeRequestGroupMismatch RaftGroupId RaftGroupId
  | SeZeroRequestSequence
  | SeMissingField string
  | SeInvalidRequestId string
  | SeDuplicateClient u128
  | SeDuplicateLogicalCommand LogicalCommandId
  | SeInvalidLogicalCommandId string
  | SeInvalidCachedResult i32
  | SeInvalidCachedRejection i32
  | SeMultipleCachedOutcomes
  | SeZeroRetryHorizonClientId
  | SeZeroRetryHorizonSessionEpoch
  | SeInvalidRetryHorizonClientId
  | SeDuplicateRetryHorizon u128 u64
  | SeUnspecifiedCachedResult
  | SeDuplicateTxnStatus TxnId
  | SeTxnStatusKeyMismatch TxnId TxnId
  | SeTxnStatusTabletMismatch TxnId TabletId TabletId
  | SeInvalidTxnStatus string
  | SeDecode

type_synonym 'a snapshot_result = "TabletStateMachineSnapshotError + 'a"

record proto_CachedTabletCommandRejection =
  prej_kind :: i32

fun CachedTabletCommandResult_to_proto :: "CachedTabletCommandResult \<Rightarrow> i32" where
  "CachedTabletCommandResult_to_proto CrNoop = 1"
| "CachedTabletCommandResult_to_proto CrSingleShardCommit = 2"
| "CachedTabletCommandResult_to_proto CrPrewrite = 3"
| "CachedTabletCommandResult_to_proto CrCommit = 4"
| "CachedTabletCommandResult_to_proto CrRollback = 5"
| "CachedTabletCommandResult_to_proto CrResolveIntent = 6"
| "CachedTabletCommandResult_to_proto CrPublishAborted = 7"
| "CachedTabletCommandResult_to_proto CrHeartbeat = 8"

definition CachedTabletCommandResult_from_proto :: "i32 \<Rightarrow> CachedTabletCommandResult snapshot_result" where
  "CachedTabletCommandResult_from_proto r =
     (if r = 1 then Inr CrNoop else if r = 2 then Inr CrSingleShardCommit
      else if r = 3 then Inr CrPrewrite else if r = 4 then Inr CrCommit
      else if r = 5 then Inr CrRollback else if r = 6 then Inr CrResolveIntent
      else if r = 7 then Inr CrPublishAborted else if r = 8 then Inr CrHeartbeat
      else if r = 0 then Inl SeUnspecifiedCachedResult else Inl (SeInvalidCachedResult r))"

fun rejection_kind_to_proto :: "CachedTabletCommandRejectionKind \<Rightarrow> i32" where
  "rejection_kind_to_proto RkInvalidCommand = 1"
| "rejection_kind_to_proto RkWriteConflict = 2"
| "rejection_kind_to_proto RkUnsupportedCommand = 3"

text \<open>The two fields of a message that hold an outcome.\<close>

fun outcome_to_proto :: "CachedTabletCommandOutcome \<Rightarrow> i32 \<times> proto_CachedTabletCommandRejection option" where
  "outcome_to_proto (OcApplied result) = (CachedTabletCommandResult_to_proto result, None)"
| "outcome_to_proto (OcRejected rejection) =
     (0, Some \<lparr>prej_kind = rejection_kind_to_proto (rej_kind rejection)\<rparr>)"

definition outcome_from_proto ::
  "i32 \<Rightarrow> proto_CachedTabletCommandRejection option \<Rightarrow> CachedTabletCommandOutcome snapshot_result" where
  "outcome_from_proto cached_result cached_rejection =
     (case cached_rejection of
        Some rejection \<Rightarrow>
          if cached_result \<noteq> 0 then Inl SeMultipleCachedOutcomes
          else let k = prej_kind rejection in
            if k = 1 then Inr (OcRejected \<lparr>rej_kind = RkInvalidCommand\<rparr>)
            else if k = 2 then Inr (OcRejected \<lparr>rej_kind = RkWriteConflict\<rparr>)
            else if k = 3 then Inr (OcRejected \<lparr>rej_kind = RkUnsupportedCommand\<rparr>)
            else Inl (SeInvalidCachedRejection k)
      | None \<Rightarrow>
          and_then (CachedTabletCommandResult_from_proto cached_result) (\<lambda>r. Inr (OcApplied r)))"

section \<open>The snapshot\<close>

definition TABLET_STATE_MACHINE_SNAPSHOT_VERSION :: u32 where [simp]: "TABLET_STATE_MACHINE_SNAPSHOT_VERSION = 2"

record TabletStateMachineSnapshot =
  sn_format_version :: u32
  sn_tablet_id :: TabletId
  sn_tablet_epoch :: u64
  sn_raft_group_id :: RaftGroupId
  sn_clients :: "(u128, ClientDeduplicationSnapshot) btree"
  sn_logical_commands :: "(LogicalCommandId, ClientDeduplicationSnapshot) btree"
  sn_logical_client_retry_horizons :: "(u128 \<times> u64, u64) btree"
  sn_transaction_statuses :: "(TxnId, TxnStatusRecord) btree"

record proto_ClientDeduplicationSnapshot =
  pcd_last_request_id :: "proto_RequestId option"
  pcd_cached_result :: i32
  pcd_cached_rejection :: "proto_CachedTabletCommandRejection option"

record proto_LogicalCommandDeduplicationSnapshot =
  pld_logical_command_id :: "proto_LogicalCommandId option"
  pld_cached_result :: i32
  pld_cached_rejection :: "proto_CachedTabletCommandRejection option"

record proto_LogicalClientRetryHorizon =
  prh_client_id :: bytes
  prh_session_epoch :: u64
  prh_acknowledged_through :: u64

record proto_TabletStateMachineSnapshot =
  psn_format_version :: u32
  psn_tablet_id :: "u64 option"
  psn_tablet_epoch :: u64
  psn_clients :: "proto_ClientDeduplicationSnapshot list"
  psn_raft_group_id :: "u64 option"
  psn_logical_commands :: "proto_LogicalCommandDeduplicationSnapshot list"
  psn_logical_client_retry_horizons :: "proto_LogicalClientRetryHorizon list"
  psn_transaction_statuses :: "proto_TxnStatusRecord list"

definition validate_snapshot_status :: "TabletId \<Rightarrow> TxnId \<times> TxnStatusRecord \<Rightarrow> unit snapshot_result" where
  "validate_snapshot_status tablet_id = (\<lambda>(txn_id, status).
     and_then (map_err SeInvalidTxnStatus (TxnStatusRecord_validate status)) (\<lambda>_.
     and_then (ensure (txn_id = s_txn_id status) (SeTxnStatusKeyMismatch txn_id (s_txn_id status))) (\<lambda>_.
     and_then (map_err SeInvalidTxnStatus (primary_tablet_id status)) (\<lambda>primary.
       ensure (primary = tablet_id) (SeTxnStatusTabletMismatch txn_id tablet_id primary)))))"

definition TabletStateMachineSnapshot_validate :: "TabletStateMachineSnapshot \<Rightarrow> unit snapshot_result" where
  "TabletStateMachineSnapshot_validate s =
     and_then (ensure (sn_format_version s = TABLET_STATE_MACHINE_SNAPSHOT_VERSION)
       (SeUnsupportedVersion (sn_format_version s))) (\<lambda>_.
     and_then (ensure (sn_tablet_id s \<noteq> 0) SeZeroTabletId) (\<lambda>_.
     and_then (ensure (sn_tablet_epoch s \<noteq> 0) SeZeroTabletEpoch) (\<lambda>_.
     and_then (ensure (sn_raft_group_id s \<noteq> 0) SeZeroRaftGroupId) (\<lambda>_.
     and_then (ensure (\<not> (\<exists>c \<in> set (bt_values (sn_clients s)). dd_last_sequence_applied c = 0))
       SeZeroRequestSequence) (\<lambda>_.
     and_then (try_each (\<lambda>c. map_err SeInvalidLogicalCommandId (LogicalCommandId_validate c))
       (bt_keys (sn_logical_commands s))) (\<lambda>_.
     and_then (try_each (\<lambda>(client_id, session_epoch).
         and_then (ensure (client_id \<noteq> 0) SeZeroRetryHorizonClientId) (\<lambda>_.
           ensure (session_epoch \<noteq> 0) SeZeroRetryHorizonSessionEpoch))
       (bt_keys (sn_logical_client_retry_horizons s))) (\<lambda>_.
       try_each (validate_snapshot_status (sn_tablet_id s)) (bt_iter (sn_transaction_statuses s)))))))))"

definition new_with_transaction_statuses ::
  "TabletId \<Rightarrow> u64 \<Rightarrow> RaftGroupId \<Rightarrow> (u128, ClientDeduplicationSnapshot) btree \<Rightarrow>
     (LogicalCommandId, ClientDeduplicationSnapshot) btree \<Rightarrow> (u128 \<times> u64, u64) btree \<Rightarrow>
     (TxnId, TxnStatusRecord) btree \<Rightarrow> TabletStateMachineSnapshot snapshot_result" where
  "new_with_transaction_statuses tablet_id tablet_epoch raft_group_id clients logical_commands
       retry_horizons transaction_statuses =
     (let snapshot = \<lparr>sn_format_version = TABLET_STATE_MACHINE_SNAPSHOT_VERSION,
            sn_tablet_id = tablet_id, sn_tablet_epoch = tablet_epoch, sn_raft_group_id = raft_group_id,
            sn_clients = clients, sn_logical_commands = logical_commands,
            sn_logical_client_retry_horizons = retry_horizons,
            sn_transaction_statuses = transaction_statuses\<rparr> in
      and_then (TabletStateMachineSnapshot_validate snapshot) (\<lambda>_. Inr snapshot))"

section \<open>Protobuf form\<close>

definition client_to_proto ::
  "RaftGroupId \<Rightarrow> u128 \<times> ClientDeduplicationSnapshot \<Rightarrow> proto_ClientDeduplicationSnapshot" where
  "client_to_proto raft_group_id = (\<lambda>(client_id, state).
     \<lparr>pcd_last_request_id = Some (RequestId_to_proto
        (RequestId client_id (dd_last_sequence_applied state) raft_group_id)),
      pcd_cached_result = fst (outcome_to_proto (dd_cached_outcome state)),
      pcd_cached_rejection = snd (outcome_to_proto (dd_cached_outcome state))\<rparr>)"

definition logical_to_proto ::
  "LogicalCommandId \<times> ClientDeduplicationSnapshot \<Rightarrow> proto_LogicalCommandDeduplicationSnapshot" where
  "logical_to_proto = (\<lambda>(logical_command_id, state).
     \<lparr>pld_logical_command_id = Some (LogicalCommandId_to_proto logical_command_id),
      pld_cached_result = fst (outcome_to_proto (dd_cached_outcome state)),
      pld_cached_rejection = snd (outcome_to_proto (dd_cached_outcome state))\<rparr>)"

definition horizon_to_proto :: "(u128 \<times> u64) \<times> u64 \<Rightarrow> proto_LogicalClientRetryHorizon" where
  "horizon_to_proto = (\<lambda>((client_id, session_epoch), acknowledged_through).
     \<lparr>prh_client_id = u128_to_le_bytes client_id, prh_session_epoch = session_epoch,
      prh_acknowledged_through = acknowledged_through\<rparr>)"

definition TabletStateMachineSnapshot_to_proto ::
  "TabletStateMachineSnapshot \<Rightarrow> proto_TabletStateMachineSnapshot snapshot_result" where
  "TabletStateMachineSnapshot_to_proto s =
     and_then (try_map (\<lambda>status. map_err SeInvalidTxnStatus (TxnStatusRecord_to_proto status))
       (bt_values (sn_transaction_statuses s))) (\<lambda>statuses.
       Inr \<lparr>psn_format_version = sn_format_version s, psn_tablet_id = Some (sn_tablet_id s),
            psn_tablet_epoch = sn_tablet_epoch s,
            psn_clients = map (client_to_proto (sn_raft_group_id s)) (bt_iter (sn_clients s)),
            psn_raft_group_id = Some (sn_raft_group_id s),
            psn_logical_commands = map logical_to_proto (bt_iter (sn_logical_commands s)),
            psn_logical_client_retry_horizons =
              map horizon_to_proto (bt_iter (sn_logical_client_retry_horizons s)),
            psn_transaction_statuses = statuses\<rparr>)"

definition client_from_proto ::
  "RaftGroupId \<Rightarrow> proto_ClientDeduplicationSnapshot \<Rightarrow> (u128 \<times> ClientDeduplicationSnapshot) snapshot_result" where
  "client_from_proto raft_group_id client =
     and_then (ok_or (pcd_last_request_id client) (SeMissingField ''clients.last_request_id'')) (\<lambda>p.
     and_then (map_err SeInvalidRequestId (RequestId_from_proto p)) (\<lambda>request_id.
     and_then (outcome_from_proto (pcd_cached_result client) (pcd_cached_rejection client)) (\<lambda>cached_outcome.
     and_then (ensure (rq_raft_group_id request_id = raft_group_id)
       (SeRequestGroupMismatch raft_group_id (rq_raft_group_id request_id))) (\<lambda>_.
       Inr (rq_client_id request_id,
            \<lparr>dd_last_sequence_applied = rq_sequence request_id, dd_cached_outcome = cached_outcome\<rparr>)))))"

definition logical_from_proto ::
  "proto_LogicalCommandDeduplicationSnapshot \<Rightarrow> (LogicalCommandId \<times> ClientDeduplicationSnapshot) snapshot_result" where
  "logical_from_proto logical_command =
     and_then (ok_or (pld_logical_command_id logical_command)
       (SeMissingField ''logical_commands.logical_command_id'')) (\<lambda>p.
     and_then (map_err SeInvalidLogicalCommandId (LogicalCommandId_from_proto p)) (\<lambda>logical_command_id.
     and_then (outcome_from_proto (pld_cached_result logical_command)
       (pld_cached_rejection logical_command)) (\<lambda>cached_outcome.
       Inr (logical_command_id, \<lparr>dd_last_sequence_applied = 1, dd_cached_outcome = cached_outcome\<rparr>))))"

definition horizon_from_proto :: "proto_LogicalClientRetryHorizon \<Rightarrow> ((u128 \<times> u64) \<times> u64) snapshot_result" where
  "horizon_from_proto horizon =
     and_then (ensure (length (prh_client_id horizon) = 16) SeInvalidRetryHorizonClientId) (\<lambda>_.
     let client_id = u128_from_le_bytes (prh_client_id horizon) in
     and_then (ensure (client_id \<noteq> 0) SeZeroRetryHorizonClientId) (\<lambda>_.
     and_then (ensure (prh_session_epoch horizon \<noteq> 0) SeZeroRetryHorizonSessionEpoch) (\<lambda>_.
       Inr ((client_id, prh_session_epoch horizon), prh_acknowledged_through horizon))))"

definition status_from_proto :: "proto_TxnStatusRecord \<Rightarrow> (TxnId \<times> TxnStatusRecord) snapshot_result" where
  "status_from_proto p =
     and_then (map_err SeInvalidTxnStatus (TxnStatusRecord_from_proto p)) (\<lambda>status.
       Inr (s_txn_id status, status))"

definition TabletStateMachineSnapshot_from_proto ::
  "proto_TabletStateMachineSnapshot \<Rightarrow> TabletStateMachineSnapshot snapshot_result" where
  "TabletStateMachineSnapshot_from_proto p =
     and_then (ok_or (psn_tablet_id p) (SeMissingField ''tablet_id'')) (\<lambda>tablet_id.
     and_then (ok_or (psn_raft_group_id p) (SeMissingField ''raft_group_id'')) (\<lambda>raft_group_id.
     and_then (try_fold (\<lambda>m c. and_then (client_from_proto raft_group_id c)
       (insert_unique SeDuplicateClient m)) bt_new (psn_clients p)) (\<lambda>clients.
     and_then (try_fold (\<lambda>m c. and_then (logical_from_proto c)
       (insert_unique SeDuplicateLogicalCommand m)) bt_new (psn_logical_commands p)) (\<lambda>logical_commands.
     and_then (try_fold (\<lambda>m h. and_then (horizon_from_proto h)
       (insert_unique (\<lambda>(c, s). SeDuplicateRetryHorizon c s) m)) bt_new
       (psn_logical_client_retry_horizons p)) (\<lambda>horizons.
     and_then (try_fold (\<lambda>m s. and_then (status_from_proto s)
       (insert_unique SeDuplicateTxnStatus m)) bt_new (psn_transaction_statuses p)) (\<lambda>statuses.
     let snapshot = \<lparr>sn_format_version = psn_format_version p, sn_tablet_id = tablet_id,
           sn_tablet_epoch = psn_tablet_epoch p, sn_raft_group_id = raft_group_id,
           sn_clients = clients, sn_logical_commands = logical_commands,
           sn_logical_client_retry_horizons = horizons, sn_transaction_statuses = statuses\<rparr> in
     and_then (TabletStateMachineSnapshot_validate snapshot) (\<lambda>_. Inr snapshot)))))))"

definition TabletStateMachineSnapshot_encode ::
  "(proto_TabletStateMachineSnapshot \<Rightarrow> bytes) \<Rightarrow> TabletStateMachineSnapshot \<Rightarrow> bytes snapshot_result" where
  "TabletStateMachineSnapshot_encode encode_to_vec s =
     and_then (TabletStateMachineSnapshot_validate s) (\<lambda>_.
     and_then (TabletStateMachineSnapshot_to_proto s) (\<lambda>p. Inr (encode_to_vec p)))"

definition TabletStateMachineSnapshot_decode ::
  "(bytes \<Rightarrow> proto_TabletStateMachineSnapshot option) \<Rightarrow> bytes \<Rightarrow> TabletStateMachineSnapshot snapshot_result" where
  "TabletStateMachineSnapshot_decode prost_decode bs =
     and_then (ok_or (prost_decode bs) SeDecode) (\<lambda>p. TabletStateMachineSnapshot_from_proto p)"

section \<open>Round trip\<close>

lemma outcome_roundtrip: "outcome_from_proto (fst (outcome_to_proto x)) (snd (outcome_to_proto x)) = Inr x"
proof (cases x)
  case (OcApplied r)
  then show ?thesis
    by (cases r) (simp_all add: outcome_from_proto_def CachedTabletCommandResult_from_proto_def)
next
  case (OcRejected r)
  then show ?thesis
    by (cases r; cases "rej_kind r") (simp_all add: outcome_from_proto_def)
qed

lemma client_roundtrip: "client_from_proto g (client_to_proto g (k, v)) = Inr (k, v)"
proof -
  have "RequestId_from_proto (RequestId_to_proto r) = Inr r" for r by (simp add: RequestId_wire)
  then show ?thesis
    by (cases v) (simp add: client_from_proto_def client_to_proto_def outcome_roundtrip)
qed

lemma logical_roundtrip:
  assumes "LogicalCommandId_validate k = Inr ()" and "dd_last_sequence_applied v = 1"
  shows "logical_from_proto (logical_to_proto (k, v)) = Inr (k, v)"
proof -
  have "LogicalCommandId_from_proto (LogicalCommandId_to_proto k) = Inr k"
    by (simp add: LogicalCommandId_wire assms(1))
  with assms(2) show ?thesis
    by (cases v) (simp add: logical_from_proto_def logical_to_proto_def outcome_roundtrip)
qed

lemma horizon_roundtrip:
  "c \<noteq> 0 \<Longrightarrow> s \<noteq> 0 \<Longrightarrow> horizon_from_proto (horizon_to_proto ((c, s), a)) = Inr ((c, s), a)"
  by (simp add: horizon_from_proto_def horizon_to_proto_def Let_def)

text \<open>A snapshot that holds exactly what the state machine stores.\<close>

definition snapshot_ok :: "TabletStateMachineSnapshot \<Rightarrow> bool" where
  "snapshot_ok s \<longleftrightarrow> TabletStateMachineSnapshot_validate s = Inr () \<and>
     (\<forall>c d. bt_get (sn_logical_commands s) c = Some d \<longrightarrow> dd_last_sequence_applied d = 1)"

lemma snapshot_valid_parts:
  assumes "TabletStateMachineSnapshot_validate s = Inr ()"
  shows "bt_get (sn_logical_commands s) c = Some d \<Longrightarrow> LogicalCommandId_validate c = Inr ()"
    and "bt_get (sn_logical_client_retry_horizons s) (k, e) = Some a \<Longrightarrow> k \<noteq> 0 \<and> e \<noteq> 0"
    and "bt_get (sn_transaction_statuses s) t = Some r \<Longrightarrow> TxnStatusRecord_validate r = Inr () \<and> s_txn_id r = t"
proof -
  note parts = assms [unfolded TabletStateMachineSnapshot_validate_def and_then_eq_Inr ensure_eq_Inr
      try_each_eq_Inr map_err_eq_Inr]
  show "bt_get (sn_logical_commands s) c = Some d \<Longrightarrow> LogicalCommandId_validate c = Inr ()"
    using parts by (auto simp: dom_def)
  show "bt_get (sn_logical_client_retry_horizons s) (k, e) = Some a \<Longrightarrow> k \<noteq> 0 \<and> e \<noteq> 0"
    using parts by (fastforce simp: dom_def and_then_eq_Inr ensure_eq_Inr)
  show "bt_get (sn_transaction_statuses s) t = Some r \<Longrightarrow> TxnStatusRecord_validate r = Inr () \<and> s_txn_id r = t"
    using parts by (fastforce simp: validate_snapshot_status_def and_then_eq_Inr ensure_eq_Inr
        map_err_eq_Inr simp flip: bt.iter_mem)
qed

lemma statuses_roundtrip:
  assumes "\<And>t r. bt_get m t = Some r \<Longrightarrow> TxnStatusRecord_validate r = Inr () \<and> s_txn_id r = t"
  shows "\<exists>ps. try_map (\<lambda>r. map_err SeInvalidTxnStatus (TxnStatusRecord_to_proto r)) (bt_values m) = Inr ps \<and>
    try_fold (\<lambda>m s. and_then (status_from_proto s) (insert_unique SeDuplicateTxnStatus m)) bt_new ps = Inr m"
proof -
  let ?enc = "\<lambda>r. projr (TxnStatusRecord_to_proto r)"
  have enc: "TxnStatusRecord_to_proto r = Inr (?enc r)" if "bt_get m t = Some r" for t r
    using status_codec.enc_total assms [OF that] by (metis sum.sel(2))
  have "list_all2 (\<lambda>r p. map_err SeInvalidTxnStatus (TxnStatusRecord_to_proto r) = Inr p)
      (bt_values m) (map ?enc (bt_values m))"
    by (auto simp: list_all2_conv_all_nth map_err_eq_Inr) (metis enc bt_values_mem nth_mem)
  then have "try_map (\<lambda>r. map_err SeInvalidTxnStatus (TxnStatusRecord_to_proto r)) (bt_values m) =
      Inr (map (\<lambda>kv. ?enc (snd kv)) (bt_iter m))"
    by (simp add: try_map_eq_Inr bt_values_def comp_def)
  moreover have "try_fold (\<lambda>m s. and_then (status_from_proto s) (insert_unique SeDuplicateTxnStatus m)) bt_new
      (map (\<lambda>kv. ?enc (snd kv)) (bt_iter m)) = Inr m"
  proof (rule rebuild_map)
    fix t r
    assume "bt_get m t = Some r"
    with enc assms status_codec.dec_enc [OF enc] show "status_from_proto (?enc (snd (t, r))) = Inr (t, r)"
      by (simp add: status_from_proto_def)
  qed
  ultimately show ?thesis by blast
qed

lemma snapshot_proto_roundtrip:
  assumes "snapshot_ok s"
  shows "\<exists>p. TabletStateMachineSnapshot_to_proto s = Inr p \<and> TabletStateMachineSnapshot_from_proto p = Inr s"
proof -
  have v: "TabletStateMachineSnapshot_validate s = Inr ()" using assms by (simp add: snapshot_ok_def)
  obtain ps where ps:
    "try_map (\<lambda>r. map_err SeInvalidTxnStatus (TxnStatusRecord_to_proto r))
       (bt_values (sn_transaction_statuses s)) = Inr ps"
    "try_fold (\<lambda>m s. and_then (status_from_proto s) (insert_unique SeDuplicateTxnStatus m)) bt_new ps =
       Inr (sn_transaction_statuses s)"
    using statuses_roundtrip snapshot_valid_parts(3) [OF v] by meson
  have "try_fold (\<lambda>m c. and_then (client_from_proto (sn_raft_group_id s) c) (insert_unique SeDuplicateClient m))
      bt_new (map (client_to_proto (sn_raft_group_id s)) (bt_iter (sn_clients s))) = Inr (sn_clients s)"
    by (rule rebuild_map) (rule client_roundtrip)
  moreover have "try_fold (\<lambda>m c. and_then (logical_from_proto c) (insert_unique SeDuplicateLogicalCommand m))
      bt_new (map logical_to_proto (bt_iter (sn_logical_commands s))) = Inr (sn_logical_commands s)"
    using assms snapshot_valid_parts(1) [OF v]
    by (intro rebuild_map logical_roundtrip) (auto simp: snapshot_ok_def)
  moreover have "try_fold (\<lambda>m h. and_then (horizon_from_proto h)
      (insert_unique (\<lambda>(c, s). SeDuplicateRetryHorizon c s) m)) bt_new
      (map horizon_to_proto (bt_iter (sn_logical_client_retry_horizons s))) =
        Inr (sn_logical_client_retry_horizons s)"
    using snapshot_valid_parts(2) [OF v]
    by (intro rebuild_map) (auto simp: horizon_roundtrip)
  ultimately show ?thesis
    using ps v by (cases s) (simp add: TabletStateMachineSnapshot_to_proto_def
        TabletStateMachineSnapshot_from_proto_def Let_def)
qed

end
