(* ===== verification/Tablet_Machine.thy ===== *)
theory Tablet_Machine
  imports Mvcc_Snapshot Tablet_Codec
begin

text \<open>
  The replicated tablet state machine (\<^verbatim>\<open>TabletStateMachine\<close> of
  \<^verbatim>\<open>ragnordb-tablet/src/command.rs\<close>) over the in-memory MVCC engine: proposal validation,
  request deduplication, retry horizons, transaction decisions and the dispatch of every
  command. A \<^verbatim>\<open>&mut self\<close> method returns its result and the new state. The reason texts of
  errors are left out.
\<close>

section \<open>State\<close>

record Tablet =
  t_id :: TabletId
  t_table_id :: TableId
  t_storage :: InMemoryMvcc

definition Tablet_with_storage :: "TabletId \<Rightarrow> TableId \<Rightarrow> InMemoryMvcc \<Rightarrow> Tablet result" where
  "Tablet_with_storage tablet table storage =
     and_then (ensure (tablet \<noteq> 0) InvalidArgument) (\<lambda>_.
     and_then (ensure (table \<noteq> 0) InvalidArgument) (\<lambda>_.
       Inr \<lparr>t_id = tablet, t_table_id = table, t_storage = storage\<rparr>))"

definition Tablet_new :: "TabletId \<Rightarrow> TableId \<Rightarrow> Tablet result" where
  "Tablet_new tablet table = Tablet_with_storage tablet table InMemoryMvcc_new"

text \<open>\<^verbatim>\<open>ClientDeduplicationKey\<close> orders by client, then by group.\<close>

type_synonym ClientDeduplicationKey = "u128 \<times> RaftGroupId"
type_synonym ClientDeduplicationState = ClientDeduplicationSnapshot

record TabletStateMachine =
  tm_tablet :: Tablet
  tm_epoch :: u64
  tm_raft_group_id :: RaftGroupId
  tm_client_deduplication :: "(ClientDeduplicationKey, ClientDeduplicationState) btree"
  tm_logical_command_deduplication :: "(LogicalCommandId, ClientDeduplicationState) btree"
  tm_logical_client_retry_horizons :: "(u128 \<times> u64, u64) btree"
  tm_transaction_statuses :: "(TxnId, TxnStatusRecord) btree"

datatype TabletCommandApplyResult =
    ArNoop | ArSingleShardCommit | ArPrewrite | ArCommit | ArRollback | ArResolveIntent
  | ArPublishAborted | ArHeartbeat

record TabletCommandApplyOutcome =
  ao_result :: TabletCommandApplyResult
  ao_deduplicated :: bool

datatype TabletCommandApplyError =
    AeZeroTabletEpoch
  | AeZeroRaftGroupId
  | AeRaftGroupMismatch RaftGroupId RaftGroupId
  | AeTabletIdMismatch TabletId TabletId
  | AeTabletEpochMismatch u64 u64
  | AeStaleRequestSequence u64 u64
  | AeRequestSequenceGap u64 u64 u64
  | AeRequestSequenceExhausted u128
  | AeRequestIdExpired u128 u64 u64 u64
  | AeAcknowledgementRegression u128 u64 u64 u64
  | AeInvalidCommand
  | AeWriteConflict
  | AeCorruptState
  | AeStorageFailure
  | AeUnsupportedCommand
  | AeInvalidEnvelope TabletCommandEnvelopeError

type_synonym 'a apply_result = "TabletCommandApplyError + 'a"

fun cached_result_of :: "TabletCommandApplyResult \<Rightarrow> CachedTabletCommandResult" where
  "cached_result_of ArNoop = CrNoop"
| "cached_result_of ArSingleShardCommit = CrSingleShardCommit"
| "cached_result_of ArPrewrite = CrPrewrite"
| "cached_result_of ArCommit = CrCommit"
| "cached_result_of ArRollback = CrRollback"
| "cached_result_of ArResolveIntent = CrResolveIntent"
| "cached_result_of ArPublishAborted = CrPublishAborted"
| "cached_result_of ArHeartbeat = CrHeartbeat"

fun apply_result_of :: "CachedTabletCommandResult \<Rightarrow> TabletCommandApplyResult" where
  "apply_result_of CrNoop = ArNoop"
| "apply_result_of CrSingleShardCommit = ArSingleShardCommit"
| "apply_result_of CrPrewrite = ArPrewrite"
| "apply_result_of CrCommit = ArCommit"
| "apply_result_of CrRollback = ArRollback"
| "apply_result_of CrResolveIntent = ArResolveIntent"
| "apply_result_of CrPublishAborted = ArPublishAborted"
| "apply_result_of CrHeartbeat = ArHeartbeat"

definition TabletStateMachine_new :: "Tablet \<Rightarrow> u64 \<Rightarrow> RaftGroupId \<Rightarrow> TabletStateMachine apply_result" where
  "TabletStateMachine_new tablet epoch raft_group_id =
     and_then (ensure (epoch \<noteq> 0) AeZeroTabletEpoch) (\<lambda>_.
     and_then (ensure (raft_group_id \<noteq> 0) AeZeroRaftGroupId) (\<lambda>_.
       Inr \<lparr>tm_tablet = tablet, tm_epoch = epoch, tm_raft_group_id = raft_group_id,
            tm_client_deduplication = bt_new, tm_logical_command_deduplication = bt_new,
            tm_logical_client_retry_horizons = bt_new, tm_transaction_statuses = bt_new\<rparr>))"

record TabletStateDiagnostics =
  sd_mvcc :: MvccStats
  sd_legacy_cached_outcomes :: nat
  sd_logical_cached_outcomes :: nat
  sd_retry_floor_entries :: nat
  sd_transaction_status_records :: nat

definition state_diagnostics :: "TabletStateMachine \<Rightarrow> TabletStateDiagnostics" where
  "state_diagnostics tm =
     \<lparr>sd_mvcc = mvcc_stats (t_storage (tm_tablet tm)),
      sd_legacy_cached_outcomes = bt_len (tm_client_deduplication tm),
      sd_logical_cached_outcomes = bt_len (tm_logical_command_deduplication tm),
      sd_retry_floor_entries = bt_len (tm_logical_client_retry_horizons tm),
      sd_transaction_status_records = bt_len (tm_transaction_statuses tm)\<rparr>"

section \<open>Queries\<close>

definition transaction_status :: "TabletStateMachine \<Rightarrow> TxnId \<Rightarrow> TxnStatusRecord option apply_result" where
  "transaction_status tm txn_id =
     (case bt_get (tm_transaction_statuses tm) txn_id of
        None \<Rightarrow> Inr None
      | Some status \<Rightarrow>
          and_then (map_err (\<lambda>_. AeCorruptState) (TxnStatusRecord_validate status)) (\<lambda>_.
          and_then (ensure (s_txn_id status = txn_id) AeCorruptState) (\<lambda>_.
          and_then (map_err (\<lambda>_. AeCorruptState) (primary_tablet_id status)) (\<lambda>primary.
          let primary_key_matches_table = (case decode_row_key (s_primary_key status) of
                Inl _ \<Rightarrow> False
              | Inr key \<Rightarrow> table_id key = t_table_id (tm_tablet tm)) in
          and_then (ensure (primary = t_id (tm_tablet tm) \<and> primary_key_matches_table) AeCorruptState) (\<lambda>_.
            Inr (Some status))))))"

definition next_sequence_for_client :: "TabletStateMachine \<Rightarrow> u128 \<Rightarrow> u64 apply_result" where
  "next_sequence_for_client tm client_id =
     (case bt_get (tm_client_deduplication tm) (client_id, tm_raft_group_id tm) of
        Some state \<Rightarrow> ok_or (checked_add (dd_last_sequence_applied state) 1) (AeRequestSequenceExhausted client_id)
      | None \<Rightarrow> Inr 1)"

definition logical_command_outcome ::
  "TabletStateMachine \<Rightarrow> LogicalCommandId \<Rightarrow> CachedTabletCommandOutcome option" where
  "logical_command_outcome tm c =
     map_option dd_cached_outcome (bt_get (tm_logical_command_deduplication tm) c)"

section \<open>Snapshots\<close>

definition encode_snapshot_state ::
  "(proto_TabletStateMachineSnapshot \<Rightarrow> bytes) \<Rightarrow> TabletStateMachine \<Rightarrow> bytes snapshot_result" where
  "encode_snapshot_state encode_to_vec tm =
     (let clients = bt_from_list (map (\<lambda>(key, state).
            (fst key, \<lparr>dd_last_sequence_applied = dd_last_sequence_applied state,
                       dd_cached_outcome = dd_cached_outcome state\<rparr>))
            (bt_iter (tm_client_deduplication tm)));
          logical_commands = bt_from_list (map (\<lambda>(logical_command_id, state).
            (logical_command_id, \<lparr>dd_last_sequence_applied = dd_last_sequence_applied state,
                       dd_cached_outcome = dd_cached_outcome state\<rparr>))
            (bt_iter (tm_logical_command_deduplication tm))) in
      and_then (new_with_transaction_statuses (t_id (tm_tablet tm)) (tm_epoch tm) (tm_raft_group_id tm)
        clients logical_commands (tm_logical_client_retry_horizons tm) (tm_transaction_statuses tm))
        (\<lambda>snapshot. TabletStateMachineSnapshot_encode encode_to_vec snapshot))"

datatype TabletStateMachineRestoreError =
    ReTabletIdMismatch TabletId TabletId
  | ReInvalidSnapshot TabletStateMachineSnapshotError

definition restore_from_snapshot ::
  "(bytes \<Rightarrow> proto_TabletStateMachineSnapshot option) \<Rightarrow> Tablet \<Rightarrow> bytes \<Rightarrow>
     TabletStateMachineRestoreError + TabletStateMachine" where
  "restore_from_snapshot prost_decode tablet bs =
     and_then (map_err ReInvalidSnapshot (TabletStateMachineSnapshot_decode prost_decode bs)) (\<lambda>snapshot.
     and_then (ensure (sn_tablet_id snapshot = t_id tablet)
       (ReTabletIdMismatch (t_id tablet) (sn_tablet_id snapshot))) (\<lambda>_.
     and_then (try_each (\<lambda>status.
         and_then (map_err (\<lambda>_. ReInvalidSnapshot (SeInvalidTxnStatus
           ''transaction primary key is not a valid encoded row key''))
           (decode_row_key (s_primary_key status))) (\<lambda>key.
         ensure (table_id key = t_table_id tablet) (ReInvalidSnapshot (SeInvalidTxnStatus
           ''transaction primary key belongs to a different table''))))
       (bt_values (sn_transaction_statuses snapshot))) (\<lambda>_.
       Inr \<lparr>tm_tablet = tablet, tm_epoch = sn_tablet_epoch snapshot,
            tm_raft_group_id = sn_raft_group_id snapshot,
            tm_client_deduplication = bt_from_list (map (\<lambda>(client_id, state).
              ((client_id, sn_raft_group_id snapshot),
               \<lparr>dd_last_sequence_applied = dd_last_sequence_applied state,
                dd_cached_outcome = dd_cached_outcome state\<rparr>)) (bt_iter (sn_clients snapshot))),
            tm_logical_command_deduplication = bt_from_list (map (\<lambda>(logical_command_id, state).
              (logical_command_id,
               \<lparr>dd_last_sequence_applied = dd_last_sequence_applied state,
                dd_cached_outcome = dd_cached_outcome state\<rparr>)) (bt_iter (sn_logical_commands snapshot))),
            tm_logical_client_retry_horizons = sn_logical_client_retry_horizons snapshot,
            tm_transaction_statuses = sn_transaction_statuses snapshot\<rparr>)))"

section \<open>Validation\<close>

definition validate_owned_key :: "TabletStateMachine \<Rightarrow> bytes \<Rightarrow> unit apply_result" where
  "validate_owned_key tm key =
     and_then (map_err (\<lambda>_. AeInvalidCommand) (decode_row_key key)) (\<lambda>row_key.
       ensure (table_id row_key = t_table_id (tm_tablet tm)) AeInvalidCommand)"

definition validate_encoded_key :: "TabletStateMachine \<Rightarrow> bytes \<Rightarrow> unit apply_result" where
  "validate_encoded_key tm key =
     and_then (map_err (\<lambda>_. AeInvalidCommand) (decode_row_key key)) (\<lambda>_. Inr ())"

definition validate_status_authority :: "TabletStateMachine \<Rightarrow> TxnStatusRecord \<Rightarrow> unit apply_result" where
  "validate_status_authority tm status =
     and_then (map_err (\<lambda>_. AeInvalidCommand) (TxnStatusRecord_validate status)) (\<lambda>_.
     and_then (map_err (\<lambda>_. AeInvalidCommand) (primary_tablet_id status)) (\<lambda>primary.
     and_then (ensure (primary = t_id (tm_tablet tm)) AeInvalidCommand) (\<lambda>_.
       validate_owned_key tm (s_primary_key status))))"

definition validate_owned_key_slice :: "TabletStateMachine \<Rightarrow> bytes list \<Rightarrow> unit apply_result" where
  "validate_owned_key_slice tm ks = try_each (validate_owned_key tm) ks"

primrec owned_keys_loop :: "TabletStateMachine \<Rightarrow> bytes list \<Rightarrow> key_set \<Rightarrow> key_set apply_result" where
  "owned_keys_loop tm [] unique = Inr unique"
| "owned_keys_loop tm (k # ks) unique =
     and_then (validate_owned_key tm k) (\<lambda>_.
     and_then (ensure (\<not> bt_contains_key unique k) AeInvalidCommand) (\<lambda>_.
       owned_keys_loop tm ks (bs_insert k unique)))"

definition validate_owned_keys :: "TabletStateMachine \<Rightarrow> bytes list \<Rightarrow> key_set apply_result" where
  "validate_owned_keys tm ks =
     and_then (ensure (ks \<noteq> []) AeInvalidCommand) (\<lambda>_. owned_keys_loop tm ks bt_new)"

definition optional_status :: "TabletStateMachine \<Rightarrow> TxnStatusRecord option \<Rightarrow> unit apply_result" where
  "optional_status tm m =
     (case m of None \<Rightarrow> Inr () | Some status \<Rightarrow> validate_status_authority tm status)"

fun validate_command_target :: "TabletStateMachine \<Rightarrow> TabletCommand \<Rightarrow> unit apply_result" where
  "validate_command_target tm (TcPrewrite c) =
     and_then (validate_encoded_key tm (pre_primary_key c)) (\<lambda>_.
     and_then (try_each (\<lambda>w. validate_owned_key tm (ce_key w)) (pre_writes c)) (\<lambda>_.
       optional_status tm (pre_pending_status c)))"
| "validate_command_target tm (TcSingleShardCommit c) =
     try_each (\<lambda>w. validate_owned_key tm (ce_key w)) (ss_writes c)"
| "validate_command_target tm (TcCommit c) =
     and_then (validate_owned_key_slice tm (com_keys c)) (\<lambda>_. optional_status tm (com_committed_status c))"
| "validate_command_target tm (TcRollback c) = validate_owned_key_slice tm (rb_keys c)"
| "validate_command_target tm (TcResolveIntent c) = validate_owned_key_slice tm (ri_keys c)"
| "validate_command_target tm (TcPublishAborted c) = validate_status_authority tm (pa_status_record c)"
| "validate_command_target tm (TcHeartbeat c) =
     and_then (validate_status_authority tm (hb_expected_status c)) (\<lambda>_.
       validate_status_authority tm (hb_next_status c))"
| "validate_command_target tm (TcExpirePending c) = validate_status_authority tm (ex_expected_status c)"
| "validate_command_target tm (TcCatalog _) = Inr ()"
| "validate_command_target tm (TcNoop _) = Inr ()"

definition validate_proposal :: "TabletStateMachine \<Rightarrow> TabletCommandEnvelope \<Rightarrow> unit apply_result" where
  "validate_proposal tm e =
     and_then (map_err AeInvalidEnvelope (TabletCommandEnvelope_validate e)) (\<lambda>_.
     and_then (ensure (en_tablet_id e = t_id (tm_tablet tm))
       (AeTabletIdMismatch (t_id (tm_tablet tm)) (en_tablet_id e))) (\<lambda>_.
     and_then (ensure (en_expected_epoch e = tm_epoch tm)
       (AeTabletEpochMismatch (tm_epoch tm) (en_expected_epoch e))) (\<lambda>_.
     and_then (ensure (rq_raft_group_id (en_request_id e) = tm_raft_group_id tm)
       (AeRaftGroupMismatch (tm_raft_group_id tm) (rq_raft_group_id (en_request_id e)))) (\<lambda>_.
       validate_command_target tm (en_command e)))))"

definition same_status_identity :: "TxnStatusRecord \<Rightarrow> TxnStatusRecord \<Rightarrow> bool" where
  "same_status_identity existing nxt \<longleftrightarrow>
     s_txn_id existing = s_txn_id nxt \<and> s_start_timestamp existing = s_start_timestamp nxt \<and>
     s_primary_key existing = s_primary_key nxt \<and>
     s_participant_tablet_ids existing = s_participant_tablet_ids nxt"

definition validate_prewrite_status_transition ::
  "TabletStateMachine \<Rightarrow> TxnId \<Rightarrow> Timestamp \<Rightarrow> bytes \<Rightarrow> mutations \<Rightarrow> TxnStatusRecord option \<Rightarrow>
     TxnStatusRecord option apply_result" where
  "validate_prewrite_status_transition tm txn_id start_timestamp primary_key writes status =
     (let existing = bt_get (tm_transaction_statuses tm) txn_id in
      case status of
        None \<Rightarrow>
          if (case existing of
                None \<Rightarrow> False
              | Some r \<Rightarrow> s_primary_key r = primary_key \<and> bt_contains_key writes (s_primary_key r))
          then Inl AeInvalidCommand else Inr None
      | Some status \<Rightarrow>
          and_then (validate_status_authority tm status) (\<lambda>_.
          and_then (ensure (\<not> (s_txn_id status \<noteq> txn_id \<or> s_start_timestamp status \<noteq> start_timestamp))
            AeInvalidCommand) (\<lambda>_.
          and_then (ensure (\<not> (s_primary_key status \<noteq> primary_key \<or>
              \<not> bt_contains_key writes (s_primary_key status))) AeInvalidCommand) (\<lambda>_.
          case existing of
            None \<Rightarrow> Inr (Some status)
          | Some existing \<Rightarrow>
              if existing = status then Inr None
              else if \<not> same_status_identity existing status then Inl AeCorruptState
              else if s_status existing \<noteq> Pending then Inl AeInvalidCommand
              else Inl AeInvalidCommand))))"

definition validate_commit_status_transition ::
  "TabletStateMachine \<Rightarrow> TxnId \<Rightarrow> Timestamp \<Rightarrow> Timestamp \<Rightarrow> key_set \<Rightarrow> TxnStatusRecord option \<Rightarrow>
     TxnStatusRecord option apply_result" where
  "validate_commit_status_transition tm txn_id start_timestamp commit_timestamp ks status =
     (let existing = bt_get (tm_transaction_statuses tm) txn_id in
      case status of
        None \<Rightarrow>
          if (case existing of None \<Rightarrow> False | Some r \<Rightarrow> bt_contains_key ks (s_primary_key r))
          then Inl AeInvalidCommand else Inr None
      | Some status \<Rightarrow>
          and_then (validate_status_authority tm status) (\<lambda>_.
          and_then (ensure (\<not> (s_txn_id status \<noteq> txn_id \<or> s_start_timestamp status \<noteq> start_timestamp \<or>
              s_commit_timestamp status \<noteq> Some commit_timestamp)) AeInvalidCommand) (\<lambda>_.
          and_then (ensure (bt_contains_key ks (s_primary_key status)) AeInvalidCommand) (\<lambda>_.
          case existing of
            None \<Rightarrow> Inl AeInvalidCommand
          | Some existing \<Rightarrow>
              if \<not> same_status_identity existing status then Inl AeCorruptState
              else if s_status existing = Pending then Inr (Some status)
              else if existing = status then Inr None
              else if s_status existing = Aborted then Inl AeInvalidCommand
              else Inl AeInvalidCommand))))"

definition validate_abort_status_transition :: "TabletStateMachine \<Rightarrow> TxnStatusRecord \<Rightarrow> bool apply_result" where
  "validate_abort_status_transition tm status =
     (case bt_get (tm_transaction_statuses tm) (s_txn_id status) of
        None \<Rightarrow> Inl AeInvalidCommand
      | Some existing \<Rightarrow>
          if \<not> same_status_identity existing status then Inl AeCorruptState
          else case s_status existing of
              Pending \<Rightarrow> Inr True
            | Aborted \<Rightarrow> if existing = status then Inr False else Inl AeInvalidCommand
            | Committed \<Rightarrow> Inl AeInvalidCommand)"

section \<open>Errors\<close>

fun map_database_error :: "Error \<Rightarrow> TabletCommandApplyError" where
  "map_database_error InvalidArgument = AeInvalidCommand"
| "map_database_error WriteConflict = AeWriteConflict"
| "map_database_error CorruptData = AeCorruptState"
| "map_database_error _ = AeStorageFailure"

fun cached_rejection_from_error :: "TabletCommandApplyError \<Rightarrow> CachedTabletCommandRejection option" where
  "cached_rejection_from_error AeInvalidCommand = Some \<lparr>rej_kind = RkInvalidCommand\<rparr>"
| "cached_rejection_from_error AeWriteConflict = Some \<lparr>rej_kind = RkWriteConflict\<rparr>"
| "cached_rejection_from_error AeUnsupportedCommand = Some \<lparr>rej_kind = RkUnsupportedCommand\<rparr>"
| "cached_rejection_from_error _ = None"

definition error_from_cached_rejection :: "CachedTabletCommandRejection \<Rightarrow> TabletCommandApplyError" where
  "error_from_cached_rejection rejection =
     (case rej_kind rejection of
        RkInvalidCommand \<Rightarrow> AeInvalidCommand
      | RkWriteConflict \<Rightarrow> AeWriteConflict
      | RkUnsupportedCommand \<Rightarrow> AeUnsupportedCommand)"

fun mutation_from_command :: "WriteKind \<Rightarrow> Row option \<Rightarrow> Mutation apply_result" where
  "mutation_from_command Put (Some row) =
     map_err map_database_error (and_then (encode_row row) (\<lambda>bs. Inr (PutMutation bs)))"
| "mutation_from_command Delete None = Inr DeleteMutation"
| "mutation_from_command Put None = Inl AeInvalidCommand"
| "mutation_from_command Delete (Some _) = Inl AeInvalidCommand"
| "mutation_from_command Rollback _ = Inl AeInvalidCommand"

section \<open>Applying commands\<close>

definition with_storage :: "TabletStateMachine \<Rightarrow> InMemoryMvcc \<Rightarrow> TabletStateMachine" where
  "with_storage tm m = tm\<lparr>tm_tablet := (tm_tablet tm)\<lparr>t_storage := m\<rparr>\<rparr>"

primrec mutations_loop ::
  "TabletStateMachine \<Rightarrow> CommandWriteEntry list \<Rightarrow> mutations \<Rightarrow> mutations apply_result" where
  "mutations_loop tm [] mutations = Inr mutations"
| "mutations_loop tm (w # ws) mutations =
     and_then (validate_owned_key tm (ce_key w)) (\<lambda>_.
     and_then (mutation_from_command (ce_op w) (ce_row w)) (\<lambda>mutation.
     and_then (ensure (\<not> bt_contains_key mutations (ce_key w)) AeInvalidCommand) (\<lambda>_.
       mutations_loop tm ws (bt_insert (ce_key w) mutation mutations))))"

definition apply_single_shard_commit ::
  "TabletStateMachine \<Rightarrow> SingleShardCommitCommand \<Rightarrow> TabletCommandApplyResult apply_result \<times> TabletStateMachine" where
  "apply_single_shard_commit tm c =
     (case and_then (ensure (ss_writes c \<noteq> []) AeInvalidCommand) (\<lambda>_.
             mutations_loop tm (ss_writes c) bt_new) of
        Inl e \<Rightarrow> (Inl e, tm)
      | Inr mutations \<Rightarrow>
          (case commit_batch (t_storage (tm_tablet tm)) (ss_txn_id c) (ss_start_timestamp c)
                  (ss_commit_timestamp c) mutations of
             (Inl e, m) \<Rightarrow> (Inl (map_database_error e), with_storage tm m)
           | (Inr _, m) \<Rightarrow> (Inr ArSingleShardCommit, with_storage tm m)))"

definition record_status :: "TxnId \<Rightarrow> TxnStatusRecord option \<Rightarrow> TabletStateMachine \<Rightarrow> TabletStateMachine" where
  "record_status txn_id transition tm =
     (case transition of
        None \<Rightarrow> tm
      | Some status \<Rightarrow>
          tm\<lparr>tm_transaction_statuses := bt_insert txn_id status (tm_transaction_statuses tm)\<rparr>)"

definition tablet_apply_prewrite ::
  "TabletStateMachine \<Rightarrow> PrewriteCommand \<Rightarrow> TabletCommandApplyResult apply_result \<times> TabletStateMachine" where
  "tablet_apply_prewrite tm c =
     (case and_then (mutations_loop tm (pre_writes c) bt_new) (\<lambda>mutations.
           and_then (validate_prewrite_status_transition tm (pre_txn_id c) (pre_start_timestamp c)
             (pre_primary_key c) mutations (pre_pending_status c)) (\<lambda>transition.
             Inr (mutations, transition))) of
        Inl e \<Rightarrow> (Inl e, tm)
      | Inr (mutations, transition) \<Rightarrow>
          (case prewrite_batch (t_storage (tm_tablet tm)) (pre_txn_id c) (pre_start_timestamp c)
                  mutations (pre_primary_key c) (pre_ttl_ms c) of
             (Inl e, m) \<Rightarrow> (Inl (map_database_error e), with_storage tm m)
           | (Inr _, m) \<Rightarrow> (Inr ArPrewrite, record_status (pre_txn_id c) transition (with_storage tm m))))"

definition apply_commit ::
  "TabletStateMachine \<Rightarrow> CommitCommand \<Rightarrow> TabletCommandApplyResult apply_result \<times> TabletStateMachine" where
  "apply_commit tm c =
     (case and_then (validate_owned_keys tm (com_keys c)) (\<lambda>ks.
           and_then (validate_commit_status_transition tm (com_txn_id c) (com_start_timestamp c)
             (com_commit_timestamp c) ks (com_committed_status c)) (\<lambda>transition.
             Inr (ks, transition))) of
        Inl e \<Rightarrow> (Inl e, tm)
      | Inr (ks, transition) \<Rightarrow>
          (case commit_intents_batch (t_storage (tm_tablet tm)) (com_txn_id c) (com_start_timestamp c)
                  (com_commit_timestamp c) ks of
             (Inl e, m) \<Rightarrow> (Inl (map_database_error e), with_storage tm m)
           | (Inr _, m) \<Rightarrow> (Inr ArCommit, record_status (com_txn_id c) transition (with_storage tm m))))"

definition apply_publish_aborted_transaction_status ::
  "TabletStateMachine \<Rightarrow> PublishAbortedTransactionStatus \<Rightarrow>
     TabletCommandApplyResult apply_result \<times> TabletStateMachine" where
  "apply_publish_aborted_transaction_status tm c =
     (let status = pa_status_record c in
      case and_then (validate_status_authority tm status) (\<lambda>_.
             validate_abort_status_transition tm status) of
        Inl e \<Rightarrow> (Inl e, tm)
      | Inr should_replace \<Rightarrow>
          (Inr ArPublishAborted,
           if should_replace then record_status (s_txn_id status) (Some status) tm else tm))"

definition apply_heartbeat_transaction_status ::
  "TabletStateMachine \<Rightarrow> HeartbeatTransactionStatus \<Rightarrow>
     TabletCommandApplyResult apply_result \<times> TabletStateMachine" where
  "apply_heartbeat_transaction_status tm c =
     (case Heartbeat_validate c of
        Inl _ \<Rightarrow> (Inl AeInvalidCommand, tm)
      | Inr _ \<Rightarrow>
          let expected = hb_expected_status c in
          (case bt_get (tm_transaction_statuses tm) (s_txn_id expected) of
             None \<Rightarrow> (Inl AeWriteConflict, tm)
           | Some current \<Rightarrow>
               if current \<noteq> expected then (Inl AeWriteConflict, tm)
               else (Inr ArHeartbeat, record_status (s_txn_id expected) (Some (hb_next_status c)) tm)))"

definition apply_expire_pending_transaction_status ::
  "TabletStateMachine \<Rightarrow> ExpirePendingTransactionStatus \<Rightarrow>
     TabletCommandApplyResult apply_result \<times> TabletStateMachine" where
  "apply_expire_pending_transaction_status tm c =
     (case ExpirePending_validate c of
        Inl _ \<Rightarrow> (Inl AeInvalidCommand, tm)
      | Inr _ \<Rightarrow>
          let expected = ex_expected_status c;
              aborted = expected\<lparr>s_status := Aborted, s_commit_timestamp := None\<rparr> in
          (case bt_get (tm_transaction_statuses tm) (s_txn_id expected) of
             None \<Rightarrow> (Inl AeWriteConflict, tm)
           | Some current \<Rightarrow>
               if current = aborted then (Inr ArPublishAborted, tm)
               else if current \<noteq> expected then (Inl AeWriteConflict, tm)
               else (Inr ArPublishAborted, record_status (s_txn_id expected) (Some aborted) tm)))"

definition apply_rollback ::
  "TabletStateMachine \<Rightarrow> RollbackCommand \<Rightarrow> TabletCommandApplyResult apply_result \<times> TabletStateMachine" where
  "apply_rollback tm c =
     (case validate_owned_keys tm (rb_keys c) of
        Inl e \<Rightarrow> (Inl e, tm)
      | Inr ks \<Rightarrow>
          (case rollback_intents_batch (t_storage (tm_tablet tm)) (rb_txn_id c) (rb_start_timestamp c) ks of
             (Inl e, m) \<Rightarrow> (Inl (map_database_error e), with_storage tm m)
           | (Inr _, m) \<Rightarrow> (Inr ArRollback, with_storage tm m)))"

definition apply_resolve_intent ::
  "TabletStateMachine \<Rightarrow> ResolveIntentCommand \<Rightarrow> TabletCommandApplyResult apply_result \<times> TabletStateMachine" where
  "apply_resolve_intent tm c =
     (case validate_owned_keys tm (ri_keys c) of
        Inl e \<Rightarrow> (Inl e, tm)
      | Inr ks \<Rightarrow>
          (case (ri_resolved_status c, ri_commit_timestamp c) of
             (Committed, Some commit_timestamp) \<Rightarrow>
               (case commit_intents_batch (t_storage (tm_tablet tm)) (ri_txn_id c) (ri_start_timestamp c)
                       commit_timestamp ks of
                  (Inl e, m) \<Rightarrow> (Inl (map_database_error e), with_storage tm m)
                | (Inr _, m) \<Rightarrow> (Inr ArResolveIntent, with_storage tm m))
           | (Aborted, None) \<Rightarrow>
               (case rollback_intents_batch (t_storage (tm_tablet tm)) (ri_txn_id c)
                       (ri_start_timestamp c) ks of
                  (Inl e, m) \<Rightarrow> (Inl (map_database_error e), with_storage tm m)
                | (Inr _, m) \<Rightarrow> (Inr ArResolveIntent, with_storage tm m))
           | (Pending, _) \<Rightarrow> (Inl AeInvalidCommand, tm)
           | (Committed, None) \<Rightarrow> (Inl AeInvalidCommand, tm)
           | (Aborted, Some _) \<Rightarrow> (Inl AeInvalidCommand, tm)))"

fun dispatch_command ::
  "TabletStateMachine \<Rightarrow> TabletCommand \<Rightarrow> TabletCommandApplyResult apply_result \<times> TabletStateMachine" where
  "dispatch_command tm (TcNoop _) = (Inr ArNoop, tm)"
| "dispatch_command tm (TcSingleShardCommit c) = apply_single_shard_commit tm c"
| "dispatch_command tm (TcPrewrite c) = tablet_apply_prewrite tm c"
| "dispatch_command tm (TcCommit c) = apply_commit tm c"
| "dispatch_command tm (TcPublishAborted c) = apply_publish_aborted_transaction_status tm c"
| "dispatch_command tm (TcHeartbeat c) = apply_heartbeat_transaction_status tm c"
| "dispatch_command tm (TcExpirePending c) = apply_expire_pending_transaction_status tm c"
| "dispatch_command tm (TcRollback c) = apply_rollback tm c"
| "dispatch_command tm (TcResolveIntent c) = apply_resolve_intent tm c"
| "dispatch_command tm (TcCatalog _) = (Inr ArNoop, tm)"

section \<open>Deduplication\<close>

definition session_of :: "LogicalCommandId \<Rightarrow> u128 \<times> u64" where
  "session_of c = (cr_client_id (lc_client_request_id c), cr_session_epoch (lc_client_request_id c))"

definition apply_retry_horizon ::
  "TabletStateMachine \<Rightarrow> LogicalCommandId \<Rightarrow> u64 option \<Rightarrow> unit apply_result \<times> TabletStateMachine" where
  "apply_retry_horizon tm c acknowledged =
     (case acknowledged of
        None \<Rightarrow> (Inr (), tm)
      | Some acknowledged_through \<Rightarrow>
          let session_key = session_of c;
              previous = bt_get (tm_logical_client_retry_horizons tm) session_key in
          if (case previous of None \<Rightarrow> False | Some p \<Rightarrow> acknowledged_through < p)
          then (Inl (AeAcknowledgementRegression (fst session_key) (snd session_key)
                  (the previous) acknowledged_through), tm)
          else if previous = Some acknowledged_through then (Inr (), tm)
          else (Inr (), tm\<lparr>
            tm_logical_client_retry_horizons :=
              bt_insert session_key acknowledged_through (tm_logical_client_retry_horizons tm),
            tm_logical_command_deduplication :=
              bt_retain (\<lambda>logical_id _. session_of logical_id \<noteq> session_key \<or>
                  cr_request_sequence (lc_client_request_id logical_id) > acknowledged_through)
                (tm_logical_command_deduplication tm)\<rparr>))"

fun cached_reply :: "CachedTabletCommandOutcome \<Rightarrow> TabletCommandApplyOutcome apply_result" where
  "cached_reply (OcApplied result) = Inr \<lparr>ao_result = apply_result_of result, ao_deduplicated = True\<rparr>"
| "cached_reply (OcRejected rejection) = Inl (error_from_cached_rejection rejection)"

text \<open>The logical path of \<^verbatim>\<open>apply\<close>.\<close>

definition apply_logical ::
  "TabletStateMachine \<Rightarrow> LogicalCommandId \<Rightarrow> TabletCommandEnvelope \<Rightarrow>
     TabletCommandApplyOutcome apply_result \<times> TabletStateMachine" where
  "apply_logical tm c e =
     (case apply_retry_horizon tm c (en_acknowledged_through e) of
        (Inl err, tm1) \<Rightarrow> (Inl err, tm1)
      | (Inr _, tm1) \<Rightarrow>
          let r = lc_client_request_id c;
              horizon = bt_get (tm_logical_client_retry_horizons tm1) (session_of c);
              cache = (\<lambda>outcome tm. tm\<lparr>tm_logical_command_deduplication :=
                bt_insert c \<lparr>dd_last_sequence_applied = 1, dd_cached_outcome = outcome\<rparr>
                  (tm_logical_command_deduplication tm)\<rparr>) in
          if (case horizon of None \<Rightarrow> False | Some a \<Rightarrow> cr_request_sequence r \<le> a)
          then (Inl (AeRequestIdExpired (cr_client_id r) (cr_session_epoch r) (cr_request_sequence r)
                  (the horizon)), tm1)
          else case bt_get (tm_logical_command_deduplication tm1) c of
              Some deduplication \<Rightarrow> (cached_reply (dd_cached_outcome deduplication), tm1)
            | None \<Rightarrow>
                (case dispatch_command tm1 (en_command e) of
                   (Inr result, tm2) \<Rightarrow>
                     (Inr \<lparr>ao_result = result, ao_deduplicated = False\<rparr>,
                      cache (OcApplied (cached_result_of result)) tm2)
                 | (Inl error, tm2) \<Rightarrow>
                     (Inl error,
                      case cached_rejection_from_error error of
                        None \<Rightarrow> tm2
                      | Some rejection \<Rightarrow> cache (OcRejected rejection) tm2)))"

text \<open>The sequence check of the legacy path of \<^verbatim>\<open>apply\<close>: a cached reply, or leave to dispatch.\<close>

definition legacy_sequence ::
  "TabletStateMachine \<Rightarrow> RequestId \<Rightarrow> TabletCommandApplyOutcome apply_result option" where
  "legacy_sequence tm r =
     (let sequence = rq_sequence r in
      case bt_get (tm_client_deduplication tm) (rq_client_id r, rq_raft_group_id r) of
        Some deduplication \<Rightarrow>
          let lastseq = dd_last_sequence_applied deduplication in
          if sequence = lastseq then Some (cached_reply (dd_cached_outcome deduplication))
          else if sequence < lastseq then Some (Inl (AeStaleRequestSequence lastseq sequence))
          else (case checked_add lastseq 1 of
                  None \<Rightarrow> Some (Inl (AeRequestSequenceExhausted (rq_client_id r)))
                | Some expected_sequence \<Rightarrow>
                    if sequence \<noteq> expected_sequence
                    then Some (Inl (AeRequestSequenceGap lastseq expected_sequence sequence))
                    else None)
      | None \<Rightarrow> if sequence \<noteq> 1 then Some (Inl (AeRequestSequenceGap 0 1 sequence)) else None)"

definition apply_legacy ::
  "TabletStateMachine \<Rightarrow> TabletCommandEnvelope \<Rightarrow>
     TabletCommandApplyOutcome apply_result \<times> TabletStateMachine" where
  "apply_legacy tm e =
     (let r = en_request_id e;
          cache = (\<lambda>outcome tm. tm\<lparr>tm_client_deduplication :=
            bt_insert (rq_client_id r, rq_raft_group_id r)
              \<lparr>dd_last_sequence_applied = rq_sequence r, dd_cached_outcome = outcome\<rparr>
              (tm_client_deduplication tm)\<rparr>) in
      case legacy_sequence tm r of
        Some reply \<Rightarrow> (reply, tm)
      | None \<Rightarrow>
          (case dispatch_command tm (en_command e) of
             (Inr result, tm2) \<Rightarrow>
               (Inr \<lparr>ao_result = result, ao_deduplicated = False\<rparr>,
                cache (OcApplied (cached_result_of result)) tm2)
           | (Inl error, tm2) \<Rightarrow>
               (Inl error,
                case cached_rejection_from_error error of
                  None \<Rightarrow> tm2
                | Some rejection \<Rightarrow> cache (OcRejected rejection) tm2)))"

definition tablet_apply ::
  "TabletStateMachine \<Rightarrow> TabletCommandEnvelope \<Rightarrow>
     TabletCommandApplyOutcome apply_result \<times> TabletStateMachine" where
  "tablet_apply tm e =
     (case validate_proposal tm e of
        Inl err \<Rightarrow> (Inl err, tm)
      | Inr _ \<Rightarrow>
          (case en_logical_command_id e of
             Some c \<Rightarrow> apply_logical tm c e
           | None \<Rightarrow> apply_legacy tm e))"

end
