(* ===== verification/Tablet_Inv.thy ===== *)
theory Tablet_Inv
  imports Tablet_Machine
begin

text \<open>
  The invariant of the tablet state machine and the effect of a dispatched command: it either
  changes nothing and fails, or runs one MVCC operation and records at most one transaction
  decision, which extends the decision stored before.
\<close>

section \<open>Validation as predicates\<close>

definition status_owned :: "Tablet \<Rightarrow> TxnStatusRecord \<Rightarrow> bool" where
  "status_owned tablet r \<longleftrightarrow> TxnStatusRecord_validate r = Inr () \<and>
     hd (s_participant_tablet_ids r) = t_id tablet \<and> table_key (t_table_id tablet) (s_primary_key r)"

lemma validate_owned_key_Inr [result_simps]:
  "validate_owned_key tm k = Inr u \<longleftrightarrow> table_key (t_table_id (tm_tablet tm)) k"
  by (auto simp: validate_owned_key_def table_key_def result_simps)

lemma primary_tablet_id_Inr:
  "primary_tablet_id r = Inr p \<longleftrightarrow> TxnStatusRecord_validate r = Inr () \<and> p = hd (s_participant_tablet_ids r)"
  by (auto simp: primary_tablet_id_def and_then_eq_Inr)

lemma validate_status_authority_Inr [result_simps]:
  "validate_status_authority tm r = Inr u \<longleftrightarrow> status_owned (tm_tablet tm) r"
  by (auto simp: validate_status_authority_def status_owned_def and_then_eq_Inr map_err_eq_Inr
      ensure_eq_Inr primary_tablet_id_Inr validate_owned_key_Inr)

lemma TxnStatusRecord_validate_committed:
  "TxnStatusRecord_validate r = Inr () \<Longrightarrow> s_commit_timestamp r = Some c \<Longrightarrow> s_status r = Committed"
  by (drule TxnStatusRecord_validate_outcome) (auto split: if_splits)

lemma TxnStatusRecord_validate_cong:
  assumes "TxnStatusRecord_validate r = Inr ()" and "s_status r = Pending"
  shows "TxnStatusRecord_validate (r\<lparr>s_status := Aborted, s_commit_timestamp := None\<rparr>) = Inr ()"
  using assms by (auto simp: TxnStatusRecord_validate_def Let_def split: if_splits option.splits)

lemma same_status_identity_alt: "same_status_identity = same_transaction_status_identity"
  by (intro ext) (simp add: same_status_identity_def same_transaction_status_identity_def)

section \<open>Effect of a command\<close>

definition committed_write :: "InMemoryMvcc \<Rightarrow> TxnStatusRecord \<Rightarrow> bool" where
  "committed_write m r \<longleftrightarrow> s_status r \<noteq> Committed \<or>
     (\<exists>c w. s_commit_timestamp r = Some c \<and> wr m (s_primary_key r) c = Some w \<and>
        w_start_timestamp w = s_start_timestamp r \<and> w_op w \<noteq> Rollback)"

definition decision :: "TabletStateMachine \<Rightarrow> InMemoryMvcc \<Rightarrow> TxnId \<Rightarrow> TxnStatusRecord \<Rightarrow> bool" where
  "decision tm m t r \<longleftrightarrow> status_owned (tm_tablet tm) r \<and> s_txn_id r = t \<and> committed_write m r \<and>
     (case bt_get (tm_transaction_statuses tm) t of
        None \<Rightarrow> s_status r = Pending
      | Some old \<Rightarrow> s_status old = Pending \<and> same_status_identity old r)"

definition publish :: "(TxnId \<times> TxnStatusRecord) option \<Rightarrow> TabletStateMachine \<Rightarrow> TabletStateMachine" where
  "publish transition tm =
     (case transition of None \<Rightarrow> tm | Some (t, r) \<Rightarrow> record_status t (Some r) tm)"

definition effect ::
  "TabletStateMachine \<Rightarrow> TabletCommandApplyResult apply_result \<times> TabletStateMachine \<Rightarrow> bool" where
  "effect tm out \<longleftrightarrow> (\<exists>e. out = (Inl e, tm)) \<or>
     (\<exists>res m transition. out = (Inr res, publish transition (with_storage tm m)) \<and>
        (m = t_storage (tm_tablet tm) \<or> mvcc_step (t_storage (tm_tablet tm)) m) \<and>
        (\<forall>t r. transition = Some (t, r) \<longrightarrow> decision tm m t r))"

lemma effect_error [intro]: "effect tm (Inl e, tm)"
  by (simp add: effect_def)

lemma with_storage_same [simp]: "with_storage tm (t_storage (tm_tablet tm)) = tm"
  by (simp add: with_storage_def)

lemma effect_ok:
  assumes "m = t_storage (tm_tablet tm) \<or> mvcc_step (t_storage (tm_tablet tm)) m"
    and "\<And>t r. transition = Some (t, r) \<Longrightarrow> decision tm m t r"
  shows "effect tm (Inr res, publish transition (with_storage tm m))"
  using assms unfolding effect_def by blast

lemma effect_storage:
  assumes "mvcc_step (t_storage (tm_tablet tm)) m"
  shows "effect tm (Inr res, with_storage tm m)"
  using effect_ok [of m tm None] assms by (simp add: publish_def)

lemma effect_status:
  assumes "decision tm (t_storage (tm_tablet tm)) t r"
  shows "effect tm (Inr res, record_status t (Some r) tm)"
  using effect_ok [of "t_storage (tm_tablet tm)" tm "Some (t, r)" res] assms by (simp add: publish_def)

lemma effect_none: "effect tm (Inr res, tm)"
  using effect_ok [of "t_storage (tm_tablet tm)" tm None res] by (simp add: publish_def)

lemma mvcc_failed:
  "prewrite_batch m txn s mus pk ttl = (Inl e, m') \<Longrightarrow> m' = m"
  "commit_intents_batch m txn s c ks = (Inl e, m') \<Longrightarrow> m' = m"
  "rollback_intents_batch m txn s ks = (Inl e, m') \<Longrightarrow> m' = m"
  "commit_batch m txn s c mus = (Inl e, m') \<Longrightarrow> m' = m"
  by (erule prewrite_batch_cases commit_intents_batch_cases rollback_intents_batch_cases
      commit_batch_cases; simp)+

lemma effect_failed: "m = t_storage (tm_tablet tm) \<Longrightarrow> effect tm (Inl e, with_storage tm m)"
  by auto

lemma effect_single_shard: "effect tm (apply_single_shard_commit tm c)"
  by (auto simp: apply_single_shard_commit_def split: sum.splits prod.splits
      intro: effect_failed mvcc_failed(4) effect_storage step_commit_batch)

lemma effect_rollback: "effect tm (apply_rollback tm c)"
  by (auto simp: apply_rollback_def split: sum.splits prod.splits
      intro: effect_failed mvcc_failed(3) effect_storage step_rollback_intents_batch)

lemma effect_resolve: "effect tm (apply_resolve_intent tm c)"
  by (auto simp: apply_resolve_intent_def split: sum.splits prod.splits TxnStatus.splits option.splits
      intro: effect_failed mvcc_failed(2,3) effect_storage step_rollback_intents_batch step_commit_intents_batch)

lemma prewrite_transition:
  assumes "validate_prewrite_status_transition tm t s pk mus st = Inr (Some r)"
    and "\<And>r. st = Some r \<Longrightarrow> s_status r = Pending"
  shows "decision tm m t r"
  using assms
  by (auto simp: validate_prewrite_status_transition_def decision_def committed_write_def Let_def
      and_then_eq_Inr ensure_eq_Inr validate_status_authority_Inr split: option.splits if_splits)

lemma effect_prewrite:
  assumes "PrewriteCommand_validate c = Inr ()"
  shows "effect tm (tablet_apply_prewrite tm c)"
proof -
  have pending: "s_status r = Pending" if "pre_pending_status c = Some r" for r
    using assms that by (auto simp: PrewriteCommand_validate_def and_then_eq_Inr ensure_eq_Inr)
  show ?thesis
  proof (cases "and_then (mutations_loop tm (pre_writes c) bt_new) (\<lambda>mutations.
           and_then (validate_prewrite_status_transition tm (pre_txn_id c) (pre_start_timestamp c)
             (pre_primary_key c) mutations (pre_pending_status c)) (\<lambda>transition.
             Inr (mutations, transition)))")
    case (Inr p)
    then obtain mus tr where p: "p = (mus, tr)"
      and tr: "validate_prewrite_status_transition tm (pre_txn_id c) (pre_start_timestamp c)
        (pre_primary_key c) mus (pre_pending_status c) = Inr tr"
      by (auto simp: and_then_eq_Inr)
    obtain r m where b: "prewrite_batch (t_storage (tm_tablet tm)) (pre_txn_id c) (pre_start_timestamp c)
        mus (pre_primary_key c) (pre_ttl_ms c) = (r, m)" by fastforce
    show ?thesis
    proof (cases r)
      case (Inr u)
      have "effect tm (Inr ArPrewrite, publish (map_option (Pair (pre_txn_id c)) tr) (with_storage tm m))"
        using b tr pending by (intro effect_ok) (auto intro: step_prewrite_batch prewrite_transition)
      with Inr \<open>_ = Inr p\<close> p b show ?thesis
        by (cases tr) (simp_all add: tablet_apply_prewrite_def publish_def record_status_def)
    qed (use \<open>_ = Inr p\<close> p b in \<open>auto simp: tablet_apply_prewrite_def intro: effect_failed mvcc_failed(1)\<close>)
  qed (auto simp: tablet_apply_prewrite_def)
qed

lemma payload_ok_not_Rollback: "payload_ok m k s op \<Longrightarrow> op \<noteq> Rollback"
  by (auto simp: payload_ok_def)

lemma commit_transition:
  assumes "validate_commit_status_transition tm t s c ks st = Inr (Some r)"
    and "commit_intents_batch m0 t s c ks = (Inr (), m)"
  shows "decision tm m t r"
proof -
  from assms(1) have r: "status_owned (tm_tablet tm) r" "s_txn_id r = t" "s_start_timestamp r = s"
    "s_commit_timestamp r = Some c" "bt_contains_key ks (s_primary_key r)"
    and old: "case bt_get (tm_transaction_statuses tm) t of
        None \<Rightarrow> s_status r = Pending | Some old \<Rightarrow> s_status old = Pending \<and> same_status_identity old r"
    by (auto simp: validate_commit_status_transition_def Let_def and_then_eq_Inr ensure_eq_Inr
        validate_status_authority_Inr split: option.splits if_splits)
  from assms(2) r(5) have "\<exists>w. wr m (s_primary_key r) c = Some w \<and> w_start_timestamp w = s \<and> w_op w \<noteq> Rollback"
  proof (cases rule: commit_intents_batch_at)
    case (fresh p)
    from fresh(1) obtain l :: LockRecord where "payload_ok m0 (s_primary_key r) s (l_op l)"
      "p = \<lparr>pc_key = s_primary_key r, pc_write = commit_write s c (l_op l)\<rparr>"
      by (rule prepare_intent_commit_Some) blast
    moreover from this(1) have "l_op l \<noteq> Rollback" by (rule payload_ok_not_Rollback)
    moreover have "wr m (s_primary_key r) = wr (apply_intent_commit p m0) (s_primary_key r)"
      using fresh(2) by (simp add: same_at_def)
    ultimately show ?thesis by (simp add: apply_intent_commit_view commit_write_def)
  next
    case replay
    from replay(1) obtain w where "wr m0 (s_primary_key r) c = Some w" "w_start_timestamp w = s"
      "w_op w \<noteq> Rollback"
      unfolding prepare_intent_commit_None using payload_ok_not_Rollback by blast
    with replay(2) show ?thesis by (simp add: same_at_def)
  qed
  then have "committed_write m r" using r(3,4) by (auto simp: committed_write_def)
  with r(1,2) old show ?thesis by (simp add: decision_def)
qed

lemma effect_commit: "effect tm (apply_commit tm c)"
proof (cases "and_then (validate_owned_keys tm (com_keys c)) (\<lambda>ks.
           and_then (validate_commit_status_transition tm (com_txn_id c) (com_start_timestamp c)
             (com_commit_timestamp c) ks (com_committed_status c)) (\<lambda>transition.
             Inr (ks, transition)))")
  case (Inr p)
  then obtain ks tr where p: "p = (ks, tr)"
    and tr: "validate_commit_status_transition tm (com_txn_id c) (com_start_timestamp c)
      (com_commit_timestamp c) ks (com_committed_status c) = Inr tr"
    by (auto simp: and_then_eq_Inr)
  obtain r m where b: "commit_intents_batch (t_storage (tm_tablet tm)) (com_txn_id c) (com_start_timestamp c)
      (com_commit_timestamp c) ks = (r, m)" by fastforce
  show ?thesis
  proof (cases r)
    case (Inr u)
    have "effect tm (Inr ArCommit, publish (map_option (Pair (com_txn_id c)) tr) (with_storage tm m))"
      using b tr Inr by (intro effect_ok) (auto intro: step_commit_intents_batch commit_transition)
    with Inr \<open>_ = Inr p\<close> p b show ?thesis
      by (cases tr) (simp_all add: apply_commit_def publish_def record_status_def)
  qed (use \<open>_ = Inr p\<close> p b in \<open>auto simp: apply_commit_def intro: effect_failed mvcc_failed(2)\<close>)
qed (auto simp: apply_commit_def)

lemma effect_publish_aborted:
  assumes "PublishAborted_validate c = Inr ()"
  shows "effect tm (apply_publish_aborted_transaction_status tm c)"
proof -
  have "s_status (pa_status_record c) = Aborted"
    using assms by (auto simp: PublishAborted_validate_def and_then_eq_Inr ensure_eq_Inr)
  then have "decision tm m (s_txn_id (pa_status_record c)) (pa_status_record c)"
    if "status_owned (tm_tablet tm) (pa_status_record c)"
      "validate_abort_status_transition tm (pa_status_record c) = Inr True" for m
    using that
    by (auto simp: decision_def committed_write_def validate_abort_status_transition_def
        split: option.splits if_splits TxnStatus.splits)
  then show ?thesis
    by (auto simp: apply_publish_aborted_transaction_status_def Let_def and_then_eq_Inr
        validate_status_authority_Inr split: sum.splits intro: effect_status effect_none)
qed

lemma effect_heartbeat:
  assumes "status_owned (tm_tablet tm) (hb_next_status c)"
  shows "effect tm (apply_heartbeat_transaction_status tm c)"
proof -
  have "decision tm m (s_txn_id (hb_expected_status c)) (hb_next_status c)"
    if "Heartbeat_validate c = Inr ()"
      "bt_get (tm_transaction_statuses tm) (s_txn_id (hb_expected_status c)) = Some (hb_expected_status c)" for m
    using that assms
    by (auto simp: decision_def committed_write_def Heartbeat_validate_def Let_def and_then_eq_Inr
        ensure_eq_Inr same_status_identity_alt same_transaction_status_identity_def)
  then show ?thesis
    by (auto simp: apply_heartbeat_transaction_status_def Let_def
        split: sum.splits option.splits intro: effect_status)
qed

lemma effect_expire:
  assumes "status_owned (tm_tablet tm) (ex_expected_status c)"
  shows "effect tm (apply_expire_pending_transaction_status tm c)"
proof -
  have "decision tm m (s_txn_id (ex_expected_status c))
      (ex_expected_status c\<lparr>s_status := Aborted, s_commit_timestamp := None\<rparr>)"
    if "ExpirePending_validate c = Inr ()"
      "bt_get (tm_transaction_statuses tm) (s_txn_id (ex_expected_status c)) = Some (ex_expected_status c)" for m
    using that assms TxnStatusRecord_validate_cong
    by (auto simp: decision_def committed_write_def ExpirePending_validate_def Let_def and_then_eq_Inr
        ensure_eq_Inr same_status_identity_def status_owned_def)
  then show ?thesis
    by (auto simp: apply_expire_pending_transaction_status_def Let_def
        split: sum.splits option.splits intro: effect_status effect_none)
qed

lemma dispatch_effect:
  assumes "command_ok cmd" and "validate_command_target tm cmd = Inr ()"
  shows "effect tm (dispatch_command tm cmd)"
  using assms
  by (cases cmd)
    (auto intro: effect_single_shard effect_rollback effect_resolve effect_prewrite effect_commit
      effect_publish_aborted effect_heartbeat effect_expire effect_none
      simp: and_then_eq_Inr validate_status_authority_Inr)

section \<open>The invariant\<close>

definition retry_ok ::
  "RaftGroupId \<Rightarrow> (ClientDeduplicationKey, ClientDeduplicationState) btree \<Rightarrow>
     (LogicalCommandId, ClientDeduplicationState) btree \<Rightarrow> (u128 \<times> u64, u64) btree \<Rightarrow> bool" where
  "retry_ok grp clients logical horizons \<longleftrightarrow>
     (\<forall>k d. bt_get clients k = Some d \<longrightarrow> snd k = grp \<and> dd_last_sequence_applied d \<noteq> 0) \<and>
     (\<forall>c d. bt_get logical c = Some d \<longrightarrow>
        LogicalCommandId_validate c = Inr () \<and> dd_last_sequence_applied d = 1) \<and>
     (\<forall>k a. bt_get horizons k = Some a \<longrightarrow> fst k \<noteq> 0 \<and> snd k \<noteq> 0)"

definition data_ok :: "Tablet \<Rightarrow> (TxnId, TxnStatusRecord) btree \<Rightarrow> bool" where
  "data_ok tablet statuses \<longleftrightarrow> mvcc_reachable (t_storage tablet) \<and>
     (\<forall>t r. bt_get statuses t = Some r \<longrightarrow>
        s_txn_id r = t \<and> status_owned tablet r \<and> committed_write (t_storage tablet) r)"

definition tm_ok :: "TabletStateMachine \<Rightarrow> bool" where
  "tm_ok tm \<longleftrightarrow> t_id (tm_tablet tm) \<noteq> 0 \<and> tm_epoch tm \<noteq> 0 \<and> tm_raft_group_id tm \<noteq> 0 \<and>
     retry_ok (tm_raft_group_id tm) (tm_client_deduplication tm) (tm_logical_command_deduplication tm)
       (tm_logical_client_retry_horizons tm) \<and>
     data_ok (tm_tablet tm) (tm_transaction_statuses tm)"

text \<open>
  What a step may do. \<open>same_frame\<close> fixes the identity of the machine; \<open>kept\<close> says that
  the data of the tablet, its MVCC store and its decisions, are untouched.
\<close>

definition same_frame :: "TabletStateMachine \<Rightarrow> TabletStateMachine \<Rightarrow> bool" where
  "same_frame tm tm' \<longleftrightarrow> t_id (tm_tablet tm') = t_id (tm_tablet tm) \<and>
     t_table_id (tm_tablet tm') = t_table_id (tm_tablet tm) \<and> tm_epoch tm' = tm_epoch tm \<and>
     tm_raft_group_id tm' = tm_raft_group_id tm"

definition kept :: "TabletStateMachine \<Rightarrow> TabletStateMachine \<Rightarrow> bool" where
  "kept tm tm' \<longleftrightarrow> tm_tablet tm' = tm_tablet tm \<and> tm_transaction_statuses tm' = tm_transaction_statuses tm"

lemma kept_refl [simp]: "kept tm tm"
  by (simp add: kept_def)

lemma committed_write_step:
  assumes "mvcc_reachable m" and "m' = m \<or> mvcc_step m m'" and "committed_write m r"
  shows "committed_write m' r"
  using assms wr_append_only reachable_mvcc_inv unfolding committed_write_def by blast

lemma data_ok_publish:
  assumes "data_ok (tm_tablet tm) (tm_transaction_statuses tm)"
    and "m = t_storage (tm_tablet tm) \<or> mvcc_step (t_storage (tm_tablet tm)) m"
    and "\<And>t r. tr = Some (t, r) \<Longrightarrow> decision tm m t r"
  shows "data_ok (tm_tablet (publish tr (with_storage tm m)))
    (tm_transaction_statuses (publish tr (with_storage tm m)))"
proof -
  have reach: "mvcc_reachable (t_storage (tm_tablet tm))" using assms(1) by (simp add: data_ok_def)
  then have m: "mvcc_reachable m" using assms(2) mvcc_reachable_step by blast
  have old: "s_txn_id r = t \<and> status_owned (tm_tablet tm) r \<and> committed_write m r"
    if "bt_get (tm_transaction_statuses tm) t = Some r" for t r
    using assms(1) that committed_write_step [OF reach assms(2)] by (auto simp: data_ok_def)
  have owned: "status_owned ((tm_tablet tm)\<lparr>t_storage := m\<rparr>) r = status_owned (tm_tablet tm) r" for r
    by (simp add: status_owned_def)
  show ?thesis
    using old m assms(3)
    by (cases tr) (auto simp: data_ok_def publish_def with_storage_def record_status_def
        owned decision_def split: if_splits)
qed

lemma effect_preserves:
  assumes "effect tm (res, tm')" and "tm_ok tm"
  shows "tm_ok tm'" and "same_frame tm tm'"
    and "tm_client_deduplication tm' = tm_client_deduplication tm"
    and "tm_logical_command_deduplication tm' = tm_logical_command_deduplication tm"
    and "tm_logical_client_retry_horizons tm' = tm_logical_client_retry_horizons tm"
proof -
  consider (same) "tm' = tm" | (new) m tr where "tm' = publish tr (with_storage tm m)"
      "m = t_storage (tm_tablet tm) \<or> mvcc_step (t_storage (tm_tablet tm)) m"
      "\<And>t r. tr = Some (t, r) \<Longrightarrow> decision tm m t r"
    using assms(1) by (auto simp: effect_def)
  then have all: "tm_ok tm' \<and> same_frame tm tm' \<and>
      tm_client_deduplication tm' = tm_client_deduplication tm \<and>
      tm_logical_command_deduplication tm' = tm_logical_command_deduplication tm \<and>
      tm_logical_client_retry_horizons tm' = tm_logical_client_retry_horizons tm"
  proof cases
    case new
    have "data_ok (tm_tablet tm') (tm_transaction_statuses tm')"
      unfolding new(1) using assms(2) new(2,3) by (intro data_ok_publish) (auto simp: tm_ok_def)
    then show ?thesis
      using assms(2) new(1)
      by (cases tr) (auto simp: tm_ok_def publish_def with_storage_def record_status_def same_frame_def)
  qed (use assms(2) in \<open>simp add: same_frame_def\<close>)
  then show "tm_ok tm'" "same_frame tm tm'"
    "tm_client_deduplication tm' = tm_client_deduplication tm"
    "tm_logical_command_deduplication tm' = tm_logical_command_deduplication tm"
    "tm_logical_client_retry_horizons tm' = tm_logical_client_retry_horizons tm"
    by simp_all
qed

section \<open>One step of the machine\<close>

lemma retry_ok_retain:
  assumes "retry_ok g clients logical horizons" and "fst k \<noteq> 0" and "snd k \<noteq> 0"
  shows "retry_ok g clients (bt_retain P logical) (bt_insert k a horizons)"
  using assms
  by (auto simp: retry_ok_def bt_get_retain simp del: split_paired_All split_paired_Ex
      split: option.splits if_splits)

lemma retry_ok_logical:
  assumes "retry_ok g clients logical horizons" and "LogicalCommandId_validate c = Inr ()"
    and "dd_last_sequence_applied d = 1"
  shows "retry_ok g clients (bt_insert c d logical) horizons"
  using assms by (auto simp: retry_ok_def simp del: split_paired_All split_paired_Ex split: if_splits)

lemma retry_ok_client:
  assumes "retry_ok g clients logical horizons" and "snd k = g" and "dd_last_sequence_applied d \<noteq> 0"
  shows "retry_ok g (bt_insert k d clients) logical horizons"
  using assms by (auto simp: retry_ok_def simp del: split_paired_All split_paired_Ex split: if_splits)

definition expired :: "TabletStateMachine \<Rightarrow> LogicalCommandId \<Rightarrow> bool" where
  "expired tm c \<longleftrightarrow> (\<exists>a. bt_get (tm_logical_client_retry_horizons tm) (session_of c) = Some a \<and>
     cr_request_sequence (lc_client_request_id c) \<le> a)"

text \<open>
  A retry horizon only grows; an outcome disappears only when its identity has expired.
\<close>

definition horizon_step :: "TabletStateMachine \<Rightarrow> TabletStateMachine \<Rightarrow> bool" where
  "horizon_step tm tm' \<longleftrightarrow> kept tm tm' \<and> same_frame tm tm' \<and>
     tm_client_deduplication tm' = tm_client_deduplication tm \<and>
     (\<forall>c. expired tm c \<longrightarrow> expired tm' c) \<and>
     (\<forall>c d. bt_get (tm_logical_command_deduplication tm) c = Some d \<longrightarrow>
        bt_get (tm_logical_command_deduplication tm') c = Some d \<or> expired tm' c)"

lemma apply_retry_horizon_step:
  assumes "apply_retry_horizon tm c ack = (r, tm')" and "tm_ok tm" and "LogicalCommandId_validate c = Inr ()"
  shows "tm_ok tm'" and "horizon_step tm tm'" and "r = Inl e \<Longrightarrow> tm' = tm"
proof -
  have ids: "fst (session_of c) \<noteq> 0" "snd (session_of c) \<noteq> 0"
    using assms(3)
    by (auto simp: session_of_def LogicalCommandId_validate_def ClientRequestId_validate_def
        and_then_eq_Inr ensure_eq_Inr)
  show "r = Inl e \<Longrightarrow> tm' = tm"
    using assms(1) by (auto simp: apply_retry_horizon_def Let_def split: option.splits if_splits)
  show "tm_ok tm'"
    using assms(1,2) ids
    by (auto simp: apply_retry_horizon_def Let_def tm_ok_def split: option.splits if_splits
        intro: retry_ok_retain)
  show "horizon_step tm tm'"
    using assms(1)
    by (auto simp: apply_retry_horizon_def Let_def horizon_step_def kept_def same_frame_def expired_def
        bt_get_retain not_less split: option.splits if_splits)
qed

end
