(* ===== verification/Tablet_Step.thy ===== *)
theory Tablet_Step
  imports Tablet_Inv
begin

text \<open>
  One application of a command envelope: the cases of \<^verbatim>\<open>apply\<close>, and what every case keeps of
  the invariant, of the decisions and of the deduplication state.
\<close>

section \<open>The cases of apply\<close>

definition outcome_of :: "TabletCommandApplyResult apply_result \<Rightarrow> CachedTabletCommandOutcome option" where
  "outcome_of res =
     (case res of
        Inr x \<Rightarrow> Some (OcApplied (cached_result_of x))
      | Inl e \<Rightarrow> map_option OcRejected (cached_rejection_from_error e))"

definition fresh_reply :: "TabletCommandApplyResult apply_result \<Rightarrow> TabletCommandApplyOutcome apply_result" where
  "fresh_reply res = (case res of Inr x \<Rightarrow> Inr \<lparr>ao_result = x, ao_deduplicated = False\<rparr> | Inl e \<Rightarrow> Inl e)"

definition note_logical ::
  "LogicalCommandId \<Rightarrow> TabletCommandApplyResult apply_result \<Rightarrow> TabletStateMachine \<Rightarrow> TabletStateMachine" where
  "note_logical c res tm =
     (case outcome_of res of
        None \<Rightarrow> tm
      | Some oc \<Rightarrow> tm\<lparr>tm_logical_command_deduplication :=
          bt_insert c \<lparr>dd_last_sequence_applied = 1, dd_cached_outcome = oc\<rparr>
            (tm_logical_command_deduplication tm)\<rparr>)"

definition note_client ::
  "RequestId \<Rightarrow> TabletCommandApplyResult apply_result \<Rightarrow> TabletStateMachine \<Rightarrow> TabletStateMachine" where
  "note_client r res tm =
     (case outcome_of res of
        None \<Rightarrow> tm
      | Some oc \<Rightarrow> tm\<lparr>tm_client_deduplication :=
          bt_insert (rq_client_id r, rq_raft_group_id r)
            \<lparr>dd_last_sequence_applied = rq_sequence r, dd_cached_outcome = oc\<rparr>
            (tm_client_deduplication tm)\<rparr>)"

definition horizon_error :: "TabletCommandApplyError \<Rightarrow> bool" where
  "horizon_error e \<longleftrightarrow>
     (\<exists>c s q a. e = AeRequestIdExpired c s q a) \<or> (\<exists>c s p a. e = AeAcknowledgementRegression c s p a)"

lemma validate_proposal_Inr:
  assumes "validate_proposal tm e = Inr u"
  shows "envelope_ok e" and "command_ok (en_command e)"
    and "validate_command_target tm (en_command e) = Inr ()"
    and "rq_raft_group_id (en_request_id e) = tm_raft_group_id tm" and "rq_sequence (en_request_id e) \<noteq> 0"
    and "en_logical_command_id e = Some c \<Longrightarrow> LogicalCommandId_validate c = Inr ()"
  using assms
  by (auto simp: validate_proposal_def and_then_eq_Inr map_err_eq_Inr ensure_eq_Inr
      TabletCommandEnvelope_validate_Inr envelope_ok_def)

lemma validate_command_target_frame:
  assumes "tm_tablet tm' = tm_tablet tm"
  shows "validate_command_target tm' cmd = validate_command_target tm cmd"
proof -
  have "validate_owned_key tm' = validate_owned_key tm" "validate_encoded_key tm' = validate_encoded_key tm"
    using assms by (auto simp: fun_eq_iff validate_owned_key_def validate_encoded_key_def)
  moreover from this have "validate_status_authority tm' = validate_status_authority tm"
    using assms by (auto simp: fun_eq_iff validate_status_authority_def)
  ultimately show ?thesis
    by (cases cmd) (simp_all add: validate_owned_key_slice_def optional_status_def split: option.split)
qed

lemma apply_logical_cases:
  assumes "apply_logical tm c e = (r, tm')" and "tm_ok tm" and "validate_proposal tm e = Inr ()"
    and "en_logical_command_id e = Some c"
  obtains (reply) "horizon_step tm tm'" "tm_ok tm'"
      "(\<exists>err. r = Inl err \<and> horizon_error err) \<or>
       (\<exists>d. bt_get (tm_logical_command_deduplication tm') c = Some d \<and> \<not> expired tm' c \<and>
          r = cached_reply (dd_cached_outcome d))"
  | (run) tm1 tm2 res where "horizon_step tm tm1" "tm_ok tm1" "\<not> expired tm1 c"
      "bt_get (tm_logical_command_deduplication tm1) c = None"
      "dispatch_command tm1 (en_command e) = (res, tm2)" "effect tm1 (res, tm2)"
      "tm' = note_logical c res tm2" "r = fresh_reply res"
proof -
  have c: "LogicalCommandId_validate c = Inr ()"
    using validate_proposal_Inr(6) [OF assms(3,4)] .
  obtain hr tm1 where h: "apply_retry_horizon tm c (en_acknowledged_through e) = (hr, tm1)" by fastforce
  note step = apply_retry_horizon_step [OF h assms(2) c]
  show ?thesis
  proof (cases hr)
    case (Inl err)
    then have "horizon_error err"
      using h by (auto simp: apply_retry_horizon_def horizon_error_def Let_def split: option.splits if_splits)
    moreover have "r = Inl err" "tm' = tm1"
      using Inl h assms(1) by (simp_all add: apply_logical_def)
    ultimately show ?thesis using step(1,2) by (intro reply) simp_all
  next
    case (Inr u)
    show ?thesis
    proof (cases "expired tm1 c")
      case True
      then obtain a where "bt_get (tm_logical_client_retry_horizons tm1) (session_of c) = Some a"
        "cr_request_sequence (lc_client_request_id c) \<le> a"
        unfolding expired_def by blast
      with Inr h assms(1) have "tm' = tm1" "\<exists>err. r = Inl err \<and> horizon_error err"
        by (auto simp: apply_logical_def Let_def horizon_error_def)
      then show ?thesis using step(1,2) by (intro reply) simp_all
    next
      case False
      then have nx: "\<not> (case bt_get (tm_logical_client_retry_horizons tm1) (session_of c) of
          None \<Rightarrow> False | Some a \<Rightarrow> cr_request_sequence (lc_client_request_id c) \<le> a)"
        by (auto simp: expired_def split: option.splits)
      show ?thesis
      proof (cases "bt_get (tm_logical_command_deduplication tm1) c")
        case (Some d)
        with Inr h assms(1) nx have "r = cached_reply (dd_cached_outcome d)" "tm' = tm1"
          by (simp_all add: apply_logical_def Let_def)
        with Some False show ?thesis using step(1,2) by (intro reply) simp_all
      next
        case None
        obtain res tm2 where d: "dispatch_command tm1 (en_command e) = (res, tm2)" by fastforce
        have same: "tm_tablet tm1 = tm_tablet tm" using step(2) by (simp add: horizon_step_def kept_def)
        then have eff: "effect tm1 (res, tm2)"
          using dispatch_effect [of "en_command e" tm1] validate_proposal_Inr(2,3) [OF assms(3)]
          by (simp add: validate_command_target_frame [OF same] d)
        have "tm' = note_logical c res tm2 \<and> r = fresh_reply res"
          using None Inr h assms(1) nx d
          by (cases res) (auto simp: apply_logical_def Let_def note_logical_def outcome_of_def
              fresh_reply_def split: option.splits)
        then show ?thesis by (intro run [OF step(2,1) False None d eff]) simp_all
      qed
    qed
  qed
qed

lemma apply_legacy_cases:
  assumes "apply_legacy tm e = (r, tm')" and "tm_ok tm" and "validate_proposal tm e = Inr ()"
  obtains (reply) "legacy_sequence tm (en_request_id e) = Some r" "tm' = tm"
  | (run) tm2 res where "legacy_sequence tm (en_request_id e) = None"
      "dispatch_command tm (en_command e) = (res, tm2)" "effect tm (res, tm2)"
      "tm' = note_client (en_request_id e) res tm2" "r = fresh_reply res"
proof (cases "legacy_sequence tm (en_request_id e)")
  case None
  obtain res tm2 where d: "dispatch_command tm (en_command e) = (res, tm2)" by fastforce
  then have "effect tm (res, tm2)"
    using dispatch_effect [of "en_command e" tm] validate_proposal_Inr(2,3) [OF assms(3)] by simp
  moreover have "tm' = note_client (en_request_id e) res tm2" "r = fresh_reply res"
    using None assms(1) d
    by (cases res; simp add: apply_legacy_def Let_def note_client_def outcome_of_def fresh_reply_def
        split: option.splits)+
  ultimately show ?thesis using None d by (intro run)
next
  case (Some x)
  then have "r = x" "tm' = tm" using assms(1) by (simp_all add: apply_legacy_def Let_def)
  with Some reply show ?thesis by simp
qed

lemma tablet_apply_cases:
  assumes "tablet_apply tm e = (r, tm')" and "tm_ok tm"
  obtains (invalid) err where "validate_proposal tm e = Inl err" "r = Inl err" "tm' = tm"
  | (logical) c where "en_logical_command_id e = Some c" "validate_proposal tm e = Inr ()"
      "apply_logical tm c e = (r, tm')"
  | (legacy) "en_logical_command_id e = None" "validate_proposal tm e = Inr ()" "apply_legacy tm e = (r, tm')"
  using assms by (auto simp: tablet_apply_def split: sum.splits option.splits)

section \<open>What a step keeps\<close>

text \<open>A decision stays, and while it is pending its identity stays.\<close>

definition extends_decisions :: "TabletStateMachine \<Rightarrow> TabletStateMachine \<Rightarrow> bool" where
  "extends_decisions tm tm' \<longleftrightarrow> (\<forall>t r. bt_get (tm_transaction_statuses tm) t = Some r \<longrightarrow>
     (\<exists>r'. bt_get (tm_transaction_statuses tm') t = Some r' \<and> same_status_identity r r' \<and>
        (s_status r = Pending \<or> r' = r)))"

definition keeps_outcomes :: "TabletStateMachine \<Rightarrow> TabletStateMachine \<Rightarrow> bool" where
  "keeps_outcomes tm tm' \<longleftrightarrow>
     (\<forall>c. expired tm c \<longrightarrow> expired tm' c) \<and>
     (\<forall>c d. bt_get (tm_logical_command_deduplication tm) c = Some d \<longrightarrow>
        bt_get (tm_logical_command_deduplication tm') c = Some d \<or> expired tm' c) \<and>
     (\<forall>k d. bt_get (tm_client_deduplication tm) k = Some d \<longrightarrow>
        (\<exists>d'. bt_get (tm_client_deduplication tm') k = Some d' \<and>
           (d' = d \<or> dd_last_sequence_applied d < dd_last_sequence_applied d')))"

lemma same_status_identity_refl [simp]: "same_status_identity r r"
  by (simp add: same_status_identity_def)

lemma effect_decisions:
  assumes "effect tm (res, tm')"
  shows "extends_decisions tm tm'"
proof -
  have pub: "extends_decisions tm (publish tr (with_storage tm m))"
    if "\<And>t r. tr = Some (t, r) \<Longrightarrow> decision tm m t r" for tr m
    using that
    by (cases tr) (auto simp: extends_decisions_def publish_def record_status_def with_storage_def decision_def)
  have "extends_decisions tm tm" by (simp add: extends_decisions_def)
  then show ?thesis using assms pub by (auto simp: effect_def)
qed

lemma note_kept [simp]:
  "kept tm (note_logical c res tm)" "kept tm (note_client q res tm)"
  "same_frame tm (note_logical c res tm)" "same_frame tm (note_client q res tm)"
  by (auto simp: note_logical_def note_client_def kept_def same_frame_def split: option.splits)

lemma note_ok:
  assumes "tm_ok tm"
  shows "LogicalCommandId_validate c = Inr () \<Longrightarrow> tm_ok (note_logical c res tm)"
    and "rq_raft_group_id q = tm_raft_group_id tm \<Longrightarrow> rq_sequence q \<noteq> 0 \<Longrightarrow> tm_ok (note_client q res tm)"
  using assms
  by (auto simp: tm_ok_def note_logical_def note_client_def split: option.splits
      intro: retry_ok_logical retry_ok_client)

lemma extends_decisions_kept:
  "kept tm tm1 \<Longrightarrow> extends_decisions tm1 tm2 \<Longrightarrow> kept tm2 tm3 \<Longrightarrow> extends_decisions tm tm3"
  by (simp add: extends_decisions_def kept_def)

lemma legacy_sequence_None:
  assumes "legacy_sequence tm q = None" and "bt_get (tm_client_deduplication tm) (rq_client_id q, rq_raft_group_id q) = Some d"
  shows "dd_last_sequence_applied d < rq_sequence q"
  using assms
  by (auto simp: legacy_sequence_def Let_def not_less order.order_iff_strict split: if_splits option.splits)

lemma same_frame_trans: "same_frame a b \<Longrightarrow> same_frame b c \<Longrightarrow> same_frame a c"
  by (simp add: same_frame_def)

lemma apply_preserves:
  assumes "tablet_apply tm e = (r, tm')" and "tm_ok tm"
  shows "tm_ok tm' \<and> same_frame tm tm' \<and> extends_decisions tm tm' \<and> keeps_outcomes tm tm'"
  using assms
proof (cases rule: tablet_apply_cases)
  case invalid
  with assms(2) show ?thesis by (auto simp: same_frame_def extends_decisions_def keeps_outcomes_def)
next
  case (logical c)
  have c: "LogicalCommandId_validate c = Inr ()"
    using validate_proposal_Inr(6) [OF logical(2,1)] .
  from logical(3) assms(2) logical(2,1) show ?thesis
  proof (cases rule: apply_logical_cases)
    case reply
    then show ?thesis
      by (auto simp: horizon_step_def kept_def extends_decisions_def keeps_outcomes_def)
  next
    case (run tm1 tm2 res)
    note eff = effect_preserves [OF run(6,2)]
    have "tm_ok tm'" unfolding run(7) by (rule note_ok(1) [OF eff(1) c])
    moreover have "same_frame tm tm'"
      unfolding run(7) using run(1) eff(2) note_kept(3) same_frame_trans
      by (metis horizon_step_def)
    moreover have "extends_decisions tm tm'"
      unfolding run(7) using run(1) effect_decisions [OF run(6)] note_kept(1) extends_decisions_kept
      by (metis horizon_step_def)
    moreover have "keeps_outcomes tm tm'"
    proof -
      have "expired tm' = expired tm1" "tm_client_deduplication tm' = tm_client_deduplication tm"
        using eff(3,5) run(1,7)
        by (auto simp: fun_eq_iff expired_def note_logical_def horizon_step_def split: option.splits)
      moreover have "bt_get (tm_logical_command_deduplication tm) c = None"
        using run(1,3,4) unfolding horizon_step_def
        by (cases "bt_get (tm_logical_command_deduplication tm) c") fastforce+
      then have "bt_get (tm_logical_command_deduplication tm') x =
          bt_get (tm_logical_command_deduplication tm1) x"
        if "bt_get (tm_logical_command_deduplication tm) x = Some d" for x d
        using that eff(4) run(7) by (auto simp: note_logical_def split: option.splits)
      ultimately show ?thesis
        using run(1) unfolding keeps_outcomes_def horizon_step_def by metis
    qed
    ultimately show ?thesis by blast
  qed
next
  case legacy
  from legacy(3) assms(2) legacy(2) show ?thesis
  proof (cases rule: apply_legacy_cases)
    case reply
    with assms(2) show ?thesis by (auto simp: same_frame_def extends_decisions_def keeps_outcomes_def)
  next
    case (run tm2 res)
    note eff = effect_preserves [OF run(3) assms(2)]
    have "tm_ok tm'" unfolding run(4) using validate_proposal_Inr(4,5) [OF legacy(2)] eff(1,2)
      by (intro note_ok(2)) (simp_all add: same_frame_def)
    moreover have "same_frame tm tm'" unfolding run(4) using eff(2) note_kept(4) same_frame_trans by blast
    moreover have "extends_decisions tm tm'"
      unfolding run(4) using effect_decisions [OF run(3)] extends_decisions_kept kept_refl note_kept(2) by blast
    moreover have "keeps_outcomes tm tm'"
      using eff(3-5) legacy_sequence_None [OF run(1)] unfolding run(4)
      by (auto simp: keeps_outcomes_def note_client_def expired_def split: option.splits)
    ultimately show ?thesis by blast
  qed
qed

end
