(* ===== verification/Tablet_Props.thy ===== *)
theory Tablet_Props
  imports Tablet_Step
begin

text \<open>
  Correctness of the replicated tablet: decisions are final, a committed decision has its
  primary write in the store, every request takes effect at most once, refused commands leave
  the data alone, and a snapshot of the machine restores it exactly.
\<close>

section \<open>The machine as a transition system\<close>

inductive tm_step :: "TabletStateMachine \<Rightarrow> TabletStateMachine \<Rightarrow> bool" where
  step_apply: "tablet_apply tm e = (r, tm') \<Longrightarrow> tm_step tm tm'"

inductive_simps tm_step_iff: "tm_step tm tm'"

definition tm_init :: "TabletStateMachine \<Rightarrow> bool" where
  "tm_init tm \<longleftrightarrow> (\<exists>tablet table epoch grp t. Tablet_new tablet table = Inr t \<and>
     TabletStateMachine_new t epoch grp = Inr tm)"

definition tm_reachable :: "TabletStateMachine \<Rightarrow> bool" where
  "tm_reachable tm \<longleftrightarrow> (\<exists>tm0. tm_init tm0 \<and> tm_step\<^sup>*\<^sup>* tm0 tm)"

lemma tm_init_ok: "tm_init tm \<Longrightarrow> tm_ok tm"
  by (auto simp: tm_init_def Tablet_new_def Tablet_with_storage_def TabletStateMachine_new_def tm_ok_def
      retry_ok_def data_ok_def mvcc_reachable_new and_then_eq_Inr ensure_eq_Inr)

interpretation tablet_system: step_invariant tm_init tm_step tm_ok
  by unfold_locales (auto simp: tm_init_ok tm_step_iff dest: apply_preserves)

lemma reachable_tm_ok: "tm_reachable tm \<Longrightarrow> tm_ok tm"
  using tablet_system.reachable_inv unfolding tm_reachable_def by blast

lemma extends_decisions_trans:
  assumes "extends_decisions tm tm1" and "extends_decisions tm1 tm2"
  shows "extends_decisions tm tm2"
  unfolding extends_decisions_def
proof (intro allI impI)
  fix t r
  assume "bt_get (tm_transaction_statuses tm) t = Some r"
  with assms(1) obtain r1 where r1: "bt_get (tm_transaction_statuses tm1) t = Some r1"
    "same_status_identity r r1" "s_status r = Pending \<or> r1 = r"
    unfolding extends_decisions_def by blast
  from assms(2) r1(1) obtain r2 where r2: "bt_get (tm_transaction_statuses tm2) t = Some r2"
    "same_status_identity r1 r2" "s_status r1 = Pending \<or> r2 = r1"
    unfolding extends_decisions_def by blast
  from r1 r2 show "\<exists>r'. bt_get (tm_transaction_statuses tm2) t = Some r' \<and> same_status_identity r r' \<and>
      (s_status r = Pending \<or> r' = r)"
    by (auto simp: same_status_identity_def)
qed

lemma keeps_outcomes_trans:
  assumes "keeps_outcomes tm tm1" and "keeps_outcomes tm1 tm2"
  shows "keeps_outcomes tm tm2"
  unfolding keeps_outcomes_def
proof (intro conjI allI impI)
  fix k d
  assume "bt_get (tm_client_deduplication tm) k = Some d"
  with assms(1) obtain d1 where d1: "bt_get (tm_client_deduplication tm1) k = Some d1"
    "d1 = d \<or> dd_last_sequence_applied d < dd_last_sequence_applied d1"
    unfolding keeps_outcomes_def by blast
  from assms(2) d1(1) obtain d2 where d2: "bt_get (tm_client_deduplication tm2) k = Some d2"
    "d2 = d1 \<or> dd_last_sequence_applied d1 < dd_last_sequence_applied d2"
    unfolding keeps_outcomes_def by blast
  from d1(2) d2(2) have "d2 = d \<or> dd_last_sequence_applied d < dd_last_sequence_applied d2"
    by (auto intro: less_trans)
  with d2(1) show "\<exists>d'. bt_get (tm_client_deduplication tm2) k = Some d' \<and>
      (d' = d \<or> dd_last_sequence_applied d < dd_last_sequence_applied d')"
    by blast
qed (use assms in \<open>unfold keeps_outcomes_def, blast\<close>)+

lemma tm_steps_preserve:
  assumes "tm_step\<^sup>*\<^sup>* tm tm'" and "tm_ok tm"
  shows "tm_ok tm' \<and> same_frame tm tm' \<and> extends_decisions tm tm' \<and> keeps_outcomes tm tm'"
  using assms
proof (induction rule: rtranclp_induct)
  case base
  then show ?case by (simp add: same_frame_def extends_decisions_def keeps_outcomes_def)
next
  case (step tm1 tm2)
  then have ih: "tm_ok tm1" "same_frame tm tm1" "extends_decisions tm tm1" "keeps_outcomes tm tm1" by simp_all
  from step(2) ih(1) have st: "tm_ok tm2" "same_frame tm1 tm2" "extends_decisions tm1 tm2" "keeps_outcomes tm1 tm2"
    using apply_preserves by (auto simp: tm_step_iff)
  have "extends_decisions tm tm2" using extends_decisions_trans [OF ih(3) st(3)] .
  moreover have "keeps_outcomes tm tm2" using keeps_outcomes_trans [OF ih(4) st(4)] .
  ultimately show ?case using ih(2) st same_frame_trans by blast
qed

section \<open>Decisions\<close>

lemma transaction_status_ok:
  assumes "tm_ok tm"
  shows "transaction_status tm t = Inr (bt_get (tm_transaction_statuses tm) t)"
proof (cases "bt_get (tm_transaction_statuses tm) t")
  case (Some r)
  with assms have "s_txn_id r = t" "status_owned (tm_tablet tm) r" by (auto simp: tm_ok_def data_ok_def)
  with Some show ?thesis
    by (auto simp: transaction_status_def status_owned_def table_key_def primary_tablet_id_def Let_def)
qed (simp add: transaction_status_def)

text \<open>
  C7. Transaction decisions are final. Once a tablet reports a transaction as committed or
  aborted, it reports the same record after any sequence of further commands; a pending
  record may still change, but never its transaction, start, primary key or participants.
\<close>

theorem decisions_are_final:
  assumes "tm_reachable tm" and "tm_step\<^sup>*\<^sup>* tm tm'" and "transaction_status tm t = Inr (Some r)"
  shows "\<exists>r'. transaction_status tm' t = Inr (Some r') \<and> same_status_identity r r' \<and>
    (s_status r = Pending \<or> r' = r)"
proof -
  note ok = reachable_tm_ok [OF assms(1)]
  note later = tm_steps_preserve [OF assms(2) ok]
  from assms(3) have "bt_get (tm_transaction_statuses tm) t = Some r"
    by (simp add: transaction_status_ok [OF ok])
  with later show ?thesis
    by (simp add: transaction_status_ok extends_decisions_def)
qed

text \<open>
  C9. The commit point is in the store: whenever a tablet reports a transaction as committed,
  the committed history of its primary key has a version at the reported commit timestamp,
  which lies after the start timestamp.
\<close>

theorem committed_decision_is_written:
  assumes "tm_reachable tm" and "transaction_status tm t = Inr (Some r)" and "s_status r = Committed"
  shows "\<exists>c. s_commit_timestamp r = Some c \<and> s_start_timestamp r < c \<and>
    history (t_storage (tm_tablet tm)) (s_primary_key r) c \<noteq> None"
proof -
  note ok = reachable_tm_ok [OF assms(1)]
  from assms(2) have "bt_get (tm_transaction_statuses tm) t = Some r"
    by (simp add: transaction_status_ok [OF ok])
  with ok have "status_owned (tm_tablet tm) r" "committed_write (t_storage (tm_tablet tm)) r"
    by (auto simp: tm_ok_def data_ok_def)
  with assms(3) show ?thesis
    by (auto simp: committed_write_def status_owned_def history_None dest: TxnStatusRecord_validate_outcome)
qed

section \<open>At most once\<close>

definition same_request :: "TabletCommandEnvelope \<Rightarrow> TabletCommandEnvelope \<Rightarrow> bool" where
  "same_request e e' \<longleftrightarrow> en_logical_command_id e' = en_logical_command_id e \<and>
     (en_logical_command_id e = None \<longrightarrow>
        rq_client_id (en_request_id e') = rq_client_id (en_request_id e) \<and>
        rq_sequence (en_request_id e') = rq_sequence (en_request_id e))"

lemma result_codes_inverse [simp]: "cached_result_of (apply_result_of r) = r" "apply_result_of (cached_result_of x) = x"
  by (cases r; simp) (cases x; simp)

lemma cached_reply_Inr:
  "cached_reply oc = Inr out \<longleftrightarrow> (\<exists>r. oc = OcApplied r \<and> out = \<lparr>ao_result = apply_result_of r, ao_deduplicated = True\<rparr>)"
  by (cases oc) auto

lemma logical_success:
  assumes "apply_logical tm c e = (Inr out, tm')" and "tm_ok tm" and "validate_proposal tm e = Inr ()"
    and "en_logical_command_id e = Some c"
  shows "\<exists>d. bt_get (tm_logical_command_deduplication tm') c = Some d \<and>
    dd_cached_outcome d = OcApplied (cached_result_of (ao_result out))"
  using assms
proof (cases rule: apply_logical_cases)
  case reply
  then show ?thesis by (auto simp: cached_reply_Inr eq_commute [of "Inr out"])
next
  case (run tm1 tm2 res)
  then show ?thesis
    by (cases res) (auto simp: note_logical_def outcome_of_def fresh_reply_def)
qed

lemma legacy_success:
  assumes "apply_legacy tm e = (Inr out, tm')" and "tm_ok tm" and "validate_proposal tm e = Inr ()"
  shows "\<exists>d. bt_get (tm_client_deduplication tm') (rq_client_id (en_request_id e), tm_raft_group_id tm) = Some d \<and>
    dd_last_sequence_applied d = rq_sequence (en_request_id e) \<and>
    dd_cached_outcome d = OcApplied (cached_result_of (ao_result out))"
proof -
  have g: "rq_raft_group_id (en_request_id e) = tm_raft_group_id tm"
    using validate_proposal_Inr(4) [OF assms(3)] .
  from assms show ?thesis
  proof (cases rule: apply_legacy_cases)
    case reply
    then show ?thesis
      by (auto simp: legacy_sequence_def Let_def cached_reply_Inr g
          split: option.splits if_splits)
  next
    case (run tm2 res)
    with g show ?thesis
      by (cases res) (auto simp: note_client_def outcome_of_def fresh_reply_def)
  qed
qed

lemma logical_retry:
  assumes "tablet_apply tm e = (r, tm')" and "tm_ok tm" and "en_logical_command_id e = Some c"
    and "bt_get (tm_logical_command_deduplication tm) c = Some d \<or> expired tm c"
  shows "kept tm tm' \<and> (r = cached_reply (dd_cached_outcome d) \<or> (\<exists>err. r = Inl err))"
  using assms(1,2)
proof (cases rule: tablet_apply_cases)
  case (logical c')
  with assms(3) have [simp]: "c' = c" by simp
  from logical(3) assms(2) logical(2,1) show ?thesis
  proof (cases rule: apply_logical_cases)
    case reply
    with assms(4) show ?thesis unfolding horizon_step_def by force
  next
    case (run tm1 tm2 res)
    then have False using assms(4) unfolding horizon_step_def by fastforce
    then show ?thesis ..
  qed
qed (use assms(3) in auto)

lemma legacy_retry:
  assumes "tablet_apply tm e = (r, tm')" and "tm_ok tm" and "en_logical_command_id e = None"
    and "bt_get (tm_client_deduplication tm) (rq_client_id (en_request_id e), tm_raft_group_id tm) = Some d'"
    and "d' = d \<or> dd_last_sequence_applied d < dd_last_sequence_applied d'"
    and "dd_last_sequence_applied d = rq_sequence (en_request_id e)"
  shows "kept tm tm' \<and> (r = cached_reply (dd_cached_outcome d) \<or> (\<exists>err. r = Inl err))"
  using assms(1,2)
proof (cases rule: tablet_apply_cases)
  case legacy
  have g: "rq_raft_group_id (en_request_id e) = tm_raft_group_id tm"
    using validate_proposal_Inr(4) [OF legacy(2)] .
  from legacy(3) assms(2) legacy(2) show ?thesis
  proof (cases rule: apply_legacy_cases)
    case reply
    with assms(4-6) show ?thesis by (auto simp: legacy_sequence_def Let_def g split: if_splits)
  next
    case (run tm2 res)
    from legacy_sequence_None [OF run(1)] assms(4-6) g have False by auto
    then show ?thesis ..
  qed
qed (use assms(3) in auto)

text \<open>
  C8. A request takes effect at most once. After a command was applied, applying any envelope
  with the same identity, the same logical command or for legacy clients the same client and
  sequence, at any later point changes neither the MVCC store nor any decision, and either
  answers with the original result, marked as deduplicated, or refuses.
\<close>

theorem command_applied_once:
  assumes "tm_reachable tm" and "tablet_apply tm e = (Inr out, tm1)" and "tm_step\<^sup>*\<^sup>* tm1 tm2"
    and "same_request e e'" and "tablet_apply tm2 e' = (r, tm3)"
  shows "kept tm2 tm3 \<and>
    (r = Inr \<lparr>ao_result = ao_result out, ao_deduplicated = True\<rparr> \<or> (\<exists>err. r = Inl err))"
proof -
  note ok = reachable_tm_ok [OF assms(1)]
  note p1 = apply_preserves [OF assms(2) ok]
  then have p2: "tm_ok tm2" "same_frame tm tm2" "keeps_outcomes tm1 tm2"
    using tm_steps_preserve [OF assms(3)] same_frame_trans by blast+
  from assms(2) ok show ?thesis
  proof (cases rule: tablet_apply_cases)
    case (logical c)
    obtain d where d: "bt_get (tm_logical_command_deduplication tm1) c = Some d"
      "dd_cached_outcome d = OcApplied (cached_result_of (ao_result out))"
      using logical_success [OF logical(3) ok logical(2,1)] by blast
    then have "bt_get (tm_logical_command_deduplication tm2) c = Some d \<or> expired tm2 c"
      using p2(3) by (simp add: keeps_outcomes_def)
    from logical_retry [OF assms(5) p2(1) _ this] assms(4) logical(1) d(2) show ?thesis
      by (auto simp: same_request_def)
  next
    case legacy
    obtain d where d: "bt_get (tm_client_deduplication tm1)
        (rq_client_id (en_request_id e), tm_raft_group_id tm) = Some d"
      "dd_last_sequence_applied d = rq_sequence (en_request_id e)"
      "dd_cached_outcome d = OcApplied (cached_result_of (ao_result out))"
      using legacy_success [OF legacy(3) ok legacy(2)] by blast
    then obtain d' where d': "bt_get (tm_client_deduplication tm2)
        (rq_client_id (en_request_id e), tm_raft_group_id tm) = Some d'"
      "d' = d \<or> dd_last_sequence_applied d < dd_last_sequence_applied d'"
      using p2(3) unfolding keeps_outcomes_def by blast
    from legacy_retry [OF assms(5) p2(1) _ _ d'(2)] d'(1) assms(4) legacy(1) d(2,3) p2(2) show ?thesis
      by (auto simp: same_request_def same_frame_def)
  qed simp
qed

text \<open>
  C10. A refused command leaves the data alone: whatever error applying an envelope returns,
  the MVCC store, the decisions, the generation and the group of the tablet are unchanged, and
  an envelope that fails validation or targets another tablet, generation or group changes
  nothing at all, so it consumes no request sequence.
\<close>

theorem rejected_command_changes_nothing:
  assumes "tm_reachable tm" and "tablet_apply tm e = (Inl err, tm')"
  shows "kept tm tm' \<and> same_frame tm tm' \<and> (is_ok (validate_proposal tm e) \<or> tm' = tm)"
proof -
  note ok = reachable_tm_ok [OF assms(1)]
  have eff: "kept tm1 tm2" if "effect tm1 (res, tm2)" "fresh_reply res = Inl err" for tm1 tm2 res
    using that by (auto simp: effect_def fresh_reply_def)
  from assms(2) ok have "kept tm tm' \<and> (is_ok (validate_proposal tm e) \<or> tm' = tm)"
  proof (cases rule: tablet_apply_cases)
    case (logical c)
    from logical(3) ok logical(2,1) show ?thesis
    proof (cases rule: apply_logical_cases)
      case (run tm1 tm2 res)
      with eff [OF run(6)] note_kept(1) [of tm2 c res] logical(2) show ?thesis
        by (auto simp: horizon_step_def kept_def)
    qed (use logical(2) in \<open>simp add: horizon_step_def\<close>)
  next
    case legacy
    from legacy(3) ok legacy(2) show ?thesis
    proof (cases rule: apply_legacy_cases)
      case (run tm2 res)
      with eff [OF run(3)] note_kept(2) [of tm2 "en_request_id e" res] legacy(2) show ?thesis
        by (auto simp: kept_def)
    qed simp
  qed simp
  with apply_preserves [OF assms(2) ok] show ?thesis by blast
qed

section \<open>Snapshots\<close>

definition machine_snapshot :: "TabletStateMachine \<Rightarrow> TabletStateMachineSnapshot" where
  "machine_snapshot tm = \<lparr>sn_format_version = TABLET_STATE_MACHINE_SNAPSHOT_VERSION,
     sn_tablet_id = t_id (tm_tablet tm), sn_tablet_epoch = tm_epoch tm,
     sn_raft_group_id = tm_raft_group_id tm,
     sn_clients = bt_from_list (map (\<lambda>(key, state). (fst key, state)) (bt_iter (tm_client_deduplication tm))),
     sn_logical_commands = tm_logical_command_deduplication tm,
     sn_logical_client_retry_horizons = tm_logical_client_retry_horizons tm,
     sn_transaction_statuses = tm_transaction_statuses tm\<rparr>"

lemma dedup_eta [simp]:
  "\<lparr>dd_last_sequence_applied = dd_last_sequence_applied d, dd_cached_outcome = dd_cached_outcome d\<rparr> = (d :: ClientDeduplicationSnapshot)"
  by (cases d) simp

lemma option_eq_iff: "(\<And>v. x = Some v \<longleftrightarrow> y = Some v) \<Longrightarrow> x = y"
  by (metis not_Some_eq)

lemma rekey_get:
  assumes "inj_on f (dom (bt_get m))"
  shows "bt_get (bt_from_list (map (\<lambda>(k, v). (f k, v)) (bt_iter m))) x = Some v \<longleftrightarrow>
    (\<exists>k. f k = x \<and> bt_get m k = Some v)"
proof -
  let ?xs = "map (\<lambda>(k, v). (f k, v)) (bt_iter m)"
  have "map fst ?xs = map f (bt_keys m)" by (simp add: bt_keys_def case_prod_beta)
  then have d: "distinct (map fst ?xs)"
    using bt_keys_distinct [of m] assms by (simp only: distinct_map set_bt_keys)
  then have "bt_get (bt_from_list ?xs) x = Some v \<longleftrightarrow> (x, v) \<in> set ?xs"
    by (simp add: bt_get_from_list)
  also have "\<dots> \<longleftrightarrow> (\<exists>k. f k = x \<and> bt_get m k = Some v)"
    by (force simp: bt.iter_mem)
  finally show ?thesis .
qed

lemma clients_get:
  assumes "tm_ok tm"
  shows "bt_get (sn_clients (machine_snapshot tm)) k = bt_get (tm_client_deduplication tm) (k, tm_raft_group_id tm)"
proof -
  have grp: "snd key = tm_raft_group_id tm" if "bt_get (tm_client_deduplication tm) key = Some d" for key d
    using assms that unfolding tm_ok_def retry_ok_def by blast
  then have "inj_on fst (dom (bt_get (tm_client_deduplication tm)))"
    by (intro inj_onI) (metis domD prod.expand)
  from rekey_get [OF this] grp show ?thesis
    by (intro option_eq_iff) (force simp: machine_snapshot_def)
qed

lemma clients_restored:
  assumes "tm_ok tm"
  shows "bt_from_list (map (\<lambda>(k, v). ((k, tm_raft_group_id tm), v)) (bt_iter (sn_clients (machine_snapshot tm)))) =
    tm_client_deduplication tm"
proof (rule bt_ext, rule ext, rule option_eq_iff)
  fix key d
  have grp: "snd key = tm_raft_group_id tm" if "bt_get (tm_client_deduplication tm) key = Some d"
    using assms that unfolding tm_ok_def retry_ok_def by blast
  let ?m = "sn_clients (machine_snapshot tm)"
  have "inj_on (\<lambda>k. (k, tm_raft_group_id tm)) (dom (bt_get ?m))" by (simp add: inj_on_def)
  from rekey_get [OF this, of key d] grp show "bt_get (bt_from_list (map (\<lambda>(k, v). ((k, tm_raft_group_id tm), v))
        (bt_iter (sn_clients (machine_snapshot tm))))) key = Some d \<longleftrightarrow>
      bt_get (tm_client_deduplication tm) key = Some d"
    by (cases key) (auto simp: clients_get [OF assms])
qed

lemma machine_snapshot_ok:
  assumes "tm_ok tm"
  shows "snapshot_ok (machine_snapshot tm)"
proof -
  have "dd_last_sequence_applied d \<noteq> 0" if "d \<in> set (bt_values (sn_clients (machine_snapshot tm)))" for d
    using assms that by (auto simp: clients_get [OF assms] tm_ok_def retry_ok_def bt_values_mem)
  moreover have "LogicalCommandId_validate c = Inr ()" if "bt_get (tm_logical_command_deduplication tm) c = Some d" for c d
    using assms that by (auto simp: tm_ok_def retry_ok_def)
  moreover have "k \<noteq> 0 \<and> e \<noteq> 0" if "bt_get (tm_logical_client_retry_horizons tm) (k, e) = Some a" for k e a
    using assms that by (fastforce simp: tm_ok_def retry_ok_def)
  moreover have "validate_snapshot_status (t_id (tm_tablet tm)) (t, r) = Inr ()"
    if "bt_get (tm_transaction_statuses tm) t = Some r" for t r
    using assms that by (auto simp: tm_ok_def data_ok_def status_owned_def validate_snapshot_status_def
        primary_tablet_id_def)
  ultimately show ?thesis
    using assms unfolding snapshot_ok_def TabletStateMachineSnapshot_validate_def
    by (auto simp: machine_snapshot_def tm_ok_def retry_ok_def and_then_eq_Inr ensure_eq_Inr
        try_each_eq_Inr map_err_eq_Inr dom_def bt.iter_mem)
qed


text \<open>
  C11. A snapshot restores the machine exactly: for every reachable tablet state machine the
  snapshot encodes without error, and restoring those bytes over the same tablet gives back
  the very same machine, with its epoch, group, retry caches, horizons and decisions. The
  protobuf library is a parameter, required only to decode what it encoded for this snapshot.
\<close>

theorem tablet_snapshot_roundtrip:
  assumes "tm_reachable tm"
    and "\<And>p. TabletStateMachineSnapshot_to_proto (machine_snapshot tm) = Inr p \<Longrightarrow>
      prost_decode (encode_to_vec p) = Some p"
  shows "\<exists>bs. encode_snapshot_state encode_to_vec tm = Inr bs \<and>
    restore_from_snapshot prost_decode (tm_tablet tm) bs = Inr tm"
proof -
  let ?s = "machine_snapshot tm"
  note ok = reachable_tm_ok [OF assms(1)]
  note sok = machine_snapshot_ok [OF ok]
  then have v: "TabletStateMachineSnapshot_validate ?s = Inr ()" by (simp add: snapshot_ok_def)
  obtain p where p: "TabletStateMachineSnapshot_to_proto ?s = Inr p" "TabletStateMachineSnapshot_from_proto p = Inr ?s"
    using snapshot_proto_roundtrip [OF sok] by blast
  have new: "new_with_transaction_statuses (t_id (tm_tablet tm)) (tm_epoch tm) (tm_raft_group_id tm)
      (bt_from_list (map (\<lambda>(key, state). (fst key, state)) (bt_iter (tm_client_deduplication tm))))
      (tm_logical_command_deduplication tm) (tm_logical_client_retry_horizons tm)
      (tm_transaction_statuses tm) = Inr ?s"
    using v unfolding new_with_transaction_statuses_def Let_def machine_snapshot_def by simp
  then have enc: "encode_snapshot_state encode_to_vec tm = Inr (encode_to_vec p)"
    using v p(1) by (simp add: encode_snapshot_state_def TabletStateMachineSnapshot_encode_def)
  have dec: "TabletStateMachineSnapshot_decode prost_decode (encode_to_vec p) = Inr ?s"
    using assms(2) [OF p(1)] p(2) by (simp add: TabletStateMachineSnapshot_decode_def)
  have "table_key (t_table_id (tm_tablet tm)) (s_primary_key r)"
    if "r \<in> set (bt_values (tm_transaction_statuses tm))" for r
    using ok that by (auto simp: bt_values_mem tm_ok_def data_ok_def status_owned_def)
  then have "restore_from_snapshot prost_decode (tm_tablet tm) (encode_to_vec p) = Inr tm"
    using clients_restored [OF ok] unfolding restore_from_snapshot_def dec
    by (cases tm) (auto simp: machine_snapshot_def table_key_def and_then_eq_Inr ensure_eq_Inr
        try_each_eq_Inr map_err_eq_Inr)
  with enc show ?thesis by blast
qed

section \<open>An example run\<close>

definition demo_status :: "Timestamp option \<Rightarrow> TxnStatus \<Rightarrow> TxnStatusRecord" where
  "demo_status commit st = \<lparr>s_txn_id = 7, s_start_timestamp = 5, s_commit_timestamp = commit,
     s_status = st, s_primary_key = demo_key, s_participant_tablet_ids = [5],
     s_last_heartbeat_timestamp = None, s_lease_deadline_ms = None\<rparr>"

definition demo_command :: "u64 \<Rightarrow> TabletCommand \<Rightarrow> TabletCommandEnvelope" where
  "demo_command n c = \<lparr>en_format_version = 2, en_request_id = RequestId 9 n 3, en_tablet_id = 5,
     en_expected_epoch = 1, en_logical_command_id = None, en_acknowledged_through = None, en_command = c\<rparr>"

definition demo_prewrite_command :: TabletCommandEnvelope where
  "demo_prewrite_command = demo_command 1 (TcPrewrite \<lparr>pre_txn_id = 7, pre_start_timestamp = 5,
     pre_writes = [\<lparr>ce_key = demo_key, ce_row = None, ce_op = Delete\<rparr>], pre_primary_key = demo_key,
     pre_ttl_ms = 1000, pre_pending_status = Some (demo_status None Pending)\<rparr>)"

definition demo_commit_command :: TabletCommandEnvelope where
  "demo_commit_command = demo_command 2 (TcCommit \<lparr>com_txn_id = 7, com_start_timestamp = 5,
     com_commit_timestamp = 8, com_keys = [demo_key],
     com_committed_status = Some (demo_status (Some 8) Committed)\<rparr>)"

definition demo_machine0 :: TabletStateMachine where
  "demo_machine0 = projr (TabletStateMachine_new (projr (Tablet_new 5 1)) 1 3)"

definition demo_machine1 :: TabletStateMachine where
  "demo_machine1 = \<lparr>tm_tablet = \<lparr>t_id = 5, t_table_id = 1,
       t_storage = \<lparr>m_default = bt_new,
         m_locks = bt_insert demo_key \<lparr>l_txn_id = 7, l_primary_key = demo_key, l_start_timestamp = 5,
           l_ttl_ms = 1000, l_op = Delete\<rparr> bt_new,
         m_writes = bt_new\<rparr>\<rparr>,
     tm_epoch = 1, tm_raft_group_id = 3,
     tm_client_deduplication = bt_insert (9, 3)
       \<lparr>dd_last_sequence_applied = 1, dd_cached_outcome = OcApplied CrPrewrite\<rparr> bt_new,
     tm_logical_command_deduplication = bt_new, tm_logical_client_retry_horizons = bt_new,
     tm_transaction_statuses = bt_insert 7 (demo_status None Pending) bt_new\<rparr>"

definition demo_machine2 :: TabletStateMachine where
  "demo_machine2 = (record_status 7 (Some (demo_status (Some 8) Committed))
     (with_storage demo_machine1 (snd (commit_intents_batch (t_storage (tm_tablet demo_machine1)) 7 5 8
       (bt_insert demo_key () bt_new)))))
     \<lparr>tm_client_deduplication := bt_insert (9, 3)
       \<lparr>dd_last_sequence_applied = 2, dd_cached_outcome = OcApplied CrCommit\<rparr>
       (tm_client_deduplication demo_machine1)\<rparr>"

definition demo_machine3 :: TabletStateMachine where
  "demo_machine3 = snd (tablet_apply demo_machine2 demo_prewrite_command)"

definition demo_gap_command :: TabletCommandEnvelope where
  "demo_gap_command = demo_command 9 (TcNoop NoopCommand)"

lemma demo_prewrite_applied:
  "tablet_apply demo_machine0 demo_prewrite_command =
     (Inr \<lparr>ao_result = ArPrewrite, ao_deduplicated = False\<rparr>, demo_machine1)"
  by code_simp

lemma demo_commit_applied:
  "tablet_apply demo_machine1 demo_commit_command =
     (Inr \<lparr>ao_result = ArCommit, ao_deduplicated = False\<rparr>, demo_machine2)"
proof -
  let ?ks = "bt_insert demo_key () bt_new" and ?m = "t_storage (tm_tablet demo_machine1)"
  have "validate_proposal demo_machine1 demo_commit_command = Inr ()" by code_simp
  moreover have "legacy_sequence demo_machine1 (RequestId 9 2 3) = None"
    by (simp add: legacy_sequence_def demo_machine1_def checked_add_def)
  moreover have "validate_owned_keys demo_machine1 [demo_key] = Inr ?ks" by code_simp
  moreover have "validate_commit_status_transition demo_machine1 7 5 8 ?ks
      (Some (demo_status (Some 8) Committed)) = Inr (Some (demo_status (Some 8) Committed))" by code_simp
  moreover have "fst (commit_intents_batch ?m 7 5 8 ?ks) = Inr ()" by code_simp
  then obtain m2 where "commit_intents_batch ?m 7 5 8 ?ks = (Inr (), m2)"
    by (metis prod.collapse)
  ultimately show ?thesis
    by (simp add: tablet_apply_def demo_commit_command_def demo_command_def apply_legacy_def
        apply_commit_def demo_machine2_def record_status_def with_storage_def Let_def)
qed

lemma demo_gap: "tablet_apply demo_machine1 demo_gap_command = (Inl (AeRequestSequenceGap 1 2 9), demo_machine1)"
proof -
  have "validate_proposal demo_machine1 demo_gap_command = Inr ()" by code_simp
  moreover have "legacy_sequence demo_machine1 (RequestId 9 9 3) = Some (Inl (AeRequestSequenceGap 1 2 9))"
    by (simp add: legacy_sequence_def demo_machine1_def checked_add_def)
  moreover have "en_request_id demo_gap_command = RequestId 9 9 3" "en_logical_command_id demo_gap_command = None"
    by (simp_all add: demo_gap_command_def demo_command_def)
  ultimately show ?thesis by (simp add: tablet_apply_def apply_legacy_def)
qed

lemma demo_machines_reachable: "tm_reachable demo_machine1" "tm_reachable demo_machine2"
proof -
  have "Tablet_new 5 1 = Inr (projr (Tablet_new 5 1)) \<and>
      TabletStateMachine_new (projr (Tablet_new 5 1)) 1 3 = Inr demo_machine0" by code_simp
  then have "tm_init demo_machine0" unfolding tm_init_def by blast
  then show 1: "tm_reachable demo_machine1"
    unfolding tm_reachable_def using step_apply [OF demo_prewrite_applied] by blast
  then show "tm_reachable demo_machine2"
    unfolding tm_reachable_def
    using rtranclp.rtrancl_into_rtrancl [of tm_step _ demo_machine1 demo_machine2]
      step_apply [OF demo_commit_applied] by blast
qed

lemma demo_decided: "transaction_status demo_machine2 7 = Inr (Some (demo_status (Some 8) Committed))"
  using transaction_status_ok [OF reachable_tm_ok [OF demo_machines_reachable(2)], of 7]
  by (simp add: demo_machine2_def record_status_def)

theorem decisions_are_final_witness:
  "tm_step demo_machine2 demo_machine3 \<and>
   transaction_status demo_machine2 7 = Inr (Some (demo_status (Some 8) Committed)) \<and>
   transaction_status demo_machine3 7 = Inr (Some (demo_status (Some 8) Committed))"
proof -
  have st: "tm_step demo_machine2 demo_machine3" using step_apply [OF prod.collapse [symmetric]] unfolding demo_machine3_def .
  from decisions_are_final [OF demo_machines_reachable(2) r_into_rtranclp [of tm_step, OF st] demo_decided] st demo_decided
  show ?thesis by (auto simp: demo_status_def)
qed

theorem committed_decision_is_written_witness:
  "transaction_status demo_machine2 7 = Inr (Some (demo_status (Some 8) Committed)) \<and>
   history (t_storage (tm_tablet demo_machine2)) demo_key 8 \<noteq> None"
  using committed_decision_is_written [OF demo_machines_reachable(2) demo_decided] demo_decided
  by (simp add: demo_status_def)

theorem command_applied_once_witness:
  "\<exists>r tm3. tablet_apply demo_machine2 demo_commit_command = (r, tm3) \<and> kept demo_machine2 tm3 \<and>
     (r = Inr \<lparr>ao_result = ArCommit, ao_deduplicated = True\<rparr> \<or> (\<exists>err. r = Inl err))"
proof -
  obtain r tm3 where "tablet_apply demo_machine2 demo_commit_command = (r, tm3)" by fastforce
  with command_applied_once [OF demo_machines_reachable(1) demo_commit_applied rtranclp.rtrancl_refl _ this]
  show ?thesis by (simp add: same_request_def)
qed

theorem rejected_command_changes_nothing_witness:
  "tablet_apply demo_machine1 demo_gap_command = (Inl (AeRequestSequenceGap 1 2 9), demo_machine1) \<and>
   kept demo_machine1 demo_machine1 \<and> same_frame demo_machine1 demo_machine1"
  using rejected_command_changes_nothing [OF demo_machines_reachable(1) demo_gap] demo_gap by blast

theorem tablet_snapshot_roundtrip_witness:
  "\<exists>bs. encode_snapshot_state (\<lambda>_. [1]) demo_machine1 = Inr bs \<and>
     restore_from_snapshot (\<lambda>_. Some (projr (TabletStateMachineSnapshot_to_proto (machine_snapshot demo_machine1))))
       (tm_tablet demo_machine1) bs = Inr demo_machine1"
  by (rule tablet_snapshot_roundtrip [OF demo_machines_reachable(1)]) simp

end
