(* ===== verification/Txn_Buffer.thy ===== *)
theory Txn_Buffer
  imports Mvcc_Props "HOL-Library.Option_ord" "HOL-Library.Product_Lexorder"
begin

text \<open>
  The client-side state of one transaction (\<^verbatim>\<open>ragnordb-txn/src/lib.rs\<close>): its ordered write
  set, its recorded reads and the resource limits that every buffered mutation and read is
  checked against. Clock readings are arguments, in nanoseconds.
\<close>

section \<open>Limits and accounting\<close>

record TransactionFootprintPolicy =
  fp_max_age_ms :: u64
  fp_max_write_bytes :: nat
  fp_max_write_keys :: nat
  fp_max_read_spans :: nat
  fp_max_participant_tablets :: nat
  fp_max_intent_accounting_bytes :: nat
  fp_max_participant_command_bytes :: nat

definition default_footprint_policy :: TransactionFootprintPolicy where
  "default_footprint_policy =
     \<lparr>fp_max_age_ms = 60000, fp_max_write_bytes = 64 * 1024 * 1024, fp_max_write_keys = 100000,
      fp_max_read_spans = 4096, fp_max_participant_tablets = 256,
      fp_max_intent_accounting_bytes = 64 * 1024 * 1024, fp_max_participant_command_bytes = 1024 * 1024\<rparr>"

definition policy_validate :: "TransactionFootprintPolicy \<Rightarrow> unit result" where
  "policy_validate p =
     ensure (\<not> (fp_max_age_ms p = 0 \<or> fp_max_write_bytes p = 0 \<or> fp_max_write_keys p = 0 \<or>
       fp_max_read_spans p = 0 \<or> fp_max_participant_tablets p = 0 \<or>
       fp_max_intent_accounting_bytes p = 0 \<or> fp_max_participant_command_bytes p = 0)) InvalidArgument"

record TransactionFootprint =
  tf_age_ms :: u64
  tf_write_bytes :: nat
  tf_write_keys :: nat
  tf_read_spans :: nat
  tf_participant_tablets :: nat
  tf_intent_accounting_bytes :: nat
  tf_participant_command_bytes :: nat

definition INTENT_ACCOUNTING_OVERHEAD_BYTES :: nat where
  "INTENT_ACCOUNTING_OVERHEAD_BYTES = 64"

text \<open>A read interval of one table; the derived order compares table, start and end.\<close>

datatype TransactionReadSpan = TransactionReadSpan
  (rs_table_id: TableId) (rs_start_key: "bytes option") (rs_end_key: "bytes option")

definition read_span_key :: "TransactionReadSpan \<Rightarrow> u64 \<times> bytes option \<times> bytes option" where
  "read_span_key s = (rs_table_id s, rs_start_key s, rs_end_key s)"

lemma read_span_key_inj [simp]: "read_span_key a = read_span_key b \<longleftrightarrow> a = b"
  by (cases a; cases b) (simp add: read_span_key_def)

instantiation TransactionReadSpan :: linorder
begin

definition less_TransactionReadSpan :: "TransactionReadSpan \<Rightarrow> TransactionReadSpan \<Rightarrow> bool" where
  "less_TransactionReadSpan a b \<longleftrightarrow> read_span_key a < read_span_key b"

definition less_eq_TransactionReadSpan :: "TransactionReadSpan \<Rightarrow> TransactionReadSpan \<Rightarrow> bool" where
  "less_eq_TransactionReadSpan a b \<longleftrightarrow> read_span_key a \<le> read_span_key b"

instance
  by standard (auto simp: less_TransactionReadSpan_def less_eq_TransactionReadSpan_def
      simp flip: read_span_key_inj)

end

definition span_bound_ok :: "TableId \<Rightarrow> bytes option \<Rightarrow> unit result" where
  "span_bound_ok table key =
     (case key of
        None \<Rightarrow> Inr ()
      | Some k \<Rightarrow>
          and_then (map_err (\<lambda>_. InvalidArgument) (decode_row_key k)) (\<lambda>row_key.
            ensure (table_id row_key = table) InvalidArgument))"

definition TransactionReadSpan_new ::
  "TableId \<Rightarrow> bytes option \<Rightarrow> bytes option \<Rightarrow> TransactionReadSpan result" where
  "TransactionReadSpan_new table start_key end_key =
     and_then (ensure (table \<noteq> 0) InvalidArgument) (\<lambda>_.
     and_then (try_each (span_bound_ok table) [start_key, end_key]) (\<lambda>_.
     and_then (case (start_key, end_key) of
                 (Some start, Some end_) \<Rightarrow> ensure (\<not> end_ \<le> start) InvalidArgument
               | _ \<Rightarrow> Inr ()) (\<lambda>_.
       Inr (TransactionReadSpan table start_key end_key))))"

section \<open>Transactions\<close>

record Transaction =
  tx_id :: TxnId
  tx_start_ts :: Timestamp
  tx_created_at :: nat
  tx_footprint_policy :: TransactionFootprintPolicy
  tx_writes :: mutations
  tx_read_keys :: "bytes bset"
  tx_read_spans :: "TransactionReadSpan bset"

definition Transaction_new_with_policy ::
  "nat \<Rightarrow> TxnId \<Rightarrow> Timestamp \<Rightarrow> TransactionFootprintPolicy \<Rightarrow> Transaction result" where
  "Transaction_new_with_policy now txn_id start_ts policy =
     and_then (ensure (txn_id \<noteq> 0) InvalidArgument) (\<lambda>_.
     and_then (ensure (start_ts \<noteq> 0) InvalidArgument) (\<lambda>_.
     and_then (policy_validate policy) (\<lambda>_.
       Inr \<lparr>tx_id = txn_id, tx_start_ts = start_ts, tx_created_at = now, tx_footprint_policy = policy,
            tx_writes = bt_new, tx_read_keys = bt_new, tx_read_spans = bt_new\<rparr>)))"

definition Transaction_new :: "nat \<Rightarrow> TxnId \<Rightarrow> Timestamp \<Rightarrow> Transaction result" where
  "Transaction_new now txn_id start_ts =
     Transaction_new_with_policy now txn_id start_ts default_footprint_policy"

definition set_footprint_policy ::
  "Transaction \<Rightarrow> TransactionFootprintPolicy \<Rightarrow> unit result \<times> Transaction" where
  "set_footprint_policy t policy =
     (case policy_validate policy of
        Inl e \<Rightarrow> (Inl e, t)
      | Inr _ \<Rightarrow>
          if \<not> bt_is_empty (tx_writes t) \<or> \<not> bt_is_empty (tx_read_keys t) \<or> \<not> bt_is_empty (tx_read_spans t)
          then (Inl InvalidArgument, t)
          else (Inr (), t\<lparr>tx_footprint_policy := policy\<rparr>))"

definition mutation_footprint :: "bytes \<Rightarrow> Mutation \<Rightarrow> nat \<times> nat" where
  "mutation_footprint key mutation =
     (let row_bytes = (case mutation of PutMutation row \<Rightarrow> length row | DeleteMutation \<Rightarrow> 0);
          payload_bytes = saturating_add_usize (length key) row_bytes in
      (payload_bytes, saturating_add_usize payload_bytes INTENT_ACCOUNTING_OVERHEAD_BYTES))"

definition write_footprint :: "mutations \<Rightarrow> nat \<times> nat" where
  "write_footprint writes =
     fold (\<lambda>(key, mutation) (write_bytes, intent_bytes).
       case mutation_footprint key mutation of (payload_bytes, mutation_intent_bytes) \<Rightarrow>
         (saturating_add_usize write_bytes payload_bytes,
          saturating_add_usize intent_bytes mutation_intent_bytes)) (bt_iter writes) (0, 0)"

definition elapsed_ms :: "nat \<Rightarrow> nat \<Rightarrow> u64" where
  "elapsed_ms now since = word_of_nat (min ((now - since) div 1000000) (2 ^ 64 - 1))"

definition footprint :: "nat \<Rightarrow> Transaction \<Rightarrow> TransactionFootprint" where
  "footprint now t =
     (case write_footprint (tx_writes t) of (write_bytes, intent_accounting_bytes) \<Rightarrow>
        \<lparr>tf_age_ms = elapsed_ms now (tx_created_at t), tf_write_bytes = write_bytes,
         tf_write_keys = bt_len (tx_writes t),
         tf_read_spans = saturating_add_usize (bt_len (tx_read_keys t)) (bt_len (tx_read_spans t)),
         tf_participant_tablets = 0, tf_intent_accounting_bytes = intent_accounting_bytes,
         tf_participant_command_bytes = 0\<rparr>)"

definition validate_age_at :: "nat \<Rightarrow> Transaction \<Rightarrow> unit result" where
  "validate_age_at now t =
     ensure (\<not> now - tx_created_at t > unat (fp_max_age_ms (tx_footprint_policy t)) * 1000000) InvalidArgument"

definition check_limit :: "nat \<Rightarrow> nat \<Rightarrow> unit result" where
  "check_limit limit actual = ensure (\<not> actual > limit) InvalidArgument"

section \<open>Reads\<close>

definition record_read :: "nat \<Rightarrow> Transaction \<Rightarrow> bytes \<Rightarrow> unit result \<times> Transaction" where
  "record_read now t key =
     (case and_then (validate_age_at now t) (\<lambda>_.
           and_then (map_err (\<lambda>_. InvalidArgument) (decode_row_key key)) (\<lambda>_.
             let is_new = \<not> bt_contains_key (tx_read_keys t) key;
                 current_reads = saturating_add_usize (bt_len (tx_read_keys t)) (bt_len (tx_read_spans t)) in
             ensure (\<not> (is_new \<and> current_reads \<ge> fp_max_read_spans (tx_footprint_policy t))) InvalidArgument)) of
        Inl e \<Rightarrow> (Inl e, t)
      | Inr _ \<Rightarrow> (Inr (), t\<lparr>tx_read_keys := bs_insert key (tx_read_keys t)\<rparr>))"

definition record_read_span :: "nat \<Rightarrow> Transaction \<Rightarrow> TransactionReadSpan \<Rightarrow> unit result \<times> Transaction" where
  "record_read_span now t span =
     (case and_then (validate_age_at now t) (\<lambda>_.
             let is_new = \<not> bt_contains_key (tx_read_spans t) span;
                 current_reads = saturating_add_usize (bt_len (tx_read_keys t)) (bt_len (tx_read_spans t)) in
             ensure (\<not> (is_new \<and> current_reads \<ge> fp_max_read_spans (tx_footprint_policy t))) InvalidArgument) of
        Inl e \<Rightarrow> (Inl e, t)
      | Inr _ \<Rightarrow> (Inr (), t\<lparr>tx_read_spans := bs_insert span (tx_read_spans t)\<rparr>))"

section \<open>Writes\<close>

definition validate_buffered_mutation :: "bytes \<Rightarrow> Mutation \<Rightarrow> unit result" where
  "validate_buffered_mutation key mutation =
     and_then (map_err (\<lambda>_. InvalidArgument) (decode_row_key key)) (\<lambda>_.
       case mutation of
         PutMutation row \<Rightarrow> and_then (map_err (\<lambda>_. InvalidArgument) (decode_row row)) (\<lambda>_. Inr ())
       | DeleteMutation \<Rightarrow> Inr ())"

text \<open>The loop of \<^verbatim>\<open>check_projected_writes\<close>: bytes, keys and intent bytes so far.\<close>

definition project_addition ::
  "mutations \<Rightarrow> bytes \<times> Mutation \<Rightarrow> nat \<times> nat \<times> nat \<Rightarrow> nat \<times> nat \<times> nat" where
  "project_addition writes = (\<lambda>(key, mutation) (projected_bytes, projected_keys, projected_intent_bytes).
     let (bytes1, keys1, intent1) =
           (case bt_get writes key of
              Some previous \<Rightarrow>
                (case mutation_footprint key previous of (old_write_bytes, old_intent_bytes) \<Rightarrow>
                   (projected_bytes - old_write_bytes, projected_keys, projected_intent_bytes - old_intent_bytes))
            | None \<Rightarrow> (projected_bytes, saturating_add_usize projected_keys 1, projected_intent_bytes));
         (write_bytes, intent_bytes) = mutation_footprint key mutation in
     (saturating_add_usize bytes1 write_bytes, keys1, saturating_add_usize intent1 intent_bytes))"

definition check_projected_writes ::
  "nat \<Rightarrow> Transaction \<Rightarrow> (bytes \<times> Mutation) list \<Rightarrow> unit result" where
  "check_projected_writes now t additions =
     and_then (validate_age_at now t) (\<lambda>_.
       case fold (project_addition (tx_writes t)) additions
              (tf_write_bytes (footprint now t), bt_len (tx_writes t),
               tf_intent_accounting_bytes (footprint now t)) of
         (projected_bytes, projected_keys, projected_intent_bytes) \<Rightarrow>
           and_then (check_limit (fp_max_write_bytes (tx_footprint_policy t)) projected_bytes) (\<lambda>_.
           and_then (check_limit (fp_max_write_keys (tx_footprint_policy t)) projected_keys) (\<lambda>_.
             check_limit (fp_max_intent_accounting_bytes (tx_footprint_policy t)) projected_intent_bytes)))"

definition buffer_put :: "nat \<Rightarrow> Transaction \<Rightarrow> bytes \<Rightarrow> bytes \<Rightarrow> unit result \<times> Transaction" where
  "buffer_put now t key row =
     (let mutation = PutMutation row in
      case and_then (validate_buffered_mutation key mutation) (\<lambda>_. check_projected_writes now t [(key, mutation)]) of
        Inl e \<Rightarrow> (Inl e, t)
      | Inr _ \<Rightarrow> (Inr (), t\<lparr>tx_writes := bt_insert key mutation (tx_writes t)\<rparr>))"

definition buffer_delete :: "nat \<Rightarrow> Transaction \<Rightarrow> bytes \<Rightarrow> unit result \<times> Transaction" where
  "buffer_delete now t key =
     (let mutation = DeleteMutation in
      case and_then (validate_buffered_mutation key mutation) (\<lambda>_. check_projected_writes now t [(key, mutation)]) of
        Inl e \<Rightarrow> (Inl e, t)
      | Inr _ \<Rightarrow> (Inr (), t\<lparr>tx_writes := bt_insert key mutation (tx_writes t)\<rparr>))"

definition buffer_batch :: "nat \<Rightarrow> Transaction \<Rightarrow> mutations \<Rightarrow> unit result \<times> Transaction" where
  "buffer_batch now t writes =
     (case and_then (try_each (\<lambda>(key, mutation). validate_buffered_mutation key mutation) (bt_iter writes))
             (\<lambda>_. check_projected_writes now t (bt_iter writes)) of
        Inl e \<Rightarrow> (Inl e, t)
      | Inr _ \<Rightarrow> (Inr (), t\<lparr>tx_writes := bt_extend (tx_writes t) writes\<rparr>))"

definition validate_distributed_footprint ::
  "nat \<Rightarrow> Transaction \<Rightarrow> nat \<Rightarrow> nat \<Rightarrow> nat \<Rightarrow> bool \<Rightarrow> TransactionFootprint result" where
  "validate_distributed_footprint now t participant_tablets participant_command_bytes
       status_accounting_bytes check_age =
     and_then (if check_age then validate_age_at now t else Inr ()) (\<lambda>_.
       let p = tx_footprint_policy t;
           f0 = footprint now t;
           f = f0\<lparr>tf_participant_tablets := participant_tablets,
                   tf_participant_command_bytes := participant_command_bytes,
                   tf_intent_accounting_bytes :=
                     saturating_add_usize (tf_intent_accounting_bytes f0) status_accounting_bytes\<rparr> in
       and_then (check_limit (fp_max_write_bytes p) (tf_write_bytes f)) (\<lambda>_.
       and_then (check_limit (fp_max_write_keys p) (tf_write_keys f)) (\<lambda>_.
       and_then (check_limit (fp_max_read_spans p) (tf_read_spans f)) (\<lambda>_.
       and_then (check_limit (fp_max_participant_tablets p) (tf_participant_tablets f)) (\<lambda>_.
       and_then (check_limit (fp_max_intent_accounting_bytes p) (tf_intent_accounting_bytes f)) (\<lambda>_.
       and_then (check_limit (fp_max_participant_command_bytes p) (tf_participant_command_bytes f)) (\<lambda>_.
         Inr f)))))))"

section \<open>Exact accounting\<close>

text \<open>
  \<open>charge g m\<close> adds up a cost over the bindings of a map. The saturating folds of the
  source compute it cut off at \<^term>\<open>usize_max\<close>.
\<close>

definition charge :: "('k \<Rightarrow> 'v \<Rightarrow> nat) \<Rightarrow> ('k::linorder, 'v) btree \<Rightarrow> nat" where
  "charge g m = (\<Sum>k\<in>dom (bt_get m). g k (the (bt_get m k)))"

definition payload :: "bytes \<Rightarrow> Mutation \<Rightarrow> nat" where
  "payload key mutation = length key + (case mutation of PutMutation row \<Rightarrow> length row | DeleteMutation \<Rightarrow> 0)"

definition intent_cost :: "bytes \<Rightarrow> Mutation \<Rightarrow> nat" where
  "intent_cost key mutation = payload key mutation + INTENT_ACCOUNTING_OVERHEAD_BYTES"

lemma finite_bt_dom [simp]: "finite (dom (bt_get m))"
  by (metis finite_set set_bt_keys)

lemma charge_iter: "charge g m = (\<Sum>(k, v)\<leftarrow>bt_iter m. g k v)"
proof -
  have "(\<Sum>(k, v)\<leftarrow>bt_iter m. g k v) = (\<Sum>x\<in>set (bt_iter m). case x of (k, v) \<Rightarrow> g k v)"
    using bt.iter_distinct [of m] by (simp add: sum_list_distinct_conv_sum_set distinct_map)
  also have "\<dots> = (\<Sum>k\<in>dom (bt_get m). g k (the (bt_get m k)))"
    by (rule sum.reindex_bij_witness [of _ "\<lambda>k. (k, the (bt_get m k))" fst])
      (auto simp: bt.iter_mem)
  finally show ?thesis by (simp add: charge_def)
qed

lemma charge_new [simp]: "charge g bt_new = 0"
  by (simp add: charge_def dom_def)

lemma charge_insert:
  "charge g (bt_insert k v m) + (case bt_get m k of None \<Rightarrow> 0 | Some old \<Rightarrow> g k old) = charge g m + g k v"
proof -
  let ?rest = "\<Sum>x\<in>dom (bt_get m) - {k}. g x (the (bt_get m x))"
  have "charge g (bt_insert k v m) = g k v + ?rest"
    by (auto simp: charge_def sum.insert_remove intro: sum.cong)
  moreover have "charge g m = (case bt_get m k of None \<Rightarrow> 0 | Some old \<Rightarrow> g k old) + ?rest"
    by (cases "bt_get m k") (auto simp: charge_def sum.remove [of _ k] domIff)
  ultimately show ?thesis by simp
qed

lemma charge_one: "charge (\<lambda>_ _. 1) m = bt_len m"
  by (simp add: charge_def bt_len_card)

lemma charge_old:
  assumes "bt_get m k = Some a"
  shows "g k a \<le> charge g m"
  using assms member_le_sum [of k "dom (bt_get m)" "\<lambda>k. g k (the (bt_get m k))"]
  by (simp add: charge_def domIff)

lemma charge_mono: "(\<And>k v. g k v \<le> h k v) \<Longrightarrow> charge g m \<le> charge h m"
  by (simp add: charge_def sum_mono)

lemma bt_len_insert: "bt_len (bt_insert k v m) = (if bt_get m k = None then Suc (bt_len m) else bt_len m)"
  using charge_insert [of "\<lambda>_ _. 1" k v m] unfolding charge_one by (auto split: option.splits)

lemma sat_add_min: "saturating_add_usize (min a usize_max) (min b usize_max) = min (a + b) usize_max"
  by (simp add: saturating_add_usize_def min_def)

lemma mutation_footprint_min:
  "mutation_footprint k mu = (min (payload k mu) usize_max, min (intent_cost k mu) usize_max)"
  by (cases mu) (auto simp: mutation_footprint_def payload_def intent_cost_def
      saturating_add_usize_def min_def Let_def)

lemma fold_footprint:
  "fold (\<lambda>(key, mutation) (write_bytes, intent_bytes).
     case mutation_footprint key mutation of (p, i) \<Rightarrow>
       (saturating_add_usize write_bytes p, saturating_add_usize intent_bytes i)) xs
     (min a usize_max, min b usize_max) =
   (min (a + (\<Sum>(k, v)\<leftarrow>xs. payload k v)) usize_max, min (b + (\<Sum>(k, v)\<leftarrow>xs. intent_cost k v)) usize_max)"
  by (induction xs arbitrary: a b) (auto simp: mutation_footprint_min sat_add_min add.assoc)

lemma write_footprint_min:
  "write_footprint m = (min (charge payload m) usize_max, min (charge intent_cost m) usize_max)"
  using fold_footprint [of "bt_iter m" 0 0] by (simp add: write_footprint_def charge_iter)

text \<open>A batch whose total cost is representable is projected exactly.\<close>

definition charges :: "mutations \<Rightarrow> nat \<times> nat \<times> nat" where
  "charges m = (charge payload m, bt_len m, charge intent_cost m)"

definition batch_fits :: "mutations \<Rightarrow> (bytes \<times> Mutation) list \<Rightarrow> bool" where
  "batch_fits m xs \<longleftrightarrow> charge intent_cost m + (\<Sum>(k, v)\<leftarrow>xs. intent_cost k v) \<le> usize_max"

lemma payload_le_intent: "payload k v \<le> intent_cost k v" "1 \<le> intent_cost k v"
  by (simp_all add: intent_cost_def INTENT_ACCOUNTING_OVERHEAD_BYTES_def)

lemma charge_le_intent: "charge payload m \<le> charge intent_cost m" "bt_len m \<le> charge intent_cost m"
  unfolding charge_one [symmetric] by (rule charge_mono, rule payload_le_intent)+

lemma project_addition_exact:
  assumes "batch_fits cur ((k, v) # xs)" and "bt_get cur k = bt_get writes k"
  shows "project_addition writes (k, v) (charges cur) = charges (bt_insert k v cur)"
proof -
  have fits: "charge intent_cost cur + intent_cost k v \<le> usize_max" using assms(1) by (simp add: batch_fits_def)
  then have "charge payload cur + payload k v \<le> usize_max" "bt_len cur + 1 \<le> usize_max"
    using charge_le_intent [of cur] payload_le_intent [of k v] by linarith+
  then show ?thesis
    using fits charge_insert [of payload k v cur] charge_insert [of intent_cost k v cur] assms(2) [symmetric]
      charge_old [of cur k _ payload] charge_old [of cur k _ intent_cost]
    by (cases "bt_get cur k")
      (auto simp: project_addition_def charges_def bt_len_insert mutation_footprint_min saturating_add_usize_def
        min_def)
qed

lemma project_exact:
  assumes "batch_fits cur xs" and "distinct (map fst xs)" and "\<forall>k\<in>set (map fst xs). bt_get cur k = bt_get writes k"
  shows "fold (project_addition writes) xs (charges cur) = charges (fold (\<lambda>(k, v). bt_insert k v) xs cur)"
  using assms
proof (induction xs arbitrary: cur)
  case (Cons x xs)
  obtain k v where x: "x = (k, v)" by (cases x)
  have "project_addition writes x (charges cur) = charges (bt_insert k v cur)"
    using project_addition_exact Cons.prems x by auto
  moreover have "batch_fits (bt_insert k v cur) xs"
    using Cons.prems(1) charge_insert [of intent_cost k v cur] by (auto simp: batch_fits_def x)
  moreover have "\<forall>k'\<in>set (map fst xs). bt_get (bt_insert k v cur) k' = bt_get writes k'"
    using Cons.prems(2,3) x by auto
  ultimately show ?case using Cons.IH [of "bt_insert k v cur"] Cons.prems(2) x by simp
qed simp

section \<open>Lives of transactions\<close>

text \<open>
  \<open>tx_step\<close> is one call of the client interface. What the process buffers fits its address
  space (\<open>batch_fits\<close>), and the limits of a policy are \<^verbatim>\<open>usize\<close> values.
\<close>

definition policy_usize :: "TransactionFootprintPolicy \<Rightarrow> bool" where
  "policy_usize p \<longleftrightarrow> fp_max_write_bytes p \<le> usize_max \<and> fp_max_write_keys p \<le> usize_max \<and>
     fp_max_read_spans p \<le> usize_max \<and> fp_max_participant_tablets p \<le> usize_max \<and>
     fp_max_intent_accounting_bytes p \<le> usize_max \<and> fp_max_participant_command_bytes p \<le> usize_max"

definition tx_init :: "Transaction \<Rightarrow> bool" where
  "tx_init t \<longleftrightarrow> (\<exists>now i ts p. Transaction_new_with_policy now i ts p = Inr t \<and> policy_usize p)"

inductive tx_step :: "Transaction \<Rightarrow> Transaction \<Rightarrow> bool" where
  step_put: "buffer_put now t k row = (r, t') \<Longrightarrow> batch_fits (tx_writes t) [(k, PutMutation row)] \<Longrightarrow> tx_step t t'"
| step_delete: "buffer_delete now t k = (r, t') \<Longrightarrow> batch_fits (tx_writes t) [(k, DeleteMutation)] \<Longrightarrow> tx_step t t'"
| step_batch: "buffer_batch now t ws = (r, t') \<Longrightarrow> batch_fits (tx_writes t) (bt_iter ws) \<Longrightarrow> tx_step t t'"
| step_read: "record_read now t k = (r, t') \<Longrightarrow> tx_step t t'"
| step_span: "record_read_span now t sp = (r, t') \<Longrightarrow> tx_step t t'"
| step_policy: "set_footprint_policy t p = (r, t') \<Longrightarrow> policy_usize p \<Longrightarrow> tx_step t t'"

definition tx_reachable :: "Transaction \<Rightarrow> bool" where
  "tx_reachable t \<longleftrightarrow> (\<exists>t0. tx_init t0 \<and> tx_step\<^sup>*\<^sup>* t0 t)"

definition writes_within :: "TransactionFootprintPolicy \<Rightarrow> mutations \<Rightarrow> bool" where
  "writes_within p w \<longleftrightarrow> charge payload w \<le> fp_max_write_bytes p \<and> bt_len w \<le> fp_max_write_keys p \<and>
     charge intent_cost w \<le> fp_max_intent_accounting_bytes p"

definition writes_valid :: "mutations \<Rightarrow> bool" where
  "writes_valid w \<longleftrightarrow> (\<forall>k mu. bt_get w k = Some mu \<longrightarrow> key_ok k \<and> mutation_ok mu)"

definition tx_ok :: "Transaction \<Rightarrow> bool" where
  "tx_ok t \<longleftrightarrow> tx_id t \<noteq> 0 \<and> tx_start_ts t \<noteq> 0 \<and> policy_usize (tx_footprint_policy t) \<and>
     writes_within (tx_footprint_policy t) (tx_writes t) \<and> writes_valid (tx_writes t) \<and>
     bt_len (tx_read_keys t) + bt_len (tx_read_spans t) \<le> fp_max_read_spans (tx_footprint_policy t)"

lemma validate_buffered_mutation_Inr:
  "validate_buffered_mutation k mu = Inr u \<longleftrightarrow> key_ok k \<and> mutation_ok mu"
  by (cases mu) (auto simp: validate_buffered_mutation_def and_then_eq_Inr map_err_eq_Inr key_ok_def
      mutation_ok_def row_ok_iff is_ok_iff)

lemma check_limit_Inr: "check_limit l n = Inr u \<longleftrightarrow> n \<le> l"
  by (auto simp: check_limit_def ensure_eq_Inr)

lemma footprint_exact:
  assumes "charge intent_cost (tx_writes t) \<le> usize_max"
  shows "(tf_write_bytes (footprint now t), bt_len (tx_writes t), tf_intent_accounting_bytes (footprint now t)) =
    charges (tx_writes t)"
  using assms charge_le_intent [of "tx_writes t"]
  by (simp add: footprint_def write_footprint_min charges_def min_def)

lemma check_projected_writes_Inr:
  assumes "batch_fits (tx_writes t) xs" and "distinct (map fst xs)" and "check_projected_writes now t xs = Inr u"
  shows "writes_within (tx_footprint_policy t) (fold (\<lambda>(k, v). bt_insert k v) xs (tx_writes t))"
proof -
  have "charge intent_cost (tx_writes t) \<le> usize_max" using assms(1) by (simp add: batch_fits_def)
  from footprint_exact [OF this] project_exact [OF assms(1,2), of "tx_writes t"] assms(3)
  show ?thesis
    by (auto simp: check_projected_writes_def and_then_eq_Inr check_limit_Inr writes_within_def charges_def)
qed

lemma writes_valid_fold:
  assumes "writes_valid w" and "\<forall>(k, v)\<in>set xs. key_ok k \<and> mutation_ok v"
  shows "writes_valid (fold (\<lambda>(k, v). bt_insert k v) xs w)"
  using assms
proof (induction xs arbitrary: w)
  case (Cons x xs)
  obtain k v where x: "x = (k, v)" by (cases x)
  have "writes_valid (bt_insert k v w)" using Cons.prems x by (simp add: writes_valid_def)
  with Cons x show ?case by simp
qed simp

lemma bs_insert_len: "bt_len (bs_insert k s) = (if bt_contains_key s k then bt_len s else Suc (bt_len s))"
  by (auto simp: bs_insert_def bt_len_insert bt_contains_key_iff)

lemma tx_ok_writes:
  assumes "tx_ok t" and "batch_fits (tx_writes t) xs" and "distinct (map fst xs)"
    and "check_projected_writes now t xs = Inr u" and "\<forall>(k, v)\<in>set xs. key_ok k \<and> mutation_ok v"
    and "w = fold (\<lambda>(k, v). bt_insert k v) xs (tx_writes t)"
  shows "tx_ok (t\<lparr>tx_writes := w\<rparr>)"
proof -
  have "writes_within (tx_footprint_policy t) w" using check_projected_writes_Inr [OF assms(2-4)] assms(6) by simp
  moreover have "writes_valid w" using writes_valid_fold [OF _ assms(5)] assms(1,6) by (simp add: tx_ok_def)
  ultimately show ?thesis using assms(1) by (simp add: tx_ok_def)
qed

lemma write_op_ok:
  assumes "(case and_then v (\<lambda>_. check_projected_writes now t xs) of
      Inl e \<Rightarrow> (Inl e, t) | Inr _ \<Rightarrow> (Inr (), t\<lparr>tx_writes := w\<rparr>)) = (r, t')"
    and "v = Inr () \<Longrightarrow> \<forall>(k, v)\<in>set xs. key_ok k \<and> mutation_ok v"
    and "w = fold (\<lambda>(k, v). bt_insert k v) xs (tx_writes t)" and "distinct (map fst xs)"
    and "batch_fits (tx_writes t) xs" and "tx_ok t"
  shows "tx_ok t'"
proof (cases "and_then v (\<lambda>_. check_projected_writes now t xs)")
  case (Inr u)
  then have "v = Inr ()" "check_projected_writes now t xs = Inr u" by (auto simp: and_then_eq_Inr)
  with assms Inr tx_ok_writes [OF assms(6,5,4)] show ?thesis by simp
qed (use assms in simp)

lemma sat_add_exact: "a + b \<le> usize_max \<Longrightarrow> saturating_add_usize a b = a + b"
  by (simp add: saturating_add_usize_def)

lemma tx_reads_exact:
  "tx_ok t \<Longrightarrow> saturating_add_usize (bt_len (tx_read_keys t)) (bt_len (tx_read_spans t)) =
     bt_len (tx_read_keys t) + bt_len (tx_read_spans t)"
  by (rule sat_add_exact) (auto simp: tx_ok_def policy_usize_def)

lemma record_read_ok:
  assumes "record_read now t k = (r, t')" and "tx_ok t"
  shows "tx_ok t'"
proof (cases r)
  case (Inr u)
  then have "t' = t\<lparr>tx_read_keys := bs_insert k (tx_read_keys t)\<rparr>"
    "bt_contains_key (tx_read_keys t) k \<or>
       bt_len (tx_read_keys t) + bt_len (tx_read_spans t) < fp_max_read_spans (tx_footprint_policy t)"
    using assms(1) tx_reads_exact [OF assms(2)]
    by (auto simp: record_read_def and_then_eq_Inr ensure_eq_Inr Let_def not_le split: sum.splits)
  with assms(2) show ?thesis by (auto simp: tx_ok_def bs_insert_len)
qed (use assms in \<open>auto simp: record_read_def split: sum.splits\<close>)

lemma record_read_span_ok:
  assumes "record_read_span now t sp = (r, t')" and "tx_ok t"
  shows "tx_ok t'"
proof (cases r)
  case (Inr u)
  then have "t' = t\<lparr>tx_read_spans := bs_insert sp (tx_read_spans t)\<rparr>"
    "bt_contains_key (tx_read_spans t) sp \<or>
       bt_len (tx_read_keys t) + bt_len (tx_read_spans t) < fp_max_read_spans (tx_footprint_policy t)"
    using assms(1) tx_reads_exact [OF assms(2)]
    by (auto simp: record_read_span_def and_then_eq_Inr ensure_eq_Inr Let_def not_le split: sum.splits)
  with assms(2) show ?thesis by (auto simp: tx_ok_def bs_insert_len)
qed (use assms in \<open>auto simp: record_read_span_def split: sum.splits\<close>)

lemma empty_map [simp]: "bt_is_empty m \<Longrightarrow> bt_len m = 0" "bt_is_empty m \<Longrightarrow> charge g m = 0"
  by (simp_all add: bt_is_empty_iff bt_len_card charge_def dom_def)

lemma set_footprint_policy_ok:
  assumes "set_footprint_policy t p = (r, t')" and "tx_ok t" and "policy_usize p"
  shows "tx_ok t'"
proof (cases r)
  case (Inr u)
  with assms(1) have "bt_is_empty (tx_writes t)" "bt_is_empty (tx_read_keys t)" "bt_is_empty (tx_read_spans t)"
    "t' = t\<lparr>tx_footprint_policy := p\<rparr>"
    by (auto simp: set_footprint_policy_def split: sum.splits if_splits)
  with assms(2,3) show ?thesis by (simp add: tx_ok_def writes_within_def)
qed (use assms in \<open>auto simp: set_footprint_policy_def split: sum.splits if_splits\<close>)

lemma tx_init_ok: "tx_init t \<Longrightarrow> tx_ok t"
  by (auto simp: tx_init_def Transaction_new_with_policy_def and_then_eq_Inr ensure_eq_Inr tx_ok_def
      writes_within_def writes_valid_def bt_len_card dom_def)

lemma tx_step_ok:
  assumes "tx_step t t'" and "tx_ok t"
  shows "tx_ok t'"
  using assms
proof cases
  case (step_put now k row r)
  from step_put(1) have "(case and_then (validate_buffered_mutation k (PutMutation row))
      (\<lambda>_. check_projected_writes now t [(k, PutMutation row)]) of
      Inl e \<Rightarrow> (Inl e, t) | Inr _ \<Rightarrow> (Inr (), t\<lparr>tx_writes := bt_insert k (PutMutation row) (tx_writes t)\<rparr>)) = (r, t')"
    by (simp add: buffer_put_def Let_def)
  from write_op_ok [OF this] step_put(2) assms(2) show ?thesis by (simp add: validate_buffered_mutation_Inr)
next
  case (step_delete now k r)
  from step_delete(1) have "(case and_then (validate_buffered_mutation k DeleteMutation)
      (\<lambda>_. check_projected_writes now t [(k, DeleteMutation)]) of
      Inl e \<Rightarrow> (Inl e, t) | Inr _ \<Rightarrow> (Inr (), t\<lparr>tx_writes := bt_insert k DeleteMutation (tx_writes t)\<rparr>)) = (r, t')"
    by (simp add: buffer_delete_def Let_def)
  from write_op_ok [OF this] step_delete(2) assms(2) show ?thesis by (simp add: validate_buffered_mutation_Inr)
next
  case (step_batch now ws r)
  have valid: "\<forall>(k, v)\<in>set (bt_iter ws). key_ok k \<and> mutation_ok v"
    if "try_each (\<lambda>(key, mutation). validate_buffered_mutation key mutation) (bt_iter ws) = Inr ()"
    using that by (auto simp: try_each_eq_Inr validate_buffered_mutation_Inr)
  show ?thesis
    by (rule write_op_ok [OF step_batch(1) [unfolded buffer_batch_def]])
      (use valid step_batch(2) assms(2) bt.iter_distinct in \<open>simp_all add: bt_extend_def\<close>)
next
  case (step_read now k r)
  from record_read_ok [OF this assms(2)] show ?thesis .
next
  case (step_span now sp r)
  from record_read_span_ok [OF this assms(2)] show ?thesis .
next
  case (step_policy p r)
  from set_footprint_policy_ok [OF this(1) assms(2) this(2)] show ?thesis .
qed

interpretation transaction_life: step_invariant tx_init tx_step tx_ok
  by unfold_locales (auto intro: tx_init_ok tx_step_ok)

lemma reachable_tx_ok: "tx_reachable t \<Longrightarrow> tx_ok t"
  using transaction_life.reachable_inv unfolding tx_reachable_def by blast

lemma free_key_prepares:
  assumes "key_inv m k" and "lk m k = None" and "dv m k s = None" and "unfenced m k s" and "key_ok k" and "mutation_ok mu"
  shows "\<exists>d. prepare_prewrite m txn s k mu pk ttl = Inr d"
  using assms validate_write_history_eq [OF key_invD(1) [OF assms(1)], of s]
  by (simp add: prepare_prewrite_Inr validate_mutation_Inr)

text \<open>An operation is accepted only while the transaction is young enough.\<close>

lemma accepted_within_age:
  assumes "fst (buffer_put now t k row) = Inr () \<or> fst (buffer_delete now t k) = Inr () \<or>
      fst (buffer_batch now t ws) = Inr () \<or> fst (record_read now t k) = Inr () \<or>
      fst (record_read_span now t sp) = Inr ()"
  shows "now - tx_created_at t \<le> unat (fp_max_age_ms (tx_footprint_policy t)) * 1000000"
proof -
  have "validate_age_at now t = Inr ()"
    using assms
    by (auto simp: buffer_put_def buffer_delete_def buffer_batch_def record_read_def record_read_span_def
        check_projected_writes_def and_then_eq_Inr Let_def split: sum.splits)
  then show ?thesis by (simp add: validate_age_at_def ensure_eq_Inr)
qed

text \<open>
  C15. Resource limits hold throughout: whatever sequence of reads, writes and batches a client
  issues, accepted or refused, the accounted footprint of the transaction is exact and never
  exceeds the limits of its policy. The write bytes are the sizes of the buffered keys and
  rows, the intent bytes are those sizes with 64 bytes more for each key, and the keys and
  reads are counted once each, so rewriting a key charges only its final mutation. The age is
  not a quantity of the state: it is enforced on every call, and no write or read is accepted
  later than the maximal age after the transaction began.
\<close>

theorem transaction_within_limits:
  assumes "tx_reachable t"
  shows "tf_write_bytes (footprint now t) = charge payload (tx_writes t) \<and>
    tf_write_keys (footprint now t) = card (dom (bt_get (tx_writes t))) \<and>
    tf_intent_accounting_bytes (footprint now t) = charge (\<lambda>k mu. payload k mu + 64) (tx_writes t) \<and>
    tf_read_spans (footprint now t) =
      card (dom (bt_get (tx_read_keys t))) + card (dom (bt_get (tx_read_spans t))) \<and>
    tf_write_bytes (footprint now t) \<le> fp_max_write_bytes (tx_footprint_policy t) \<and>
    tf_write_keys (footprint now t) \<le> fp_max_write_keys (tx_footprint_policy t) \<and>
    tf_intent_accounting_bytes (footprint now t) \<le> fp_max_intent_accounting_bytes (tx_footprint_policy t) \<and>
    tf_read_spans (footprint now t) \<le> fp_max_read_spans (tx_footprint_policy t) \<and>
    (fst (buffer_put now t k row) = Inr () \<or> fst (buffer_delete now t k) = Inr () \<or>
      fst (buffer_batch now t ws) = Inr () \<or> fst (record_read now t k) = Inr () \<or>
      fst (record_read_span now t sp) = Inr () \<longrightarrow>
      now - tx_created_at t \<le> unat (fp_max_age_ms (tx_footprint_policy t)) * 1000000)"
proof -
  note ok = reachable_tx_ok [OF assms]
  then have w: "writes_within (tx_footprint_policy t) (tx_writes t)" "charge intent_cost (tx_writes t) \<le> usize_max"
    by (auto simp: tx_ok_def writes_within_def policy_usize_def)
  have "intent_cost = (\<lambda>k mu. payload k mu + 64)"
    by (simp add: fun_eq_iff intent_cost_def INTENT_ACCOUNTING_OVERHEAD_BYTES_def)
  moreover have "tf_read_spans (footprint now t) = bt_len (tx_read_keys t) + bt_len (tx_read_spans t)"
    by (simp add: footprint_def tx_reads_exact [OF ok] split: prod.splits)
  moreover have "tf_write_keys (footprint now t) = bt_len (tx_writes t)"
    by (simp add: footprint_def split: prod.splits)
  ultimately show ?thesis
    using footprint_exact [OF w(2), of now] ok w(1) accepted_within_age [of now t k row ws sp]
    by (simp add: charges_def writes_within_def tx_ok_def flip: bt_len_card)
qed

text \<open>
  C16. What a transaction buffers the MVCC engine accepts: prewriting the write set of any
  non-empty transaction on a reachable engine, with one of its keys as primary, succeeds
  whenever its keys are unlocked, have no payload at the start timestamp and no committed or
  rolled back version that fences it. Buffering has already excluded every malformed mutation.
\<close>

theorem buffered_writes_prewrite:
  assumes "tx_reachable t" and "mvcc_reachable m" and "bt_get (tx_writes t) pk = Some mu0" and "ttl \<noteq> 0"
    and "\<And>k. bt_get (tx_writes t) k \<noteq> None \<Longrightarrow>
      lk m k = None \<and> dv m k (tx_start_ts t) = None \<and> unfenced m k (tx_start_ts t)"
  shows "fst (prewrite_batch m (tx_id t) (tx_start_ts t) (tx_writes t) pk ttl) = Inr ()"
proof -
  have ok: "tx_id t \<noteq> 0" "tx_start_ts t \<noteq> 0" "writes_valid (tx_writes t)"
    using reachable_tx_ok [OF assms(1)] by (simp_all add: tx_ok_def)
  have inv: "key_inv m k" for k using reachable_mvcc_inv [OF assms(2)] by (simp add: mvcc_inv_def)
  have "\<exists>ps. try_filter_map (\<lambda>(k, mu). prepare_prewrite m (tx_id t) (tx_start_ts t) k mu pk ttl) (bt_iter (tx_writes t)) = Inr ps"
  proof (rule try_filter_map_all_Inr)
    fix x
    assume "x \<in> set (bt_iter (tx_writes t))"
    then obtain k mu where x: "x = (k, mu)" "bt_get (tx_writes t) k = Some mu"
      using bt.iter_mem by (metis surj_pair)
    with ok(3) assms(5) [of k] free_key_prepares [OF inv] show
      "\<exists>y. (case x of (k, mu) \<Rightarrow> prepare_prewrite m (tx_id t) (tx_start_ts t) k mu pk ttl) = Inr y"
      by (simp add: writes_valid_def)
  qed
  then obtain ps where "try_filter_map (\<lambda>(k, mu). prepare_prewrite m (tx_id t) (tx_start_ts t) k mu pk ttl)
      (bt_iter (tx_writes t)) = Inr ps" by blast
  moreover have "key_ok pk" using ok(3) assms(3) by (auto simp: writes_valid_def)
  moreover have "\<not> bt_is_empty (tx_writes t)" using assms(3) by (auto simp: bt_is_empty_iff)
  ultimately show ?thesis
    using ok(1,2) assms(4) validate_key_iff [of pk "()"] validate_preflight_Inr [of "tx_id t" "tx_start_ts t" "()"]
    by (simp add: prewrite_batch_def)
qed

section \<open>An example transaction\<close>

definition demo_policy :: TransactionFootprintPolicy where
  "demo_policy = \<lparr>fp_max_age_ms = 10, fp_max_write_bytes = 100, fp_max_write_keys = 2, fp_max_read_spans = 3,
     fp_max_participant_tablets = 4, fp_max_intent_accounting_bytes = 200, fp_max_participant_command_bytes = 50\<rparr>"

definition demo_tx0 :: Transaction where
  "demo_tx0 = \<lparr>tx_id = 7, tx_start_ts = 5, tx_created_at = 0, tx_footprint_policy = demo_policy,
     tx_writes = bt_new, tx_read_keys = bt_new, tx_read_spans = bt_new\<rparr>"

definition demo_tx :: Transaction where
  "demo_tx = demo_tx0\<lparr>tx_writes := bt_insert demo_key (PutMutation demo_row) bt_new\<rparr>"

lemma demo_fits: "batch_fits (tx_writes demo_tx0) [(demo_key, PutMutation demo_row)]"
  by (simp add: batch_fits_def demo_tx0_def intent_cost_def payload_def INTENT_ACCOUNTING_OVERHEAD_BYTES_def
      usize_max_def demo_key_def demo_row_def)

lemma demo_put: "buffer_put 0 demo_tx0 demo_key demo_row = (Inr (), demo_tx)"
proof -
  have "validate_buffered_mutation demo_key (PutMutation demo_row) = Inr ()" by code_simp
  moreover have "check_projected_writes 0 demo_tx0 [(demo_key, PutMutation demo_row)] = Inr ()"
    by (simp add: check_projected_writes_def validate_age_at_def demo_tx0_def footprint_def write_footprint_min
        project_addition_def mutation_footprint_min payload_def intent_cost_def saturating_add_usize_def
        INTENT_ACCOUNTING_OVERHEAD_BYTES_def usize_max_def demo_key_def demo_row_def demo_policy_def
        check_limit_def bt_len_card dom_def)
  ultimately show ?thesis by (simp add: buffer_put_def Let_def demo_tx_def demo_tx0_def)
qed

lemma demo_tx_reachable: "tx_reachable demo_tx"
proof -
  have "Transaction_new_with_policy 0 7 5 demo_policy = Inr demo_tx0"
    by (simp add: Transaction_new_with_policy_def policy_validate_def demo_policy_def demo_tx0_def)
  moreover have "policy_usize demo_policy" by (simp add: policy_usize_def demo_policy_def usize_max_def)
  ultimately have "tx_init demo_tx0" unfolding tx_init_def by blast
  then show ?thesis unfolding tx_reachable_def using step_put [OF demo_put demo_fits] by blast
qed

theorem transaction_within_limits_witness:
  "tf_write_bytes (footprint 0 demo_tx) = 18 \<and> tf_intent_accounting_bytes (footprint 0 demo_tx) = 82 \<and>
   tf_write_bytes (footprint 0 demo_tx) \<le> 100 \<and> tf_write_keys (footprint 0 demo_tx) \<le> 2"
proof -
  have "charge payload (tx_writes demo_tx) = 18" "charge (\<lambda>k mu. payload k mu + 64) (tx_writes demo_tx) = 82"
    by (simp_all add: charge_iter demo_tx_def bt_iter_single payload_def demo_key_def demo_row_def)
  then show ?thesis
    using transaction_within_limits [OF demo_tx_reachable, of 0]
    by (simp add: demo_tx_def demo_tx0_def demo_policy_def)
qed

theorem buffered_writes_prewrite_witness:
  "fst (prewrite_batch InMemoryMvcc_new 7 5 (tx_writes demo_tx) demo_key 1000) = Inr ()"
proof -
  have "fst (prewrite_batch InMemoryMvcc_new (tx_id demo_tx) (tx_start_ts demo_tx) (tx_writes demo_tx) demo_key 1000) = Inr ()"
    by (rule buffered_writes_prewrite [OF demo_tx_reachable mvcc_reachable_new, of demo_key "PutMutation demo_row"])
      (simp_all add: demo_tx_def unfenced_def)
  then show ?thesis by (simp add: demo_tx_def demo_tx0_def)
qed

end
