(* ===== verification/Txn_Oracle.thy ===== *)
theory Txn_Oracle
  imports Txn_Buffer
begin

text \<open>
  Timestamp allocation (\<^verbatim>\<open>ragnordb-txn/src/manager.rs\<close>): the local manager, the oracle over
  durably reserved intervals, and the contract of the trait \<^verbatim>\<open>TransactionManager\<close> as a
  locale. The reservation authority \<^verbatim>\<open>TimestampReservationProvider\<close> is the parameter
  \<open>reserve\<close>: from the provider's state and a requested frontier it gives an interval or an
  error, and its next state. Latency counters, which only measure, are left out.
\<close>

section \<open>The oracle over reserved intervals\<close>

record TimestampReservation =
  rv_reserved_from :: Timestamp
  rv_reserved_until :: Timestamp

type_synonym 'p reserver = "'p \<Rightarrow> Timestamp \<Rightarrow> TimestampReservation result \<times> 'p"

record 'p TimestampOracle =
  o_provider :: 'p
  o_next_timestamp :: u64
  o_last_allocated :: Timestamp
  o_reserved_until :: Timestamp
  o_reservation_size :: u64
  o_prefetch_threshold :: u64
  o_allocations :: u64
  o_reservations :: u64

definition validate_reservation_policy :: "u64 \<Rightarrow> u64 \<Rightarrow> unit result" where
  "validate_reservation_policy reservation_size prefetch_threshold =
     and_then (ensure (reservation_size \<noteq> 0) InvalidArgument) (\<lambda>_.
       ensure (\<not> prefetch_threshold \<ge> reservation_size) InvalidArgument)"

definition reservation_invalid :: "Timestamp \<Rightarrow> Timestamp \<Rightarrow> TimestampReservation \<Rightarrow> bool" where
  "reservation_invalid frontier requested_until r \<longleftrightarrow>
     rv_reserved_from r \<le> frontier \<or> rv_reserved_until r < requested_until \<or>
     rv_reserved_from r > rv_reserved_until r"

definition ensure_reserved_through ::
  "'p reserver \<Rightarrow> 'p TimestampOracle \<Rightarrow> Timestamp \<Rightarrow> unit result \<times> 'p TimestampOracle" where
  "ensure_reserved_through reserve o1 target =
     (if target \<le> o_reserved_until o1 then (Inr (), o1)
      else
        let required_extension = target - o_reserved_until o1;
            extension = max (o_reservation_size o1) required_extension;
            previous_frontier = o_reserved_until o1 in
        case checked_add (o_reserved_until o1) extension of
          None \<Rightarrow> (Inl Configuration, o1)
        | Some requested_until \<Rightarrow>
            (case reserve (o_provider o1) requested_until of
               (Inl e, p) \<Rightarrow> (Inl e, o1\<lparr>o_provider := p\<rparr>)
             | (Inr reservation, p) \<Rightarrow>
                 if reservation_invalid previous_frontier requested_until reservation
                 then (Inl Configuration, o1\<lparr>o_provider := p\<rparr>)
                 else (Inr (), o1\<lparr>o_provider := p,
                   o_next_timestamp := (if o_next_timestamp o1 > previous_frontier
                     then max (o_next_timestamp o1) (rv_reserved_from reservation) else o_next_timestamp o1),
                   o_reserved_until := rv_reserved_until reservation,
                   o_reservations := saturating_add (o_reservations o1) 1\<rparr>)))"

definition TimestampOracle_new :: "'p reserver \<Rightarrow> 'p \<Rightarrow> u64 \<Rightarrow> u64 \<Rightarrow> 'p TimestampOracle result" where
  "TimestampOracle_new reserve provider reservation_size prefetch_threshold =
     and_then (validate_reservation_policy reservation_size prefetch_threshold) (\<lambda>_.
       let oracle = \<lparr>o_provider = provider, o_next_timestamp = 1, o_last_allocated = 0, o_reserved_until = 0,
             o_reservation_size = reservation_size, o_prefetch_threshold = prefetch_threshold,
             o_allocations = 0, o_reservations = 0\<rparr> in
       case ensure_reserved_through reserve oracle 1 of
         (Inl e, _) \<Rightarrow> Inl e
       | (Inr _, oracle) \<Rightarrow> Inr oracle)"

definition TimestampOracle_from_durable_frontier ::
  "'p \<Rightarrow> Timestamp \<Rightarrow> u64 \<Rightarrow> u64 \<Rightarrow> 'p TimestampOracle result" where
  "TimestampOracle_from_durable_frontier provider durable_frontier reservation_size prefetch_threshold =
     and_then (validate_reservation_policy reservation_size prefetch_threshold) (\<lambda>_.
     and_then (ok_or (checked_add durable_frontier 1) Configuration) (\<lambda>next_timestamp.
       Inr \<lparr>o_provider = provider, o_next_timestamp = next_timestamp, o_last_allocated = durable_frontier,
            o_reserved_until = durable_frontier, o_reservation_size = reservation_size,
            o_prefetch_threshold = prefetch_threshold, o_allocations = 0, o_reservations = 0\<rparr>))"

definition oracle_remaining :: "'p TimestampOracle \<Rightarrow> u64" where
  "oracle_remaining o1 = saturating_add (saturating_sub (o_reserved_until o1) (o_next_timestamp o1)) 1"

text \<open>The refill decision of \<^verbatim>\<open>allocate_timestamp\<close>, before a value is consumed.\<close>

definition refill_before_allocation ::
  "'p reserver \<Rightarrow> 'p TimestampOracle \<Rightarrow> unit result \<times> 'p TimestampOracle" where
  "refill_before_allocation reserve o1 =
     (let nxt = o_next_timestamp o1 in
      if nxt > o_reserved_until o1 then ensure_reserved_through reserve o1 nxt
      else if oracle_remaining o1 \<le> o_prefetch_threshold o1
      then (case checked_add (o_reserved_until o1) 1 of
              None \<Rightarrow> (Inl Configuration, o1)
            | Some next_frontier \<Rightarrow> ensure_reserved_through reserve o1 next_frontier)
      else (Inr (), o1))"

definition allocate_timestamp ::
  "'p reserver \<Rightarrow> 'p TimestampOracle \<Rightarrow> Timestamp result \<times> 'p TimestampOracle" where
  "allocate_timestamp reserve o1 =
     (if o_next_timestamp o1 = 0 then (Inl Configuration, o1)
      else case refill_before_allocation reserve o1 of
          (Inl e, o2) \<Rightarrow> (Inl e, o2)
        | (Inr _, o2) \<Rightarrow>
            let allocated = o_next_timestamp o2 in
            (case checked_add allocated 1 of
               None \<Rightarrow> (Inl Configuration, o2)
             | Some nxt \<Rightarrow>
                 (Inr allocated, o2\<lparr>o_next_timestamp := nxt, o_last_allocated := allocated,
                    o_allocations := saturating_add (o_allocations o2) 1\<rparr>)))"

definition oracle_allocate_commit_timestamp ::
  "'p reserver \<Rightarrow> 'p TimestampOracle \<Rightarrow> Timestamp \<Rightarrow> Timestamp result \<times> 'p TimestampOracle" where
  "oracle_allocate_commit_timestamp reserve o1 start_ts =
     (if start_ts = 0 then (Inl InvalidArgument, o1)
      else case checked_add start_ts 1 of
          None \<Rightarrow> (Inl Configuration, o1)
        | Some minimum \<Rightarrow>
            allocate_timestamp reserve
              (if o_next_timestamp o1 < minimum then o1\<lparr>o_next_timestamp := minimum\<rparr> else o1))"

definition oracle_reset_after_failover ::
  "'p TimestampOracle \<Rightarrow> Timestamp \<Rightarrow> unit result \<times> 'p TimestampOracle" where
  "oracle_reset_after_failover o1 durable_frontier =
     (if durable_frontier < o_reserved_until o1 then (Inl Configuration, o1)
      else case checked_add durable_frontier 1 of
          None \<Rightarrow> (Inl Configuration, o1)
        | Some nxt \<Rightarrow>
            (Inr (), o1\<lparr>o_next_timestamp := nxt, o_last_allocated := durable_frontier,
               o_reserved_until := durable_frontier\<rparr>))"

definition oracle_observe_replicated_high_water ::
  "'p TimestampOracle \<Rightarrow> Timestamp \<Rightarrow> 'p TimestampOracle" where
  "oracle_observe_replicated_high_water o1 timestamp =
     o1\<lparr>o_last_allocated := max (o_last_allocated o1) timestamp,
        o_next_timestamp := (if timestamp \<ge> o_next_timestamp o1
          then (case checked_add timestamp 1 of None \<Rightarrow> 0 | Some nxt \<Rightarrow> nxt) else o_next_timestamp o1),
        o_reserved_until := max (o_reserved_until o1) timestamp\<rparr>"

text \<open>The manager over the oracle: a transaction's id is its start timestamp.\<close>

definition reserved_begin_transaction ::
  "'p reserver \<Rightarrow> nat \<Rightarrow> 'p TimestampOracle \<Rightarrow> Transaction result \<times> 'p TimestampOracle" where
  "reserved_begin_transaction reserve now o1 =
     (case allocate_timestamp reserve o1 of
        (Inl e, o2) \<Rightarrow> (Inl e, o2)
      | (Inr start_ts, o2) \<Rightarrow> (Transaction_new now start_ts start_ts, o2))"

section \<open>The local manager\<close>

record LocalTransactionManager =
  lm_last_transaction_id :: u64
  lm_last_timestamp :: u64

definition LocalTransactionManager_new :: LocalTransactionManager where
  "LocalTransactionManager_new = \<lparr>lm_last_transaction_id = 0, lm_last_timestamp = 0\<rparr>"

definition from_recovered_floors :: "TxnId \<Rightarrow> Timestamp \<Rightarrow> LocalTransactionManager result" where
  "from_recovered_floors next_transaction_id next_timestamp =
     and_then (ok_or (checked_sub next_transaction_id 1) Configuration) (\<lambda>last_transaction_id.
     and_then (ok_or (checked_sub next_timestamp 1) Configuration) (\<lambda>last_timestamp.
       Inr \<lparr>lm_last_transaction_id = last_transaction_id, lm_last_timestamp = last_timestamp\<rparr>))"

definition local_observe_replicated_high_water ::
  "LocalTransactionManager \<Rightarrow> TxnId \<Rightarrow> Timestamp \<Rightarrow> LocalTransactionManager" where
  "local_observe_replicated_high_water m transaction_id timestamp =
     \<lparr>lm_last_transaction_id = max (lm_last_transaction_id m) transaction_id,
      lm_last_timestamp = max (lm_last_timestamp m) timestamp\<rparr>"

definition allocate_timestamp_after ::
  "LocalTransactionManager \<Rightarrow> Timestamp \<Rightarrow> Timestamp result \<times> LocalTransactionManager" where
  "allocate_timestamp_after m minimum_exclusive =
     (let allocation_floor = max (lm_last_timestamp m) minimum_exclusive in
      case checked_add allocation_floor 1 of
        None \<Rightarrow> (Inl Configuration, m)
      | Some nxt \<Rightarrow> (Inr nxt, m\<lparr>lm_last_timestamp := nxt\<rparr>))"

definition local_begin_transaction ::
  "nat \<Rightarrow> LocalTransactionManager \<Rightarrow> Transaction result \<times> LocalTransactionManager" where
  "local_begin_transaction now m =
     (case and_then (ok_or (checked_add (lm_last_transaction_id m) 1) Configuration) (\<lambda>next_transaction_id.
           and_then (ok_or (checked_add (lm_last_timestamp m) 1) Configuration) (\<lambda>next_timestamp.
           and_then (Transaction_new now next_transaction_id next_timestamp) (\<lambda>transaction.
             Inr (transaction, next_transaction_id, next_timestamp)))) of
        Inl e \<Rightarrow> (Inl e, m)
      | Inr (transaction, next_transaction_id, next_timestamp) \<Rightarrow>
          (Inr transaction,
           \<lparr>lm_last_transaction_id = next_transaction_id, lm_last_timestamp = next_timestamp\<rparr>))"

section \<open>The contract of a transaction manager\<close>

text \<open>
  A run of a manager: any sequence of begins, commit allocations and observations of replicated
  high-water marks, with the timestamps handed out so far in the order they were allocated.
\<close>

inductive manager_run ::
  "(nat \<Rightarrow> 'm \<Rightarrow> Transaction result \<times> 'm) \<Rightarrow> ('m \<Rightarrow> Timestamp \<Rightarrow> Timestamp result \<times> 'm) \<Rightarrow>
     ('m \<Rightarrow> TxnId \<Rightarrow> Timestamp \<Rightarrow> 'm) \<Rightarrow> 'm \<Rightarrow> Timestamp list \<Rightarrow> 'm \<Rightarrow> bool"
  for begin_txn commit_ts observe m where
  run_start: "manager_run begin_txn commit_ts observe m [] m"
| run_begin: "manager_run begin_txn commit_ts observe m log m1 \<Longrightarrow> begin_txn now m1 = (r, m2) \<Longrightarrow>
    log' = log @ (case r of Inl _ \<Rightarrow> [] | Inr t \<Rightarrow> [tx_start_ts t]) \<Longrightarrow>
    manager_run begin_txn commit_ts observe m log' m2"
| run_commit: "manager_run begin_txn commit_ts observe m log m1 \<Longrightarrow> commit_ts m1 s = (r, m2) \<Longrightarrow>
    log' = log @ (case r of Inl _ \<Rightarrow> [] | Inr c \<Rightarrow> [c]) \<Longrightarrow>
    manager_run begin_txn commit_ts observe m log' m2"
| run_observe: "manager_run begin_txn commit_ts observe m log m1 \<Longrightarrow> ts \<noteq> - 1 \<Longrightarrow>
    manager_run begin_txn commit_ts observe m log (observe m1 txn ts)"

locale transaction_manager =
  fixes ok :: "'m \<Rightarrow> bool"
    and begin_txn :: "nat \<Rightarrow> 'm \<Rightarrow> Transaction result \<times> 'm"
    and commit_ts :: "'m \<Rightarrow> Timestamp \<Rightarrow> Timestamp result \<times> 'm"
    and observe :: "'m \<Rightarrow> TxnId \<Rightarrow> Timestamp \<Rightarrow> 'm"
    and last_ts :: "'m \<Rightarrow> Timestamp"
  assumes begin_laws: "ok m \<Longrightarrow> begin_txn now m = (r, m') \<Longrightarrow>
      ok m' \<and> last_ts m \<le> last_ts m' \<and>
      (\<forall>t. r = Inr t \<longrightarrow> last_ts m < tx_start_ts t \<and> last_ts m' = tx_start_ts t \<and> tx_id t \<noteq> 0)"
    and commit_laws: "ok m \<Longrightarrow> commit_ts m s = (rc, m') \<Longrightarrow>
      ok m' \<and> last_ts m \<le> last_ts m' \<and> (\<forall>c. rc = Inr c \<longrightarrow> last_ts m < c \<and> s < c \<and> last_ts m' = c)"
    and observe_laws: "ok m \<Longrightarrow> ts \<noteq> - 1 \<Longrightarrow>
      ok (observe m txn ts) \<and> last_ts (observe m txn ts) = max (last_ts m) ts"
begin

lemma run_in_order:
  assumes "manager_run begin_txn commit_ts observe m log m'" and "ok m"
  shows "ok m' \<and> sorted_wrt (<) log \<and> (\<forall>t\<in>set log. last_ts m < t \<and> t \<le> last_ts m') \<and> last_ts m \<le> last_ts m'"
  using assms
proof (induction rule: manager_run.induct)
  case (run_begin log m1 now r m2 log')
  then show ?case
    using begin_laws [OF _ run_begin(2)]
    by (cases r) (auto simp: sorted_wrt_append intro: order.trans le_less_trans less_imp_le)
next
  case (run_commit log m1 s r m2 log')
  then show ?case
    using commit_laws [OF _ run_commit(2)]
    by (cases r) (auto simp: sorted_wrt_append intro: order.trans le_less_trans less_imp_le)
next
  case (run_observe log m1 ts txn)
  then show ?case
    using observe_laws [OF _ run_observe(2)] by (auto simp: le_max_iff_disj)
qed simp

end

lemma checked_add_one:
  fixes a :: "'a::len word"
  shows "checked_add a 1 = Some b \<longleftrightarrow> a \<noteq> - 1 \<and> b = a + 1"
proof -
  have "a \<le> a + 1 \<longleftrightarrow> a \<noteq> - 1"
    using inc_less_eq_self_iff_eq by fastforce
  then show ?thesis by (auto simp: word_add_code)
qed

lemma checked_add_one_None: "checked_add (a :: 'a::len word) 1 = None \<longleftrightarrow> a = - 1"
  using checked_add_one [of a "a + 1"] by (auto simp: checked_add_def)

lemma less_inc: "a \<noteq> - 1 \<Longrightarrow> a < a + (1 :: 'a::len word)"
  using inc_less_eq_self_iff_eq [of a] by (simp add: not_le)

lemma inc_nonzero: "a \<noteq> - 1 \<Longrightarrow> a + 1 \<noteq> (0 :: 'a::len word)"
  using max_word_wrap by blast

lemma Transaction_new_Inr:
  "Transaction_new now i ts = Inr t \<Longrightarrow> i \<noteq> 0 \<and> ts \<noteq> 0 \<and> tx_id t = i \<and> tx_start_ts t = ts"
  by (auto simp: Transaction_new_def Transaction_new_with_policy_def and_then_eq_Inr ensure_eq_Inr)

lemma local_begin_laws:
  assumes "local_begin_transaction now m = (r, m')"
  shows "lm_last_timestamp m \<le> lm_last_timestamp m' \<and>
    (\<forall>t. r = Inr t \<longrightarrow> lm_last_timestamp m < tx_start_ts t \<and> lm_last_timestamp m' = tx_start_ts t \<and> tx_id t \<noteq> 0)"
  using assms less_inc [of "lm_last_timestamp m"]
  by (auto simp: local_begin_transaction_def and_then_eq_Inr ok_or_eq_Inr checked_add_one
      dest: Transaction_new_Inr split: sum.splits)

lemma local_commit_laws:
  assumes "allocate_timestamp_after m s = (r, m')"
  shows "lm_last_timestamp m \<le> lm_last_timestamp m' \<and>
    (\<forall>c. r = Inr c \<longrightarrow> lm_last_timestamp m < c \<and> s < c \<and> lm_last_timestamp m' = c)"
  using assms less_inc [of "max (lm_last_timestamp m) s"]
  by (auto simp: allocate_timestamp_after_def Let_def checked_add_one split: option.splits)

interpretation local_manager: transaction_manager "\<lambda>_. True" local_begin_transaction
  allocate_timestamp_after local_observe_replicated_high_water lm_last_timestamp
  by unfold_locales
    (use local_begin_laws local_commit_laws in \<open>auto simp: local_observe_replicated_high_water_def\<close>)

definition oracle_ok :: "'p TimestampOracle \<Rightarrow> bool" where
  "oracle_ok o1 \<longleftrightarrow> o_next_timestamp o1 \<noteq> 0 \<and> o_last_allocated o1 < o_next_timestamp o1"

lemma ensure_reserved_frame:
  assumes "ensure_reserved_through reserve o1 target = (r, o2)"
  shows "o_last_allocated o2 = o_last_allocated o1 \<and> o_next_timestamp o1 \<le> o_next_timestamp o2"
  using assms by (auto simp: ensure_reserved_through_def Let_def split: if_splits option.splits sum.splits prod.splits)

lemma refill_frame:
  assumes "refill_before_allocation reserve o1 = (r, o2)"
  shows "o_last_allocated o2 = o_last_allocated o1 \<and> o_next_timestamp o1 \<le> o_next_timestamp o2"
  using assms
  by (auto simp: refill_before_allocation_def Let_def dest: ensure_reserved_frame split: if_splits option.splits)

lemma allocate_timestamp_laws:
  assumes "allocate_timestamp reserve o1 = (r, o2)" and "oracle_ok o1"
  shows "oracle_ok o2 \<and> o_last_allocated o1 \<le> o_last_allocated o2 \<and>
    (\<forall>ts. r = Inr ts \<longrightarrow> o_next_timestamp o1 \<le> ts \<and> o_last_allocated o1 < ts \<and> o_last_allocated o2 = ts)"
proof -
  obtain q o3 where q: "refill_before_allocation reserve o1 = (q, o3)" by fastforce
  note fr = refill_frame [OF q]
  then have "oracle_ok o3" "o_last_allocated o1 < o_next_timestamp o3"
    using assms(2) by (auto simp: oracle_ok_def)
  then show ?thesis
    using assms q fr less_inc [of "o_next_timestamp o3"] inc_nonzero [of "o_next_timestamp o3"]
    by (auto simp: allocate_timestamp_def oracle_ok_def checked_add_one Let_def split: if_splits sum.splits option.splits)
qed

lemma oracle_commit_laws:
  assumes "oracle_allocate_commit_timestamp reserve o1 s = (r, o2)" and "oracle_ok o1"
  shows "oracle_ok o2 \<and> o_last_allocated o1 \<le> o_last_allocated o2 \<and>
    (\<forall>c. r = Inr c \<longrightarrow> o_last_allocated o1 < c \<and> s < c \<and> o_last_allocated o2 = c)"
proof (cases "s = 0 \<or> checked_add s 1 = None")
  case True
  with assms show ?thesis by (auto simp: oracle_allocate_commit_timestamp_def split: if_splits)
next
  case False
  then have m: "checked_add s 1 = Some (s + 1)" "s < s + 1" using less_inc by (auto simp: checked_add_one)
  let ?o = "if o_next_timestamp o1 < s + 1 then o1\<lparr>o_next_timestamp := s + 1\<rparr> else o1"
  have "oracle_ok ?o" "s < o_next_timestamp ?o" "o_last_allocated ?o = o_last_allocated o1"
    using assms(2) m(2) by (auto simp: oracle_ok_def)
  moreover have "allocate_timestamp reserve ?o = (r, o2)"
    using assms(1) False m by (simp add: oracle_allocate_commit_timestamp_def)
  ultimately show ?thesis using allocate_timestamp_laws by fastforce
qed

lemma oracle_begin_laws:
  assumes "reserved_begin_transaction reserve now o1 = (r, o2)" and "oracle_ok o1"
  shows "oracle_ok o2 \<and> o_last_allocated o1 \<le> o_last_allocated o2 \<and>
    (\<forall>t. r = Inr t \<longrightarrow> o_last_allocated o1 < tx_start_ts t \<and> o_last_allocated o2 = tx_start_ts t \<and> tx_id t \<noteq> 0)"
proof -
  obtain q o3 where q: "allocate_timestamp reserve o1 = (q, o3)" by fastforce
  with allocate_timestamp_laws [OF q assms(2)] assms(1) show ?thesis
    by (auto simp: reserved_begin_transaction_def split: sum.splits dest: Transaction_new_Inr)
qed

lemma oracle_observe_laws:
  assumes "oracle_ok o1" and "ts \<noteq> - 1"
  shows "oracle_ok (oracle_observe_replicated_high_water o1 ts) \<and>
    o_last_allocated (oracle_observe_replicated_high_water o1 ts) = max (o_last_allocated o1) ts"
  using assms less_inc [of ts] inc_nonzero [of ts]
  by (auto simp: oracle_ok_def oracle_observe_replicated_high_water_def checked_add_one checked_add_one_None
      split: option.splits)

interpretation reserved_manager: transaction_manager oracle_ok "reserved_begin_transaction reserve"
  "oracle_allocate_commit_timestamp reserve" "\<lambda>o1 _. oracle_observe_replicated_high_water o1" o_last_allocated
  for reserve :: "'p reserver"
proof (unfold_locales, goal_cases)
  case (1 m now r m')
  then show ?case using oracle_begin_laws by blast
next
  case (2 m s r m')
  then show ?case using oracle_commit_laws by blast
next
  case (3 m ts txn)
  then show ?case using oracle_observe_laws by blast
qed

lemma from_durable_frontier_ok:
  assumes "TimestampOracle_from_durable_frontier p frontier sz threshold = Inr o1"
  shows "oracle_ok o1 \<and> o_last_allocated o1 = frontier"
  using assms less_inc [of frontier] inc_nonzero [of frontier]
  by (auto simp: TimestampOracle_from_durable_frontier_def and_then_eq_Inr ok_or_eq_Inr checked_add_one oracle_ok_def)

text \<open>
  C14. Transaction managers allocate in order: over any sequence of begins, commit allocations
  and observed high-water marks, successful or not, the timestamps that the local manager and
  the manager over reserved intervals hand out are strictly increasing, and the latter start
  strictly above the durable frontier the manager was recovered from. The observed marks are
  below the largest 64-bit value, which both managers treat as exhaustion.
\<close>

theorem managers_allocate_in_order:
  assumes "manager_run local_begin_transaction allocate_timestamp_after local_observe_replicated_high_water m log m'"
    and "TimestampOracle_from_durable_frontier p frontier sz threshold = Inr o1"
    and "manager_run (reserved_begin_transaction reserve) (oracle_allocate_commit_timestamp reserve)
      (\<lambda>o1 _. oracle_observe_replicated_high_water o1) o1 log' o2"
  shows "sorted_wrt (<) log \<and> sorted_wrt (<) log' \<and> (\<forall>t. t \<in> set log \<longrightarrow> lm_last_timestamp m < t) \<and>
    (\<forall>t. t \<in> set log' \<longrightarrow> frontier < t)"
  using local_manager.run_in_order [OF assms(1)] reserved_manager.run_in_order [OF assms(3)]
    from_durable_frontier_ok [OF assms(2)] by simp

definition demo_reserver :: "u64 reserver" where
  "demo_reserver frontier requested =
     (Inr \<lparr>rv_reserved_from = frontier + 1, rv_reserved_until = requested\<rparr>, requested)"

lemma demo_local_run:
  "\<exists>m'. manager_run local_begin_transaction allocate_timestamp_after local_observe_replicated_high_water
     LocalTransactionManager_new [1, 8] m'"
proof -
  let ?m1 = "\<lparr>lm_last_transaction_id = 1, lm_last_timestamp = 1\<rparr> :: LocalTransactionManager"
  let ?m2 = "\<lparr>lm_last_transaction_id = 3, lm_last_timestamp = 7\<rparr> :: LocalTransactionManager"
  let ?run = "manager_run local_begin_transaction allocate_timestamp_after local_observe_replicated_high_water
    LocalTransactionManager_new"
  have "?run [1] ?m1"
    by (rule run_begin [OF run_start, of _ 0])
      (auto simp: local_begin_transaction_def LocalTransactionManager_new_def checked_add_def Transaction_new_def
        Transaction_new_with_policy_def policy_validate_def default_footprint_policy_def)
  from run_observe [OF this, of 7 3] have "?run [1] ?m2" by (simp add: local_observe_replicated_high_water_def)
  then have "?run [1, 8] \<lparr>lm_last_transaction_id = 3, lm_last_timestamp = 8\<rparr>"
    by (rule run_commit [of _ _ _ _ _ _ 2]) (auto simp: allocate_timestamp_after_def checked_add_def)
  then show ?thesis by blast
qed

lemma demo_oracle_run:
  "\<exists>o1 o2. TimestampOracle_from_durable_frontier 100 100 10 2 = Inr o1 \<and>
     manager_run (reserved_begin_transaction demo_reserver) (oracle_allocate_commit_timestamp demo_reserver)
       (\<lambda>o1 _. oracle_observe_replicated_high_water o1) o1 [151] o2"
proof -
  let ?o1 = "\<lparr>o_provider = 100, o_next_timestamp = 101, o_last_allocated = 100, o_reserved_until = 100,
    o_reservation_size = 10, o_prefetch_threshold = 2, o_allocations = 0, o_reservations = 0\<rparr> :: u64 TimestampOracle"
  have "TimestampOracle_from_durable_frontier 100 100 10 2 = Inr ?o1"
    by (simp add: TimestampOracle_from_durable_frontier_def validate_reservation_policy_def checked_add_def)
  moreover have "fst (oracle_allocate_commit_timestamp demo_reserver ?o1 150) = Inr 151" by code_simp
  then obtain o2 where "oracle_allocate_commit_timestamp demo_reserver ?o1 150 = (Inr 151, o2)"
    by (metis prod.collapse)
  then have "manager_run (reserved_begin_transaction demo_reserver) (oracle_allocate_commit_timestamp demo_reserver)
       (\<lambda>o1 _. oracle_observe_replicated_high_water o1) ?o1 [151] o2"
    by (rule run_commit [OF run_start]) simp
  ultimately show ?thesis by blast
qed

theorem managers_allocate_in_order_witness:
  "sorted_wrt (<) [1 :: Timestamp, 8] \<and> sorted_wrt (<) [151 :: Timestamp] \<and>
   (\<exists>m'. manager_run local_begin_transaction allocate_timestamp_after local_observe_replicated_high_water
     LocalTransactionManager_new [1, 8] m')"
proof -
  from demo_local_run obtain m' where 1: "manager_run local_begin_transaction allocate_timestamp_after
    local_observe_replicated_high_water LocalTransactionManager_new [1, 8] m'" by blast
  from demo_oracle_run obtain o1 o2 where 2: "TimestampOracle_from_durable_frontier 100 100 10 2 = Inr o1"
    "manager_run (reserved_begin_transaction demo_reserver) (oracle_allocate_commit_timestamp demo_reserver)
       (\<lambda>o1 _. oracle_observe_replicated_high_water o1) o1 [151] o2" by blast
  from managers_allocate_in_order [OF 1 2] 1 show ?thesis by blast
qed

text \<open>
  Observing the largest 64-bit timestamp marks the oracle exhausted by a zero cursor. A later,
  smaller observation moves the cursor back up, and the oracle hands out timestamps again that
  lie far below the one it has observed.
\<close>

definition exhausted_oracle :: "u64 TimestampOracle" where
  "exhausted_oracle = oracle_observe_replicated_high_water
     \<lparr>o_provider = 100, o_next_timestamp = 101, o_last_allocated = 100, o_reserved_until = 100,
      o_reservation_size = 10, o_prefetch_threshold = 2, o_allocations = 0, o_reservations = 0\<rparr> (- 1)"

theorem exhausted_oracle_revives:
  "fst (allocate_timestamp demo_reserver exhausted_oracle) = Inl Configuration \<and>
   fst (allocate_timestamp demo_reserver (oracle_observe_replicated_high_water exhausted_oracle 5)) = Inr 6 \<and>
   o_last_allocated exhausted_oracle = - 1"
  by code_simp

end
