(* ===== verification/Txn_Concurrent.thy ===== *)
theory Txn_Concurrent
  imports Txn_Oracle
begin

text \<open>
  The lock-free oracle \<^verbatim>\<open>ConcurrentTimestampOracle\<close> of \<^verbatim>\<open>ragnordb-txn/src/manager.rs\<close>
  at the grain of its atomic operations: every load, compare-and-exchange, fetch-and-modify,
  store and lock operation is one step of one thread, and any thread may step next. All the
  atomics of the source are acquire or release operations on single cells; the model interleaves
  them sequentially consistently. The provider's mutex is only taken while the refill lock is
  held, so a call of the provider is one step under that lock.
\<close>

section \<open>Shared state and program points\<close>

type_synonym thread = nat

record 'p ConcurrentTimestampOracle =
  c_provider :: 'p
  c_refill_lock :: "thread option"
  c_next_timestamp :: u64
  c_last_allocated :: u64
  c_reserved_until :: u64
  c_reservation_size :: u64
  c_prefetch_threshold :: u64
  c_allocations :: u64
  c_reservations :: u64
  c_refill_lock_waits :: u64

definition concurrent_from_durable_frontier ::
  "'p \<Rightarrow> Timestamp \<Rightarrow> u64 \<Rightarrow> u64 \<Rightarrow> 'p ConcurrentTimestampOracle result" where
  "concurrent_from_durable_frontier provider durable_frontier reservation_size prefetch_threshold =
     and_then (validate_reservation_policy reservation_size prefetch_threshold) (\<lambda>_.
     and_then (ok_or (checked_add durable_frontier 1) Configuration) (\<lambda>next_timestamp.
       Inr \<lparr>c_provider = provider, c_refill_lock = None, c_next_timestamp = next_timestamp,
            c_last_allocated = durable_frontier, c_reserved_until = durable_frontier,
            c_reservation_size = reservation_size, c_prefetch_threshold = prefetch_threshold,
            c_allocations = 0, c_reservations = 0, c_refill_lock_waits = 0\<rparr>))"

datatype OracleCall = Allocate | AllocateCommit Timestamp | Observe Timestamp

text \<open>
  Where a call stands. \<open>PcRaise\<close> points are the loop of \<^verbatim>\<open>allocate_commit_timestamp\<close>,
  \<open>PcLoadNext\<close> the head of the loop of \<^verbatim>\<open>allocate_timestamp\<close>, and the points from
  \<open>PcLock\<close> to \<open>PcUnlock\<close> the body of \<^verbatim>\<open>ensure_reserved_through\<close>.
\<close>

datatype OraclePc =
    PcStart
  | PcRaiseLoad u64
  | PcRaiseCas u64 u64
  | PcLoadNext
  | PcLoadReserved u64
  | PcLock u64
  | PcCountWait u64
  | PcRefillLoad u64
  | PcReserve u64 u64
  | PcStoreReserved u64
  | PcCountReservation
  | PcUnlock "unit result"
  | PcCas u64 u64
  | PcFetchMaxLast u64
  | PcCountAllocation u64
  | PcObserveLast u64
  | PcObserveReserved u64
  | PcObserveNext u64
  | PcDone "Timestamp option result"

text \<open>What an allocating thread does once it has read both cursors.\<close>

definition after_load_reserved :: "u64 \<Rightarrow> u64 \<Rightarrow> u64 \<Rightarrow> OraclePc" where
  "after_load_reserved prefetch_threshold nxt reserved =
     (let remaining = saturating_add (saturating_sub reserved nxt) 1 in
      if nxt > reserved \<or> remaining \<le> prefetch_threshold
      then if nxt > reserved then PcLock nxt
           else (case checked_add reserved 1 of
                   None \<Rightarrow> PcDone (Inl Configuration)
                 | Some target \<Rightarrow> PcLock target)
      else case checked_add nxt 1 of
          None \<Rightarrow> PcDone (Inl Configuration)
        | Some next_after \<Rightarrow> PcCas nxt next_after)"

text \<open>The steps of \<^verbatim>\<open>ensure_reserved_through\<close>, from taking the refill lock to its release.\<close>

fun refill_step ::
  "'p reserver \<Rightarrow> thread \<Rightarrow> 'p ConcurrentTimestampOracle \<Rightarrow> OraclePc \<Rightarrow> ('p ConcurrentTimestampOracle \<times> OraclePc) option" where
  "refill_step reserve t s (PcLock target) =
     (case c_refill_lock s of
        None \<Rightarrow> Some (s\<lparr>c_refill_lock := Some t\<rparr>, PcCountWait target)
      | Some _ \<Rightarrow> None)"
| "refill_step reserve t s (PcCountWait target) =
     Some (s\<lparr>c_refill_lock_waits := c_refill_lock_waits s + 1\<rparr>, PcRefillLoad target)"
| "refill_step reserve t s (PcRefillLoad target) =
     (let current = c_reserved_until s in
      Some (s,
        if target \<le> current then PcUnlock (Inr ())
        else (case checked_add current (max (c_reservation_size s) (target - current)) of
                None \<Rightarrow> PcUnlock (Inl Configuration)
              | Some requested_until \<Rightarrow> PcReserve current requested_until)))"
| "refill_step reserve t s (PcReserve current requested_until) =
     (case reserve (c_provider s) requested_until of
        (Inl e, p) \<Rightarrow> Some (s\<lparr>c_provider := p\<rparr>, PcUnlock (Inl e))
      | (Inr reservation, p) \<Rightarrow>
          Some (s\<lparr>c_provider := p\<rparr>,
            if reservation_invalid current requested_until reservation then PcUnlock (Inl Configuration)
            else PcStoreReserved (rv_reserved_until reservation)))"
| "refill_step reserve t s (PcStoreReserved until) =
     Some (s\<lparr>c_reserved_until := until\<rparr>, PcCountReservation)"
| "refill_step reserve t s PcCountReservation =
     Some (s\<lparr>c_reservations := c_reservations s + 1\<rparr>, PcUnlock (Inr ()))"
| "refill_step reserve t s (PcUnlock result) =
     Some (s\<lparr>c_refill_lock := None\<rparr>, case result of Inl e \<Rightarrow> PcDone (Inl e) | Inr _ \<Rightarrow> PcLoadNext)"
| "refill_step reserve t s pc = None"

text \<open>The steps of \<^verbatim>\<open>observe_replicated_high_water\<close>.\<close>

fun observe_step ::
  "'p ConcurrentTimestampOracle \<Rightarrow> OraclePc \<Rightarrow> ('p ConcurrentTimestampOracle \<times> OraclePc) option" where
  "observe_step s (PcObserveLast ts) =
     Some (s\<lparr>c_last_allocated := max (c_last_allocated s) ts\<rparr>, PcObserveReserved ts)"
| "observe_step s (PcObserveReserved ts) =
     Some (s\<lparr>c_reserved_until := max (c_reserved_until s) ts\<rparr>, PcObserveNext ts)"
| "observe_step s (PcObserveNext ts) =
     Some (s\<lparr>c_next_timestamp := (if ts = - 1 then 0 else max (c_next_timestamp s) (ts + 1))\<rparr>, PcDone (Inr None))"
| "observe_step s pc = None"

fun oracle_step ::
  "'p reserver \<Rightarrow> thread \<Rightarrow> OracleCall \<Rightarrow> 'p ConcurrentTimestampOracle \<Rightarrow> OraclePc \<Rightarrow>
     ('p ConcurrentTimestampOracle \<times> OraclePc) option" where
  "oracle_step reserve t call s PcStart =
     (case call of
        Allocate \<Rightarrow> Some (s, PcLoadNext)
      | AllocateCommit start_ts \<Rightarrow>
          if start_ts = 0 then Some (s, PcDone (Inl InvalidArgument))
          else (case checked_add start_ts 1 of
                  None \<Rightarrow> Some (s, PcDone (Inl Configuration))
                | Some minimum \<Rightarrow> Some (s, PcRaiseLoad minimum))
      | Observe ts \<Rightarrow> Some (s, PcObserveLast ts))"
| "oracle_step reserve t call s (PcRaiseLoad minimum) =
     (let current = c_next_timestamp s in
      Some (s, if current = 0 \<or> current \<ge> minimum then PcLoadNext else PcRaiseCas minimum current))"
| "oracle_step reserve t call s (PcRaiseCas minimum current) =
     Some (if c_next_timestamp s = current
           then (s\<lparr>c_next_timestamp := minimum\<rparr>, PcLoadNext)
           else (s, PcRaiseLoad minimum))"
| "oracle_step reserve t call s PcLoadNext =
     (let nxt = c_next_timestamp s in
      Some (s, if nxt = 0 then PcDone (Inl Configuration) else PcLoadReserved nxt))"
| "oracle_step reserve t call s (PcLoadReserved nxt) =
     Some (s, after_load_reserved (c_prefetch_threshold s) nxt (c_reserved_until s))"
| "oracle_step reserve t call s (PcLock target) = refill_step reserve t s (PcLock target)"
| "oracle_step reserve t call s (PcCountWait target) = refill_step reserve t s (PcCountWait target)"
| "oracle_step reserve t call s (PcRefillLoad target) = refill_step reserve t s (PcRefillLoad target)"
| "oracle_step reserve t call s (PcReserve current requested_until) = refill_step reserve t s (PcReserve current requested_until)"
| "oracle_step reserve t call s (PcStoreReserved until) = refill_step reserve t s (PcStoreReserved until)"
| "oracle_step reserve t call s PcCountReservation = refill_step reserve t s PcCountReservation"
| "oracle_step reserve t call s (PcUnlock result) = refill_step reserve t s (PcUnlock result)"
| "oracle_step reserve t call s (PcCas nxt next_after) =
     Some (if c_next_timestamp s = nxt
           then (s\<lparr>c_next_timestamp := next_after\<rparr>, PcFetchMaxLast nxt)
           else (s, PcLoadNext))"
| "oracle_step reserve t call s (PcFetchMaxLast nxt) =
     Some (s\<lparr>c_last_allocated := max (c_last_allocated s) nxt\<rparr>, PcCountAllocation nxt)"
| "oracle_step reserve t call s (PcCountAllocation nxt) =
     Some (s\<lparr>c_allocations := c_allocations s + 1\<rparr>, PcDone (Inr (Some nxt)))"
| "oracle_step reserve t call s (PcObserveLast ts) = observe_step s (PcObserveLast ts)"
| "oracle_step reserve t call s (PcObserveReserved ts) = observe_step s (PcObserveReserved ts)"
| "oracle_step reserve t call s (PcObserveNext ts) = observe_step s (PcObserveNext ts)"
| "oracle_step reserve t call s (PcDone result) = None"

text \<open>
  \<^verbatim>\<open>reset_after_failover\<close>, which no serving path calls, is not among the steps: it is three
  separate stores, and threads that allocate between them are outside this model.
\<close>

section \<open>Interleaving\<close>

text \<open>
  The system: the shared oracle, where each thread stands, and the log of successful
  allocations, newest first, which records the thread and the timestamp at the moment its
  compare-and-exchange succeeds.
\<close>

record 'p oracle_system =
  os_shared :: "'p ConcurrentTimestampOracle"
  os_threads :: "thread \<Rightarrow> (OracleCall \<times> OraclePc) option"
  os_log :: "(thread \<times> Timestamp) list"

definition allocation_event :: "thread \<Rightarrow> OraclePc \<Rightarrow> OraclePc \<Rightarrow> (thread \<times> Timestamp) list" where
  "allocation_event t pc pc' =
     (case pc of
        PcCas nxt _ \<Rightarrow> if pc' = PcFetchMaxLast nxt then [(t, nxt)] else []
      | _ \<Rightarrow> [])"

definition finished :: "(OracleCall \<times> OraclePc) option \<Rightarrow> bool" where
  "finished c = (case c of None \<Rightarrow> True | Some (_, pc) \<Rightarrow> (case pc of PcDone _ \<Rightarrow> True | _ \<Rightarrow> False))"

inductive system_step :: "'p reserver \<Rightarrow> 'p oracle_system \<Rightarrow> 'p oracle_system \<Rightarrow> bool"
  for reserve :: "'p reserver" where
  step_call: "finished (os_threads sys t) \<Longrightarrow> call \<noteq> Observe (- 1) \<Longrightarrow>
    system_step reserve sys (sys\<lparr>os_threads := (os_threads sys)(t \<mapsto> (call, PcStart))\<rparr>)"
| step_run: "os_threads sys t = Some (call, pc) \<Longrightarrow>
    oracle_step reserve t call (os_shared sys) pc = Some (s', pc') \<Longrightarrow>
    system_step reserve sys \<lparr>os_shared = s', os_threads = (os_threads sys)(t \<mapsto> (call, pc')),
      os_log = allocation_event t pc pc' @ os_log sys\<rparr>"

definition system_init :: "Timestamp \<Rightarrow> 'p oracle_system \<Rightarrow> bool" where
  "system_init frontier sys \<longleftrightarrow>
     (\<exists>p sz threshold. concurrent_from_durable_frontier p frontier sz threshold = Inr (os_shared sys)) \<and>
     os_threads sys = Map.empty \<and> os_log sys = []"

section \<open>Invariants\<close>

text \<open>
  \<open>cursor_ok\<close> is the global part: the log descends strictly, lies above the recovered
  frontier and below the cursor. \<open>thread_ok\<close> is what a thread at a program point knows; it
  survives the steps of the others because the cursor only grows and the log only gets longer.
\<close>

definition above :: "OracleCall \<Rightarrow> u64 \<Rightarrow> bool" where
  "above call n \<longleftrightarrow> (case call of AllocateCommit start_ts \<Rightarrow> start_ts < n | _ \<Rightarrow> True)"

definition raising :: "OracleCall \<Rightarrow> u64 \<Rightarrow> bool" where
  "raising call minimum \<longleftrightarrow> (case call of AllocateCommit start_ts \<Rightarrow> start_ts < minimum \<and> minimum \<noteq> 0 | _ \<Rightarrow> False)"

fun thread_ok :: "u64 \<Rightarrow> (thread \<times> Timestamp) set \<Rightarrow> thread \<Rightarrow> OracleCall \<Rightarrow> OraclePc \<Rightarrow> bool" where
  "thread_ok nxt log t call PcStart \<longleftrightarrow> call \<noteq> Observe (- 1)"
| "thread_ok nxt log t call (PcRaiseLoad minimum) \<longleftrightarrow> raising call minimum"
| "thread_ok nxt log t call (PcRaiseCas minimum current) \<longleftrightarrow> raising call minimum \<and> current < minimum"
| "thread_ok nxt log t call (PcLoadReserved n) \<longleftrightarrow> above call nxt \<and> above call n"
| "thread_ok nxt log t call (PcCas n n') \<longleftrightarrow> above call nxt \<and> above call n \<and> checked_add n 1 = Some n'"
| "thread_ok nxt log t call (PcFetchMaxLast n) \<longleftrightarrow> above call n \<and> (t, n) \<in> log"
| "thread_ok nxt log t call (PcCountAllocation n) \<longleftrightarrow> above call n \<and> (t, n) \<in> log"
| "thread_ok nxt log t call (PcObserveLast ts) \<longleftrightarrow> ts \<noteq> - 1"
| "thread_ok nxt log t call (PcObserveReserved ts) \<longleftrightarrow> ts \<noteq> - 1"
| "thread_ok nxt log t call (PcObserveNext ts) \<longleftrightarrow> ts \<noteq> - 1"
| "thread_ok nxt log t call (PcDone r) \<longleftrightarrow> (\<forall>n. r = Inr (Some n) \<longrightarrow> above call n \<and> (t, n) \<in> log)"
| "thread_ok nxt log t call pc \<longleftrightarrow> above call nxt"

definition cursor_ok :: "Timestamp \<Rightarrow> u64 \<Rightarrow> (thread \<times> Timestamp) list \<Rightarrow> bool" where
  "cursor_ok frontier nxt log \<longleftrightarrow> nxt \<noteq> 0 \<and> frontier < nxt \<and> sorted_wrt (>) (map snd log) \<and>
     (\<forall>(t, a)\<in>set log. frontier < a \<and> a < nxt)"

definition threads_ok :: "'p oracle_system \<Rightarrow> bool" where
  "threads_ok sys \<longleftrightarrow> (\<forall>t call pc. os_threads sys t = Some (call, pc) \<longrightarrow>
     thread_ok (c_next_timestamp (os_shared sys)) (set (os_log sys)) t call pc)"

fun in_refill :: "OraclePc \<Rightarrow> bool" where
  "in_refill (PcCountWait _) = True"
| "in_refill (PcRefillLoad _) = True"
| "in_refill (PcReserve _ _) = True"
| "in_refill (PcStoreReserved _) = True"
| "in_refill PcCountReservation = True"
| "in_refill (PcUnlock _) = True"
| "in_refill _ = False"

definition lock_ok :: "'p oracle_system \<Rightarrow> bool" where
  "lock_ok sys \<longleftrightarrow> (\<forall>t call pc. os_threads sys t = Some (call, pc) \<longrightarrow> in_refill pc \<longrightarrow>
     c_refill_lock (os_shared sys) = Some t)"

definition system_ok :: "Timestamp \<Rightarrow> 'p oracle_system \<Rightarrow> bool" where
  "system_ok frontier sys \<longleftrightarrow> cursor_ok frontier (c_next_timestamp (os_shared sys)) (os_log sys) \<and>
     threads_ok sys \<and> lock_ok sys"

lemma above_mono: "above call n \<Longrightarrow> n \<le> n' \<Longrightarrow> above call n'"
  by (auto simp: above_def split: OracleCall.splits)

lemma thread_ok_mono: "thread_ok n log t call pc \<Longrightarrow> n \<le> n' \<Longrightarrow> log \<subseteq> log' \<Longrightarrow> thread_ok n' log' t call pc"
  by (cases pc) (auto intro: above_mono)

lemma raising_above: "raising call minimum \<Longrightarrow> minimum \<le> n \<Longrightarrow> above call n" "raising call minimum \<Longrightarrow> minimum \<noteq> 0"
  by (auto simp: raising_def above_def split: OracleCall.splits)

lemma after_load_reserved_ok:
  assumes "above call nxt" and "above call n"
  shows "thread_ok nxt log t call (after_load_reserved threshold n reserved)"
  using assms by (auto simp: after_load_reserved_def Let_def split: option.splits)

lemma oracle_step_ok:
  assumes "oracle_step reserve t call s pc = Some (s', pc')" and "thread_ok (c_next_timestamp s) log t call pc"
    and "c_next_timestamp s \<noteq> 0"
  shows "c_next_timestamp s \<le> c_next_timestamp s' \<and> c_next_timestamp s' \<noteq> 0 \<and>
    thread_ok (c_next_timestamp s') (set (allocation_event t pc pc') \<union> log) t call pc' \<and>
    (allocation_event t pc pc' = [] \<or>
      allocation_event t pc pc' = [(t, c_next_timestamp s)] \<and> c_next_timestamp s < c_next_timestamp s')"
proof (cases pc)
  case PcStart
  then show ?thesis
    using assms less_inc [where 'a=64] inc_nonzero [where 'a=64] by (cases call) (auto simp: allocation_event_def raising_def above_def checked_add_one
        split: if_splits option.splits)
next
  case (PcLoadReserved n)
  then show ?thesis using assms after_load_reserved_ok by (auto simp: allocation_event_def)
next
  case (PcCas n n')
  then show ?thesis
    using assms less_inc [of n] inc_nonzero [of n]
    by (auto simp: allocation_event_def checked_add_one split: if_splits)
next
  case (PcRaiseCas minimum current)
  then show ?thesis
    using assms by (auto simp: allocation_event_def intro: raising_above less_imp_le split: if_splits)
next
  case (PcObserveNext ts)
  then show ?thesis
    using assms inc_nonzero [of ts] by (auto simp: allocation_event_def max_def split: if_splits)
qed (use assms raising_above in \<open>auto simp: allocation_event_def Let_def above_def
      split: if_splits option.splits sum.splits prod.splits OracleCall.splits\<close>)

lemma lock_step:
  assumes "oracle_step reserve t call s pc = Some (s', pc')" and "in_refill pc \<Longrightarrow> c_refill_lock s = Some t"
  shows "(in_refill pc' \<longrightarrow> c_refill_lock s' = Some t) \<and>
    (\<forall>t'. t' \<noteq> t \<longrightarrow> c_refill_lock s = Some t' \<longrightarrow> c_refill_lock s' = Some t')"
  using assms by (cases pc) (auto simp: Let_def after_load_reserved_def
      split: if_splits option.splits sum.splits prod.splits OracleCall.splits)

lemma system_init_ok: "system_init frontier sys \<Longrightarrow> system_ok frontier sys"
  using less_inc [of frontier] inc_nonzero [of frontier]
  by (auto simp: system_init_def system_ok_def cursor_ok_def threads_ok_def lock_ok_def
      concurrent_from_durable_frontier_def and_then_eq_Inr ok_or_eq_Inr checked_add_one
      dest!: sym [of _ "os_shared sys"])

lemma cursor_ok_step:
  assumes "cursor_ok frontier n log" and "n \<le> n'" and "n' \<noteq> 0" and "ev = [] \<or> ev = [(t, n)] \<and> n < n'"
  shows "cursor_ok frontier n' (ev @ log)"
  using assms by (fastforce simp: cursor_ok_def)

lemma system_step_ok:
  assumes "system_step reserve sys sys'" and "system_ok frontier sys"
  shows "system_ok frontier sys'"
  using assms(1)
proof cases
  case (step_call t call)
  then show ?thesis
    using assms(2) by (auto simp: system_ok_def threads_ok_def lock_ok_def)
next
  case (step_run t call pc s' pc')
  let ?n = "c_next_timestamp (os_shared sys)" and ?n' = "c_next_timestamp s'"
  have pre: "cursor_ok frontier ?n (os_log sys)" "threads_ok sys" "lock_ok sys"
    using assms(2) by (simp_all add: system_ok_def)
  have "thread_ok ?n (set (os_log sys)) t call pc" "?n \<noteq> 0"
    using pre step_run(2) by (auto simp: threads_ok_def cursor_ok_def)
  note st = oracle_step_ok [OF step_run(3) this]
  have "cursor_ok frontier ?n' (allocation_event t pc pc' @ os_log sys)"
    using cursor_ok_step [OF pre(1)] st by blast
  moreover have "threads_ok sys'"
    using pre(2) st thread_ok_mono [of ?n "set (os_log sys)" _ _ _ ?n'] step_run(1)
    by (auto simp: threads_ok_def)
  moreover have "lock_ok sys'"
    using pre(3) lock_step [OF step_run(3)] step_run(1,2) by (auto simp: lock_ok_def)
  ultimately show ?thesis using step_run(1) by (simp add: system_ok_def)
qed

interpretation concurrent_oracle: step_invariant "system_init frontier" "system_step reserve" "system_ok frontier"
  for frontier reserve
  by unfold_locales (auto intro: system_init_ok system_step_ok)

lemma log_unique:
  fixes log :: "(thread \<times> Timestamp) list"
  shows "sorted_wrt (>) (map snd log) \<Longrightarrow> (t, n) \<in> set log \<Longrightarrow> (t', n) \<in> set log \<Longrightarrow> t = t'"
  by (induction log) fastforce+

text \<open>
  C13. Concurrent allocation never repeats a timestamp. However the atomic steps of any number of
  threads interleave, and whatever the reservation authority answers, the timestamps allocated
  by one oracle are strictly increasing in the order of their compare-and-exchange and lie above
  the frontier it was recovered from; a call that returns a timestamp is the only one to return
  it, a commit timestamp is newer than its start timestamp, and at most one thread at a time is
  inside the refill section. Observed marks are below the largest 64-bit value, which stores the
  exhaustion sentinel.
\<close>

theorem concurrent_timestamps_unique:
  assumes "system_init frontier sys0" and "(system_step reserve)\<^sup>*\<^sup>* sys0 sys"
  shows "sorted_wrt (>) (map snd (os_log sys)) \<and> (\<forall>t n. (t, n) \<in> set (os_log sys) \<longrightarrow> frontier < n) \<and>
    (\<forall>t call n. os_threads sys t = Some (call, PcDone (Inr (Some n))) \<longrightarrow>
       (t, n) \<in> set (os_log sys) \<and> above call n) \<and>
    (\<forall>t t' call call' n. os_threads sys t = Some (call, PcDone (Inr (Some n))) \<longrightarrow>
       os_threads sys t' = Some (call', PcDone (Inr (Some n))) \<longrightarrow> t = t') \<and>
    (\<forall>t t' call call' pc pc'. os_threads sys t = Some (call, pc) \<longrightarrow> os_threads sys t' = Some (call', pc') \<longrightarrow>
       in_refill pc \<longrightarrow> in_refill pc' \<longrightarrow> t = t')"
proof -
  have ok: "cursor_ok frontier (c_next_timestamp (os_shared sys)) (os_log sys)" "threads_ok sys" "lock_ok sys"
    using concurrent_oracle.reachable_inv [OF assms] by (simp_all add: system_ok_def)
  have srt: "sorted_wrt (>) (map snd (os_log sys))" using ok(1) by (simp add: cursor_ok_def)
  have fin: "(t, n) \<in> set (os_log sys) \<and> above call n"
    if "os_threads sys t = Some (call, PcDone (Inr (Some n)))" for t call n
    using ok(2) that unfolding threads_ok_def by fastforce
  then have "t = t'" if "os_threads sys t = Some (call, PcDone (Inr (Some n)))"
    "os_threads sys t' = Some (call', PcDone (Inr (Some n)))" for t t' call call' n
    using log_unique [OF srt] that by blast
  moreover have "t = t'" if "os_threads sys t = Some (call, pc)" "os_threads sys t' = Some (call', pc')"
    "in_refill pc" "in_refill pc'" for t t' call call' pc pc'
    using ok(3) that unfolding lock_ok_def by (metis option.inject)
  moreover have "\<forall>t n. (t, n) \<in> set (os_log sys) \<longrightarrow> frontier < n" using ok(1) by (auto simp: cursor_ok_def)
  ultimately show ?thesis using srt fin by blast
qed

section \<open>Schedules\<close>

text \<open>A schedule names the thread that steps next; a blocked or idle thread passes.\<close>

fun run_schedule :: "'p reserver \<Rightarrow> thread list \<Rightarrow> 'p oracle_system \<Rightarrow> 'p oracle_system" where
  "run_schedule reserve [] sys = sys"
| "run_schedule reserve (t # ts) sys =
     run_schedule reserve ts
       (case os_threads sys t of
          None \<Rightarrow> sys
        | Some (call, pc) \<Rightarrow>
            (case oracle_step reserve t call (os_shared sys) pc of
               None \<Rightarrow> sys
             | Some (s', pc') \<Rightarrow>
                 \<lparr>os_shared = s', os_threads = (os_threads sys)(t \<mapsto> (call, pc')),
                  os_log = allocation_event t pc pc' @ os_log sys\<rparr>))"

lemma run_schedule_steps: "(system_step reserve)\<^sup>*\<^sup>* sys (run_schedule reserve ts sys)"
proof (induction ts arbitrary: sys)
  case (Cons t ts)
  let ?sys = "case os_threads sys t of
          None \<Rightarrow> sys
        | Some (call, pc) \<Rightarrow>
            (case oracle_step reserve t call (os_shared sys) pc of
               None \<Rightarrow> sys
             | Some (s', pc') \<Rightarrow>
                 \<lparr>os_shared = s', os_threads = (os_threads sys)(t \<mapsto> (call, pc')),
                  os_log = allocation_event t pc pc' @ os_log sys\<rparr>)"
  have "(system_step reserve)\<^sup>*\<^sup>* sys ?sys"
    using step_run [of sys t] by (auto split: option.splits)
  moreover have "(system_step reserve)\<^sup>*\<^sup>* ?sys (run_schedule reserve ts ?sys)" by (rule Cons.IH)
  ultimately show ?case by simp
qed simp

definition node_at :: "'p \<Rightarrow> Timestamp \<Rightarrow> u64 \<Rightarrow> u64 \<Rightarrow> 'p oracle_system" where
  "node_at p frontier sz threshold =
     \<lparr>os_shared = projr (concurrent_from_durable_frontier p frontier sz threshold),
      os_threads = Map.empty, os_log = []\<rparr>"

definition call_in :: "thread \<Rightarrow> OracleCall \<Rightarrow> 'p oracle_system \<Rightarrow> 'p oracle_system" where
  "call_in t call sys = sys\<lparr>os_threads := (os_threads sys)(t \<mapsto> (call, PcStart))\<rparr>"

lemma call_in_step:
  "finished (os_threads sys t) \<Longrightarrow> call \<noteq> Observe (- 1) \<Longrightarrow> system_step reserve sys (call_in t call sys)"
  unfolding call_in_def by (rule step_call)

definition demo_node :: "u64 oracle_system" where
  "demo_node = call_in 1 (AllocateCommit 103) (call_in 0 Allocate (node_at 100 100 10 2))"

definition demo_run :: "u64 oracle_system" where
  "demo_run = run_schedule demo_reserver
     [0, 0, 1, 0, 1, 0, 1, 1, 0, 0, 0, 1, 0, 0, 0, 1, 0, 0, 1, 1, 0, 1, 1, 1, 0, 1, 1, 0, 1, 1, 0, 1, 0, 1, 0, 1, 0] demo_node"

lemma demo_run_reachable: "system_init 100 (node_at 100 100 10 2 :: u64 oracle_system)"
  "(system_step demo_reserver)\<^sup>*\<^sup>* (node_at 100 100 10 2) demo_run"
proof -
  show "system_init 100 (node_at 100 100 10 2 :: u64 oracle_system)"
    unfolding system_init_def
    by (intro conjI exI [of _ 100] exI [of _ 10] exI [of _ 2])
      (simp_all add: node_at_def concurrent_from_durable_frontier_def validate_reservation_policy_def checked_add_def)
  have "system_step demo_reserver (node_at 100 100 10 2) (call_in 0 Allocate (node_at 100 100 10 2))"
    by (rule call_in_step) (simp_all add: node_at_def finished_def)
  moreover have "system_step demo_reserver (call_in 0 Allocate (node_at 100 100 10 2)) demo_node"
    unfolding demo_node_def by (rule call_in_step) (simp_all add: call_in_def node_at_def finished_def)
  ultimately show "(system_step demo_reserver)\<^sup>*\<^sup>* (node_at 100 100 10 2) demo_run"
    unfolding demo_run_def using run_schedule_steps by (meson converse_rtranclp_into_rtranclp)
qed

theorem concurrent_timestamps_unique_witness:
  "os_threads demo_run 0 = Some (Allocate, PcDone (Inr (Some 104))) \<and>
   os_threads demo_run 1 = Some (AllocateCommit 103, PcDone (Inr (Some 105))) \<and>
   sorted_wrt (>) (map snd (os_log demo_run)) \<and> above (AllocateCommit 103) 105"
proof -
  have 1: "os_threads demo_run 1 = Some (AllocateCommit 103, PcDone (Inr (Some 105)))" by code_simp
  have "os_threads demo_run 0 = Some (Allocate, PcDone (Inr (Some 104)))" by code_simp
  with 1 concurrent_timestamps_unique [OF demo_run_reachable] show ?thesis by blast
qed

text \<open>
  \<^verbatim>\<open>observe_replicated_high_water\<close> raises the reserved frontier before the cursor. A thread that
  allocates between the two stores finds the cursor inside an interval nobody reserved and hands
  out its values: here one that no reservation call, successful or not, has covered.
\<close>

definition observed_run :: "u64 oracle_system" where
  "observed_run = run_schedule demo_reserver [1, 1, 1, 0, 0, 0, 0, 0, 0]
     (call_in 1 (Observe 1000) (call_in 0 Allocate (node_at 100 100 10 2)))"

theorem observation_lends_unreserved_timestamps:
  "os_threads observed_run 0 = Some (Allocate, PcDone (Inr (Some 101))) \<and>
   c_reservations (os_shared observed_run) = 0 \<and> c_provider (os_shared observed_run) = 100"
  by code_simp

end
