(* ===== verification/Std_Text.thy ===== *)
theory Std_Text
  imports Prelude
begin

text \<open>
  What the metadata sources use of the standard library on text: whether \<^verbatim>\<open>str::trim\<close> leaves
  nothing, and whether \<^verbatim>\<open>str::parse::<SocketAddr>\<close> accepts. Strings are their UTF-8 bytes. The
  parser of \<^verbatim>\<open>core::net\<close> is translated as functions that return the unread rest.
\<close>

section \<open>Blank strings\<close>

text \<open>The characters with the property \<^verbatim>\<open>White_Space\<close>, in their UTF-8 form.\<close>

definition ascii_space :: "u8 \<Rightarrow> bool" where
  "ascii_space b \<longleftrightarrow> 9 \<le> b \<and> b \<le> 13 \<or> b = 32"

fun is_blank :: "bytes \<Rightarrow> bool" where
  "is_blank [] \<longleftrightarrow> True"
| "is_blank [a] \<longleftrightarrow> ascii_space a"
| "is_blank [a, b] \<longleftrightarrow>
     ascii_space a \<and> is_blank [b] \<or> a = 194 \<and> (b = 133 \<or> b = 160)"
| "is_blank (a # b # c # rest) \<longleftrightarrow>
     ascii_space a \<and> is_blank (b # c # rest) \<or>
     a = 194 \<and> (b = 133 \<or> b = 160) \<and> is_blank (c # rest) \<or>
     (a = 225 \<and> b = 154 \<and> c = 128 \<or>
      a = 226 \<and> b = 128 \<and> (128 \<le> c \<and> c \<le> 138 \<or> c = 168 \<or> c = 169 \<or> c = 175) \<or>
      a = 226 \<and> b = 129 \<and> c = 159 \<or>
      a = 227 \<and> b = 128 \<and> c = 128) \<and> is_blank rest"

section \<open>Socket addresses\<close>

definition to_digit :: "int \<Rightarrow> u8 \<Rightarrow> int option" where
  "to_digit radix b =
     (let d = (if 48 \<le> b \<and> b \<le> 57 then Some (uint b - 48)
               else if 97 \<le> b \<and> b \<le> 102 then Some (uint b - 87)
               else if 65 \<le> b \<and> b \<le> 70 then Some (uint b - 55) else None) in
      case d of None \<Rightarrow> None | Some n \<Rightarrow> if n < radix then Some n else None)"

text \<open>\<open>read_digits\<close> returns the value, the number of digits and the rest.\<close>

fun read_digits :: "int \<Rightarrow> bytes \<Rightarrow> int \<Rightarrow> nat \<Rightarrow> int \<times> nat \<times> bytes" where
  "read_digits radix [] v n = (v, n, [])"
| "read_digits radix (b # bs) v n =
     (case to_digit radix b of
        None \<Rightarrow> (v, n, b # bs)
      | Some d \<Rightarrow> read_digits radix bs (v * radix + d) (n + 1))"

definition read_number :: "int \<Rightarrow> nat option \<Rightarrow> bool \<Rightarrow> int \<Rightarrow> bytes \<Rightarrow> bytes option" where
  "read_number radix max_digits allow_zero_prefix largest s =
     (case read_digits radix s 0 0 of (v, n, rest) \<Rightarrow>
        if n = 0 then None
        else if (case max_digits of None \<Rightarrow> False | Some m \<Rightarrow> n > m) then None
        else if v > largest then None
        else if \<not> allow_zero_prefix \<and> hd s = 48 \<and> n > 1 then None
        else Some rest)"

definition read_given_char :: "u8 \<Rightarrow> bytes \<Rightarrow> bytes option" where
  "read_given_char c s = (case s of [] \<Rightarrow> None | b # rest \<Rightarrow> if b = c then Some rest else None)"

definition read_separator :: "u8 \<Rightarrow> nat \<Rightarrow> (bytes \<Rightarrow> bytes option) \<Rightarrow> bytes \<Rightarrow> bytes option" where
  "read_separator sep i inner s =
     (if i > 0 then Option.bind (read_given_char sep s) inner else inner s)"

definition read_ipv4_addr :: "bytes \<Rightarrow> bytes option" where
  "read_ipv4_addr s =
     foldl (\<lambda>r i. Option.bind r (read_separator 46 i (read_number 10 (Some 3) False 255))) (Some s) [0, 1, 2, 3]"

text \<open>
  \<open>read_groups n i s\<close> reads up to \<open>n\<close> more groups from index \<open>i\<close> on: how many groups were
  read in all, whether the last was an embedded IPv4 address, and the rest.
\<close>

fun read_groups :: "nat \<Rightarrow> nat \<Rightarrow> bytes \<Rightarrow> nat \<times> bool \<times> bytes" where
  "read_groups 0 i s = (i, False, s)"
| "read_groups (Suc n) i s =
     (case (if n > 0 then read_separator 58 i read_ipv4_addr s else None) of
        Some rest \<Rightarrow> (i + 2, True, rest)
      | None \<Rightarrow>
          (case read_separator 58 i (read_number 16 (Some 4) True 65535) s of
             None \<Rightarrow> (i, False, s)
           | Some rest \<Rightarrow> read_groups n (i + 1) rest))"

definition read_ipv6_addr :: "bytes \<Rightarrow> bytes option" where
  "read_ipv6_addr s =
     (case read_groups 8 0 s of (head_size, head_ipv4, rest) \<Rightarrow>
        if head_size = 8 then Some rest
        else if head_ipv4 then None
        else Option.bind (Option.bind (read_given_char 58 rest) (read_given_char 58)) (\<lambda>rest.
          Some (snd (snd (read_groups (8 - (head_size + 1)) 0 rest)))))"

definition read_port :: "bytes \<Rightarrow> bytes option" where
  "read_port s = Option.bind (read_given_char 58 s) (read_number 10 None True 65535)"

definition read_scope_id :: "bytes \<Rightarrow> bytes option" where
  "read_scope_id s = Option.bind (read_given_char 37 s) (read_number 10 None True 4294967295)"

definition read_socket_addr_v4 :: "bytes \<Rightarrow> bytes option" where
  "read_socket_addr_v4 s = Option.bind (read_ipv4_addr s) read_port"

definition read_socket_addr_v6 :: "bytes \<Rightarrow> bytes option" where
  "read_socket_addr_v6 s =
     Option.bind (read_given_char 91 s) (\<lambda>s.
     Option.bind (read_ipv6_addr s) (\<lambda>s.
     Option.bind (read_given_char 93 (case read_scope_id s of None \<Rightarrow> s | Some rest \<Rightarrow> rest)) read_port))"

definition is_socket_addr :: "bytes \<Rightarrow> bool" where
  "is_socket_addr s \<longleftrightarrow>
     (case read_socket_addr_v4 s of
        Some rest \<Rightarrow> rest = []
      | None \<Rightarrow> read_socket_addr_v6 s = Some [])"

text \<open>Two accepted and three refused spellings: \<^verbatim>\<open>127.0.0.1:7001\<close>, \<^verbatim>\<open>[::1]:80\<close>;
  \<^verbatim>\<open>127.0.0.01:80\<close>, \<^verbatim>\<open>1.2.3.4\<close> and \<^verbatim>\<open>db:80\<close>.\<close>

lemma socket_addr_examples:
  "is_socket_addr [49, 50, 55, 46, 48, 46, 48, 46, 49, 58, 55, 48, 48, 49]"
  "is_socket_addr [91, 58, 58, 49, 93, 58, 56, 48]"
  "\<not> is_socket_addr [49, 50, 55, 46, 48, 46, 48, 46, 48, 49, 58, 56, 48]"
  "\<not> is_socket_addr [49, 46, 50, 46, 51, 46, 52]"
  "\<not> is_socket_addr [100, 98, 58, 56, 48]"
  by code_simp+

end
