(* ===== verification/Catalog.thy ===== *)
theory Catalog
  imports Std_Text BTreeMap Row_Key Commands
begin

text \<open>
  The SQL catalog of one node: table schemas and their validation, the in-memory catalog with its
  allocator of table identities (\<^verbatim>\<open>ragnordb-catalog/src/lib.rs\<close>), and the writer that appends
  every table creation to a durable log before it publishes it (\<^verbatim>\<open>durable.rs\<close>). The log is a
  parameter: a function on its own state.
\<close>

section \<open>Schemas\<close>

record ColumnSchema =
  cs_id :: ColumnId
  cs_name :: bytes
  cs_ty :: DataType
  cs_nullable :: bool

record TableSchema =
  ts_id :: TableId
  ts_name :: bytes
  ts_columns :: "ColumnSchema list"
  ts_primary_key_column_ids :: "ColumnId list"
  ts_schema_version :: u64
  ts_tablet_count :: u32

definition ColumnSchema_to_definition :: "ColumnSchema \<Rightarrow> ColumnDefinition" where
  "ColumnSchema_to_definition c =
     \<lparr>cd_column_id = cs_id c, cd_name = cs_name c, cd_ty = cs_ty c, cd_nullable = cs_nullable c\<rparr>"

definition ColumnSchema_from_definition :: "ColumnDefinition \<Rightarrow> ColumnSchema" where
  "ColumnSchema_from_definition d =
     \<lparr>cs_id = cd_column_id d, cs_name = cd_name d, cs_ty = cd_ty d, cs_nullable = cd_nullable d\<rparr>"

definition column_by_name :: "TableSchema \<Rightarrow> bytes \<Rightarrow> ColumnSchema option" where
  "column_by_name t name = find (\<lambda>c. cs_name c = name) (ts_columns t)"

definition column_by_id :: "TableSchema \<Rightarrow> ColumnId \<Rightarrow> ColumnSchema option" where
  "column_by_id t i = find (\<lambda>c. cs_id c = i) (ts_columns t)"

definition column_ordinal :: "TableSchema \<Rightarrow> ColumnId \<Rightarrow> nat option" where
  "column_ordinal t i = position (\<lambda>c. cs_id c = i) (ts_columns t)"

definition primary_key_columns :: "TableSchema \<Rightarrow> ColumnSchema list result" where
  "primary_key_columns t =
     try_map (\<lambda>i. ok_or (column_by_id t i) SchemaMismatch) (ts_primary_key_column_ids t)"

definition TableSchema_to_definition :: "TableSchema \<Rightarrow> TableDefinition" where
  "TableSchema_to_definition t =
     \<lparr>td_table_id = ts_id t, td_name = ts_name t,
      td_columns = map ColumnSchema_to_definition (ts_columns t),
      td_primary_key_column_ids = ts_primary_key_column_ids t,
      td_schema_version = ts_schema_version t, td_tablet_count = ts_tablet_count t\<rparr>"

text \<open>
  The two loops of \<^verbatim>\<open>validate_table_definition\<close>. The sets collect the names and identities
  already seen.
\<close>

fun validate_columns :: "ColumnSchema list \<Rightarrow> bytes list \<Rightarrow> ColumnId list \<Rightarrow> unit result" where
  "validate_columns [] column_names column_ids = Inr ()"
| "validate_columns (c # cs) column_names column_ids =
     and_then (ensure (cs_id c \<noteq> 0) ConstraintViolation) (\<lambda>_.
     and_then (ensure (\<not> is_blank (cs_name c)) ConstraintViolation) (\<lambda>_.
     and_then (ensure (cs_name c \<notin> set column_names) ConstraintViolation) (\<lambda>_.
     and_then (ensure (cs_id c \<notin> set column_ids) ConstraintViolation) (\<lambda>_.
       validate_columns cs (cs_name c # column_names) (cs_id c # column_ids)))))"

fun validate_primary_key :: "ColumnSchema list \<Rightarrow> ColumnId list \<Rightarrow> ColumnId list \<Rightarrow> unit result" where
  "validate_primary_key columns [] primary_key_ids = Inr ()"
| "validate_primary_key columns (i # is) primary_key_ids =
     and_then (ensure (i \<notin> set primary_key_ids) ConstraintViolation) (\<lambda>_.
     and_then (ok_or (find (\<lambda>c. cs_id c = i) columns) ConstraintViolation) (\<lambda>column.
     and_then (ensure (\<not> cs_nullable column) ConstraintViolation) (\<lambda>_.
       validate_primary_key columns is (i # primary_key_ids))))"

definition validate_table_definition :: "bytes \<Rightarrow> ColumnSchema list \<Rightarrow> ColumnId list \<Rightarrow> unit result" where
  "validate_table_definition name columns primary_key_column_ids =
     and_then (ensure (\<not> is_blank name) ConstraintViolation) (\<lambda>_.
     and_then (ensure (columns \<noteq> []) ConstraintViolation) (\<lambda>_.
     and_then (ensure (primary_key_column_ids \<noteq> []) ConstraintViolation) (\<lambda>_.
     and_then (validate_columns columns [] []) (\<lambda>_.
       validate_primary_key columns primary_key_column_ids []))))"

definition validate_table_schema :: "TableSchema \<Rightarrow> unit result" where
  "validate_table_schema t =
     and_then (ensure (ts_id t \<noteq> 0) ConstraintViolation) (\<lambda>_.
     and_then (ensure (ts_schema_version t \<noteq> 0) ConstraintViolation) (\<lambda>_.
     and_then (ensure (ts_tablet_count t \<noteq> 0) ConstraintViolation) (\<lambda>_.
       validate_table_definition (ts_name t) (ts_columns t) (ts_primary_key_column_ids t))))"

definition TableSchema_from_definition :: "TableDefinition \<Rightarrow> TableSchema result" where
  "TableSchema_from_definition d =
     (let schema = \<lparr>ts_id = td_table_id d, ts_name = td_name d,
        ts_columns = map ColumnSchema_from_definition (td_columns d),
        ts_primary_key_column_ids = td_primary_key_column_ids d,
        ts_schema_version = td_schema_version d, ts_tablet_count = td_tablet_count d\<rparr> in
      and_then (validate_table_schema schema) (\<lambda>_. Inr schema))"

section \<open>The in-memory catalog\<close>

record MemoryCatalog =
  mc_table_ids_by_name :: "(bytes, TableId) btree"
  mc_tables_by_id :: "(TableId, TableSchema) btree"
  mc_next_table_id :: "u64 option"

definition MemoryCatalog_new :: MemoryCatalog where
  "MemoryCatalog_new =
     \<lparr>mc_table_ids_by_name = bt_new, mc_tables_by_id = bt_new, mc_next_table_id = Some 1\<rparr>"

definition restore_table_id_floor :: "MemoryCatalog \<Rightarrow> TableId \<Rightarrow> unit result \<times> MemoryCatalog" where
  "restore_table_id_floor c next_table_id =
     (if next_table_id = 0 then (Inl Configuration, c)
      else case mc_next_table_id c of
          None \<Rightarrow> (Inl Configuration, c)
        | Some current \<Rightarrow> (Inr (), c\<lparr>mc_next_table_id := Some (max current next_table_id)\<rparr>))"

definition table_id_high_water_mark :: "MemoryCatalog \<Rightarrow> TableId" where
  "table_id_high_water_mark c = (case mc_next_table_id c of Some n \<Rightarrow> n - 1 | None \<Rightarrow> - 1)"

definition prepare_table ::
  "MemoryCatalog \<Rightarrow> bytes \<Rightarrow> ColumnSchema list \<Rightarrow> ColumnId list \<Rightarrow> TableSchema result" where
  "prepare_table c name columns primary_key_column_ids =
     and_then (ensure (\<not> bt_contains_key (mc_table_ids_by_name c) name) ConstraintViolation) (\<lambda>_.
     and_then (ok_or (mc_next_table_id c) ConstraintViolation) (\<lambda>table_id.
     let schema = \<lparr>ts_id = table_id, ts_name = name, ts_columns = columns,
        ts_primary_key_column_ids = primary_key_column_ids, ts_schema_version = 1, ts_tablet_count = 1\<rparr> in
     and_then (validate_table_schema schema) (\<lambda>_. Inr schema)))"

definition next_after_install :: "u64 option \<Rightarrow> TableId \<Rightarrow> u64 option" where
  "next_after_install next_table_id installed =
     (case (next_table_id, checked_add installed 1) of
        (Some current, Some candidate) \<Rightarrow> Some (max current candidate)
      | _ \<Rightarrow> None)"

definition install_table :: "MemoryCatalog \<Rightarrow> TableSchema \<Rightarrow> TableSchema result \<times> MemoryCatalog" where
  "install_table c schema =
     (case validate_table_schema schema of
        Inl e \<Rightarrow> (Inl e, c)
      | Inr _ \<Rightarrow>
          (case bt_get (mc_tables_by_id c) (ts_id schema) of
             Some existing \<Rightarrow> (if existing = schema then Inr existing else Inl ConstraintViolation, c)
           | None \<Rightarrow>
               if bt_contains_key (mc_table_ids_by_name c) (ts_name schema) then (Inl ConstraintViolation, c)
               else (Inr schema,
                 c\<lparr>mc_next_table_id := next_after_install (mc_next_table_id c) (ts_id schema),
                   mc_table_ids_by_name := bt_insert (ts_name schema) (ts_id schema) (mc_table_ids_by_name c),
                   mc_tables_by_id := bt_insert (ts_id schema) schema (mc_tables_by_id c)\<rparr>)))"

definition publish_prepared_table :: "MemoryCatalog \<Rightarrow> TableSchema \<Rightarrow> TableSchema result \<times> MemoryCatalog" where
  "publish_prepared_table c schema =
     (case mc_next_table_id c of
        None \<Rightarrow> (Inl CorruptData, c)
      | Some expected_table_id \<Rightarrow>
          if ts_id schema \<noteq> expected_table_id then (Inl CorruptData, c)
          else if bt_contains_key (mc_table_ids_by_name c) (ts_name schema) \<or>
                  bt_contains_key (mc_tables_by_id c) (ts_id schema) then (Inl CorruptData, c)
          else install_table c schema)"

definition add_table ::
  "MemoryCatalog \<Rightarrow> bytes \<Rightarrow> ColumnSchema list \<Rightarrow> ColumnId list \<Rightarrow> TableId result \<times> MemoryCatalog" where
  "add_table c name columns primary_key_column_ids =
     (case prepare_table c name columns primary_key_column_ids of
        Inl e \<Rightarrow> (Inl e, c)
      | Inr schema \<Rightarrow>
          (case publish_prepared_table c schema of
             (Inl e, c') \<Rightarrow> (Inl e, c')
           | (Inr _, c') \<Rightarrow> (Inr (ts_id schema), c')))"

definition install_definition :: "MemoryCatalog \<Rightarrow> TableDefinition \<Rightarrow> TableSchema result \<times> MemoryCatalog" where
  "install_definition c definition =
     (case TableSchema_from_definition definition of
        Inl e \<Rightarrow> (Inl e, c)
      | Inr schema \<Rightarrow> install_table c schema)"

definition table_by_name :: "MemoryCatalog \<Rightarrow> bytes \<Rightarrow> TableSchema option" where
  "table_by_name c name =
     Option.bind (bt_get (mc_table_ids_by_name c) name) (bt_get (mc_tables_by_id c))"

definition table_by_id :: "MemoryCatalog \<Rightarrow> TableId \<Rightarrow> TableSchema option" where
  "table_by_id c i = bt_get (mc_tables_by_id c) i"

definition list_tables :: "MemoryCatalog \<Rightarrow> TableSchema list" where
  "list_tables c = bt_values (mc_tables_by_id c)"

section \<open>The durable writer\<close>

record CatalogLogExtent =
  ce_start_lsn :: u64
  ce_end_lsn :: u64

record CatalogLogRecord =
  cl_table_id :: TableId
  cl_update_timestamp :: Timestamp
  cl_command :: CatalogCommand

record CatalogCreateOutcome =
  co_schema :: TableSchema
  co_update_timestamp :: Timestamp
  co_wal_extent :: CatalogLogExtent

type_synonym 'l catalog_log = "'l \<Rightarrow> CatalogLogRecord \<Rightarrow> CatalogLogExtent result \<times> 'l"

text \<open>The reason a stopped writer keeps is text; only whether there is one matters.\<close>

record 'l DurableCatalog =
  dc_catalog :: MemoryCatalog
  dc_durable_log :: 'l
  dc_recovery_required :: bool

definition DurableCatalog_new :: "'l \<Rightarrow> 'l DurableCatalog" where
  "DurableCatalog_new log =
     \<lparr>dc_catalog = MemoryCatalog_new, dc_durable_log = log, dc_recovery_required = False\<rparr>"

definition from_recovered :: "MemoryCatalog \<Rightarrow> 'l \<Rightarrow> 'l DurableCatalog" where
  "from_recovered catalog log =
     \<lparr>dc_catalog = catalog, dc_durable_log = log, dc_recovery_required = False\<rparr>"

definition ensure_write_path_available :: "'l DurableCatalog \<Rightarrow> unit result" where
  "ensure_write_path_available d = ensure (\<not> dc_recovery_required d) RecoveryRequired"

definition stop_for_recovery :: "'l DurableCatalog \<Rightarrow> Error \<times> 'l DurableCatalog" where
  "stop_for_recovery d = (RecoveryRequired, d\<lparr>dc_recovery_required := True\<rparr>)"

definition install_replicated_definition ::
  "'l DurableCatalog \<Rightarrow> TableDefinition \<Rightarrow> TableSchema result \<times> 'l DurableCatalog" where
  "install_replicated_definition d definition =
     (case ensure_write_path_available d of
        Inl e \<Rightarrow> (Inl e, d)
      | Inr _ \<Rightarrow>
          (case install_definition (dc_catalog d) definition of (r, c) \<Rightarrow> (r, d\<lparr>dc_catalog := c\<rparr>)))"

definition catalog_record :: "TableSchema \<Rightarrow> Timestamp \<Rightarrow> CatalogLogRecord" where
  "catalog_record prepared update_timestamp =
     \<lparr>cl_table_id = ts_id prepared, cl_update_timestamp = update_timestamp,
      cl_command = \<lparr>cc_operation = CreateTable \<lparr>cto_table_def = TableSchema_to_definition prepared\<rparr>\<rparr>\<rparr>"

definition checked_creation ::
  "'l DurableCatalog \<Rightarrow> bytes \<Rightarrow> ColumnSchema list \<Rightarrow> ColumnId list \<Rightarrow> Timestamp result \<Rightarrow>
     (TableSchema \<times> Timestamp) result" where
  "checked_creation d name columns primary_key_column_ids allocated =
     and_then (ensure_write_path_available d) (\<lambda>_.
     and_then (prepare_table (dc_catalog d) name columns primary_key_column_ids) (\<lambda>prepared.
     and_then allocated (\<lambda>update_timestamp.
     and_then (ensure (update_timestamp \<noteq> 0) Configuration) (\<lambda>_. Inr (prepared, update_timestamp)))))"

text \<open>
  \<^verbatim>\<open>create_table\<close>: validation first, then the timestamp, then the log, and publication last. The
  timestamp allocator is a closure the caller passes; its answer is an argument.
\<close>

definition create_table ::
  "'l catalog_log \<Rightarrow> 'l DurableCatalog \<Rightarrow> bytes \<Rightarrow> ColumnSchema list \<Rightarrow> ColumnId list \<Rightarrow> Timestamp result \<Rightarrow>
     CatalogCreateOutcome result \<times> 'l DurableCatalog" where
  "create_table append_update d name columns primary_key_column_ids allocated =
     (case checked_creation d name columns primary_key_column_ids allocated of
        Inl e \<Rightarrow> (Inl e, d)
      | Inr (prepared, update_timestamp) \<Rightarrow>
          (case append_update (dc_durable_log d) (catalog_record prepared update_timestamp) of
             (Inl (CatalogOutcomeUnknown a b), log) \<Rightarrow>
               (Inl (CatalogOutcomeUnknown a b), d\<lparr>dc_durable_log := log, dc_recovery_required := True\<rparr>)
           | (Inl e, log) \<Rightarrow> (Inl e, d\<lparr>dc_durable_log := log\<rparr>)
           | (Inr extent, log) \<Rightarrow>
               (case publish_prepared_table (dc_catalog d) prepared of
                  (Inr schema, c) \<Rightarrow>
                    (Inr \<lparr>co_schema = schema, co_update_timestamp = update_timestamp, co_wal_extent = extent\<rparr>,
                     d\<lparr>dc_durable_log := log, dc_catalog := c\<rparr>)
                | (Inl _, c) \<Rightarrow>
                    (case stop_for_recovery (d\<lparr>dc_durable_log := log, dc_catalog := c\<rparr>) of
                       (e, d') \<Rightarrow> (Inl e, d')))))"

section \<open>Invariant\<close>

text \<open>
  The two indexes agree, every schema is valid and stored under its identity, and every identity
  in use lies below the next one to allocate.
\<close>

definition catalog_ok :: "MemoryCatalog \<Rightarrow> bool" where
  "catalog_ok c \<longleftrightarrow>
     (\<forall>i t. bt_get (mc_tables_by_id c) i = Some t \<longrightarrow>
        ts_id t = i \<and> validate_table_schema t = Inr () \<and> bt_get (mc_table_ids_by_name c) (ts_name t) = Some i \<and>
        (\<forall>nx. mc_next_table_id c = Some nx \<longrightarrow> i < nx)) \<and>
     (\<forall>n i. bt_get (mc_table_ids_by_name c) n = Some i \<longrightarrow>
        (\<exists>t. bt_get (mc_tables_by_id c) i = Some t \<and> ts_name t = n)) \<and>
     mc_next_table_id c \<noteq> Some 0"

lemma catalog_ok_new: "catalog_ok MemoryCatalog_new"
  by (simp add: catalog_ok_def MemoryCatalog_new_def)

lemma catalog_okD:
  assumes "catalog_ok c"
  shows "bt_get (mc_tables_by_id c) i = Some t \<Longrightarrow>
      ts_id t = i \<and> validate_table_schema t = Inr () \<and> bt_get (mc_table_ids_by_name c) (ts_name t) = Some i"
    and "bt_get (mc_table_ids_by_name c) n = Some i \<Longrightarrow>
      \<exists>t. bt_get (mc_tables_by_id c) i = Some t \<and> ts_name t = n \<and> ts_id t = i"
    and "bt_get (mc_tables_by_id c) i = Some t \<Longrightarrow> mc_next_table_id c = Some nx \<Longrightarrow> i < nx"
    and "mc_next_table_id c \<noteq> Some 0"
  using assms unfolding catalog_ok_def by blast+

lemma table_by_name_ok:
  assumes "catalog_ok c"
  shows "table_by_name c n = Some t \<longleftrightarrow> table_by_id c (ts_id t) = Some t \<and> ts_name t = n"
proof
  assume "table_by_name c n = Some t"
  then obtain i where i: "bt_get (mc_table_ids_by_name c) n = Some i" "bt_get (mc_tables_by_id c) i = Some t"
    by (auto simp: table_by_name_def bind_eq_Some_conv)
  with catalog_okD(2) [OF assms i(1)] show "table_by_id c (ts_id t) = Some t \<and> ts_name t = n"
    by (auto simp: table_by_id_def)
next
  assume "table_by_id c (ts_id t) = Some t \<and> ts_name t = n"
  with catalog_okD(1) [OF assms, of "ts_id t" t] show "table_by_name c n = Some t"
    by (auto simp: table_by_name_def table_by_id_def)
qed

lemma list_tables_ok: "catalog_ok c \<Longrightarrow> t \<in> set (list_tables c) \<longleftrightarrow> table_by_id c (ts_id t) = Some t"
  using catalog_okD(1) by (fastforce simp: list_tables_def table_by_id_def bt_values_mem)

lemma restore_floor_ok: "catalog_ok c \<Longrightarrow> catalog_ok (snd (restore_table_id_floor c n))"
  by (auto simp: catalog_ok_def restore_table_id_floor_def max_def split: option.splits) (meson less_le_trans)

definition installed :: "MemoryCatalog \<Rightarrow> TableSchema \<Rightarrow> MemoryCatalog" where
  "installed c t =
     c\<lparr>mc_next_table_id := next_after_install (mc_next_table_id c) (ts_id t),
       mc_table_ids_by_name := bt_insert (ts_name t) (ts_id t) (mc_table_ids_by_name c),
       mc_tables_by_id := bt_insert (ts_id t) t (mc_tables_by_id c)\<rparr>"

definition installable :: "MemoryCatalog \<Rightarrow> TableSchema \<Rightarrow> bool" where
  "installable c t \<longleftrightarrow> validate_table_schema t = Inr () \<and> bt_get (mc_tables_by_id c) (ts_id t) = None \<and>
     bt_get (mc_table_ids_by_name c) (ts_name t) = None"

lemma install_table_new: "installable c t \<Longrightarrow> install_table c t = (Inr t, installed c t)"
  by (simp add: installable_def installed_def install_table_def)

lemma install_table_keeps:
  assumes "\<not> installable c t"
  shows "snd (install_table c t) = c"
  using assms
  by (cases "validate_table_schema t"; cases "bt_get (mc_tables_by_id c) (ts_id t)")
    (simp_all add: install_table_def installable_def)

lemma next_after_install_Some:
  assumes "next_after_install n i = Some nx"
  shows "\<exists>cur. n = Some cur \<and> cur \<le> nx \<and> i < nx"
proof -
  from assms obtain cur cand where n: "n = Some cur" "checked_add i 1 = Some cand" "nx = max cur cand"
    by (auto simp: next_after_install_def split: option.splits)
  have "i < cand" by (rule checked_add_less [OF n(2)]) simp
  with n show ?thesis by (auto simp: max_def)
qed

lemma installed_ok:
  assumes ok: "catalog_ok c" and t: "installable c t"
  shows "catalog_ok (installed c t)"
proof -
  have nx: "ts_id t < nx \<and> (\<forall>i u. bt_get (mc_tables_by_id c) i = Some u \<longrightarrow> i < nx) \<and> nx \<noteq> 0"
    if "next_after_install (mc_next_table_id c) (ts_id t) = Some nx" for nx
    using next_after_install_Some [OF that] ok by (auto simp: catalog_ok_def) (meson less_le_trans)
  have t': "bt_get (mc_tables_by_id c) (ts_id t) = None" "bt_get (mc_table_ids_by_name c) (ts_name t) = None"
    "validate_table_schema t = Inr ()"
    using t by (simp_all add: installable_def)
  show ?thesis
    unfolding catalog_ok_def
  proof (intro conjI allI impI)
    fix i u
    assume u: "bt_get (mc_tables_by_id (installed c t)) i = Some u"
    then have "i = ts_id t \<and> u = t \<or> i \<noteq> ts_id t \<and> bt_get (mc_tables_by_id c) i = Some u"
      by (simp add: installed_def split: if_splits)
    then show "ts_id u = i" "validate_table_schema u = Inr ()"
      "bt_get (mc_table_ids_by_name (installed c t)) (ts_name u) = Some i"
      using ok t' by (auto simp: catalog_ok_def installed_def) (metis option.distinct(1))
    fix nx
    assume "mc_next_table_id (installed c t) = Some nx"
    then show "i < nx" using nx u by (auto simp: installed_def split: if_splits)
  next
    fix n i
    assume "bt_get (mc_table_ids_by_name (installed c t)) n = Some i"
    then have "i = ts_id t \<and> n = ts_name t \<or> n \<noteq> ts_name t \<and> bt_get (mc_table_ids_by_name c) n = Some i"
      by (simp add: installed_def split: if_splits)
    then show "\<exists>u. bt_get (mc_tables_by_id (installed c t)) i = Some u \<and> ts_name u = n"
      using ok t' by (auto simp: catalog_ok_def installed_def) (metis option.distinct(1))
  next
    show "mc_next_table_id (installed c t) \<noteq> Some 0" using nx by (auto simp: installed_def)
  qed
qed

lemma install_table_ok: "catalog_ok c \<Longrightarrow> catalog_ok (snd (install_table c t))"
  by (cases "installable c t") (simp_all add: installed_ok install_table_new install_table_keeps)

lemma prepare_table_Inr:
  assumes "catalog_ok c" and "prepare_table c name columns pk = Inr t"
  shows "installable c t" and "mc_next_table_id c = Some (ts_id t)" and "ts_name t = name"
proof -
  show nx: "mc_next_table_id c = Some (ts_id t)" and nm: "ts_name t = name"
    using assms(2) by (auto simp: prepare_table_def result_simps Let_def)
  have "validate_table_schema t = Inr ()" "bt_get (mc_table_ids_by_name c) name = None"
    using assms(2) by (auto simp: prepare_table_def result_simps Let_def)
  moreover have "bt_get (mc_tables_by_id c) (ts_id t) = None"
    using catalog_okD(3) [OF assms(1) _ nx] by (metis not_None_eq order_less_irrefl)
  ultimately show "installable c t" by (simp add: installable_def nm)
qed

lemma publish_prepared_table_eq:
  "installable c t \<Longrightarrow> mc_next_table_id c = Some (ts_id t) \<Longrightarrow> publish_prepared_table c t = (Inr t, installed c t)"
  by (simp add: publish_prepared_table_def install_table_new) (simp add: installable_def)

lemma publish_prepared_table_ok: "catalog_ok c \<Longrightarrow> catalog_ok (snd (publish_prepared_table c t))"
  by (simp add: publish_prepared_table_def install_table_ok split: option.splits)

lemma add_table_eq:
  assumes "catalog_ok c"
  shows "add_table c name columns pk =
     (case prepare_table c name columns pk of Inl e \<Rightarrow> (Inl e, c) | Inr t \<Rightarrow> (Inr (ts_id t), installed c t))"
proof (cases "prepare_table c name columns pk")
  case (Inr t)
  with publish_prepared_table_eq [of c t] prepare_table_Inr [OF assms Inr] show ?thesis
    by (simp add: add_table_def)
qed (simp add: add_table_def)

lemma install_definition_ok: "catalog_ok c \<Longrightarrow> catalog_ok (snd (install_definition c d))"
  by (simp add: install_definition_def install_table_ok split: sum.splits)

lemma ColumnSchema_definition_roundtrip [simp]:
  "ColumnSchema_from_definition (ColumnSchema_to_definition c) = c"
  by (simp add: ColumnSchema_from_definition_def ColumnSchema_to_definition_def)

lemma TableSchema_definition_roundtrip:
  "validate_table_schema t = Inr () \<Longrightarrow> TableSchema_from_definition (TableSchema_to_definition t) = Inr t"
  by (cases t) (simp add: TableSchema_from_definition_def TableSchema_to_definition_def comp_def Let_def)

lemma install_definition_new:
  "installable c t \<Longrightarrow> install_definition c (TableSchema_to_definition t) = (Inr t, installed c t)"
  using TableSchema_definition_roundtrip [of t] by (simp add: install_definition_def install_table_new installable_def)

text \<open>
  What \<^verbatim>\<open>create_table\<close> does on a consistent catalog. Once the log has accepted the record, the
  publication cannot fail, so the branch that stops the writer after a durable append is dead.
\<close>

lemma create_table_Inr:
  assumes "catalog_ok (dc_catalog d)"
    and "create_table append_update d name columns pk allocated = (Inr oc, d')"
  shows "prepare_table (dc_catalog d) name columns pk = Inr (co_schema oc)"
    and "dc_catalog d' = installed (dc_catalog d) (co_schema oc)"
    and "append_update (dc_durable_log d) (catalog_record (co_schema oc) (co_update_timestamp oc)) =
      (Inr (co_wal_extent oc), dc_durable_log d')"
    and "dc_recovery_required d' = dc_recovery_required d" and "\<not> dc_recovery_required d" and "co_update_timestamp oc \<noteq> 0"
proof -
  obtain t ts where t: "checked_creation d name columns pk allocated = Inr (t, ts)"
    using assms(2) by (auto simp: create_table_def split: sum.splits)
  then have pre: "\<not> dc_recovery_required d" "prepare_table (dc_catalog d) name columns pk = Inr t" "ts \<noteq> 0"
    by (auto simp: checked_creation_def result_simps ensure_write_path_available_def)
  note pub = publish_prepared_table_eq [OF prepare_table_Inr(1,2) [OF assms(1) pre(2)]]
  obtain r log where a: "append_update (dc_durable_log d) (catalog_record t ts) = (r, log)" by force
  with assms(2) t pub obtain ext where r: "r = Inr ext" and
    oc: "oc = \<lparr>co_schema = t, co_update_timestamp = ts, co_wal_extent = ext\<rparr>"
      "d' = d\<lparr>dc_durable_log := log, dc_catalog := installed (dc_catalog d) t\<rparr>"
    by (cases r) (auto simp: create_table_def split: Error.splits)
  with a pre show "prepare_table (dc_catalog d) name columns pk = Inr (co_schema oc)"
    "dc_catalog d' = installed (dc_catalog d) (co_schema oc)"
    "append_update (dc_durable_log d) (catalog_record (co_schema oc) (co_update_timestamp oc)) =
      (Inr (co_wal_extent oc), dc_durable_log d')"
    "dc_recovery_required d' = dc_recovery_required d" "\<not> dc_recovery_required d" "co_update_timestamp oc \<noteq> 0"
    by simp_all
qed

lemma create_table_Inl:
  assumes "catalog_ok (dc_catalog d)"
    and "create_table append_update d name columns pk allocated = (Inl e, d')"
  shows "dc_catalog d' = dc_catalog d"
proof (cases "checked_creation d name columns pk allocated")
  case (Inr p)
  obtain t ts where p: "p = (t, ts)" by force
  with Inr have "prepare_table (dc_catalog d) name columns pk = Inr t" by (auto simp: checked_creation_def result_simps)
  note pub = publish_prepared_table_eq [OF prepare_table_Inr(1,2) [OF assms(1) this]]
  obtain r log where "append_update (dc_durable_log d) (catalog_record t ts) = (r, log)" by force
  with assms(2) Inr p pub show ?thesis
    by (cases r) (auto simp: create_table_def split: Error.splits)
qed (use assms(2) in \<open>simp add: create_table_def\<close>)

end
