(* ===== verification/Wal_Records.thy ===== *)
theory Wal_Records
  imports Catalog Command_Codec
begin

text \<open>
  The four record kinds the database writes to its log
  (\<^verbatim>\<open>ragnordb-storage/src/wal.rs\<close>): transaction commits, catalog updates, snapshot pointers and
  checkpoint markers, with their validation and protobuf forms. Framing, checksums and record
  numbering belong to the log library. The byte encoders are prost code. Both are parameters,
  collected in \<open>wal_library\<close>. Log positions are the 64-bit words they wrap.
\<close>

type_synonym Lsn = u64

section \<open>Records\<close>

datatype WalMutation = WalPut bytes | WalDelete

type_synonym wal_writes = "(bytes, WalMutation) btree"

record SingleNodeTxnCommit =
  sn_table_id :: TableId
  sn_txn_id :: TxnId
  sn_start_timestamp :: Timestamp
  sn_commit_timestamp :: Timestamp
  sn_schema_version :: u64
  sn_writes :: wal_writes

record CatalogUpdate =
  cu_table_id :: TableId
  cu_update_timestamp :: Timestamp
  cu_command :: CatalogCommand

record SnapshotPointer =
  sp_snapshot_id :: u64
  sp_snapshot_timestamp :: Timestamp
  sp_replay_from_lsn :: Lsn
  sp_relative_path :: bytes
  sp_table_ids :: "TableId bset"
  sp_file_length :: u64
  sp_file_checksum_crc32c :: u32
  sp_snapshot_format_version :: u32

record CheckpointMarker =
  km_snapshot_id :: u64
  km_snapshot_timestamp :: Timestamp
  km_replay_from_lsn :: Lsn

section \<open>Validation\<close>

text \<open>The rejected cases differ only in their message; the result says whether the record is valid.\<close>

definition wal_write_ok :: "TableId \<Rightarrow> bytes \<times> WalMutation \<Rightarrow> bool" where
  "wal_write_ok table kv =
     (case decode_row_key (fst kv) of
        Inl _ \<Rightarrow> False
      | Inr row_key \<Rightarrow> table_id row_key = table \<and>
          (case snd kv of WalPut row \<Rightarrow> is_ok (decode_row row) | WalDelete \<Rightarrow> True))"

definition SingleNodeTxnCommit_validate :: "SingleNodeTxnCommit \<Rightarrow> bool" where
  "SingleNodeTxnCommit_validate c \<longleftrightarrow>
     sn_table_id c \<noteq> 0 \<and> sn_txn_id c \<noteq> 0 \<and> sn_start_timestamp c \<noteq> 0 \<and> sn_commit_timestamp c \<noteq> 0 \<and>
     sn_commit_timestamp c > sn_start_timestamp c \<and> sn_schema_version c \<noteq> 0 \<and>
     \<not> bt_is_empty (sn_writes c) \<and> list_all (wal_write_ok (sn_table_id c)) (bt_iter (sn_writes c))"

definition table_definition :: "CatalogUpdate \<Rightarrow> TableDefinition" where
  "table_definition u = (case cc_operation (cu_command u) of CreateTable operation \<Rightarrow> cto_table_def operation)"

definition CatalogUpdate_validate :: "CatalogUpdate \<Rightarrow> bool" where
  "CatalogUpdate_validate u \<longleftrightarrow>
     cu_table_id u \<noteq> 0 \<and> cu_update_timestamp u \<noteq> 0 \<and> td_table_id (table_definition u) \<noteq> 0 \<and>
     td_table_id (table_definition u) = cu_table_id u \<and> is_ok (TableSchema_from_definition (table_definition u))"

fun split_on :: "u8 \<Rightarrow> bytes \<Rightarrow> bytes list" where
  "split_on sep [] = [[]]"
| "split_on sep (b # bs) =
     (if b = sep then [] # split_on sep bs
      else case split_on sep bs of [] \<Rightarrow> [[b]] | c # cs \<Rightarrow> (b # c) # cs)"

text \<open>The bytes 47, 92, 46 and 58 are the slash, the backslash, the dot and the colon.\<close>

definition path_component_ok :: "bytes \<Rightarrow> bool" where
  "path_component_ok component \<longleftrightarrow>
     component \<noteq> [] \<and> component \<noteq> [46] \<and> component \<noteq> [46, 46] \<and> 58 \<notin> set component"

definition validate_relative_snapshot_path :: "bytes \<Rightarrow> bool" where
  "validate_relative_snapshot_path path \<longleftrightarrow>
     path \<noteq> [] \<and> hd path \<noteq> 47 \<and> hd path \<noteq> 92 \<and> 92 \<notin> set path \<and> 0 \<notin> set path \<and>
     list_all path_component_ok (split_on 47 path)"

definition SnapshotPointer_validate :: "SnapshotPointer \<Rightarrow> bool" where
  "SnapshotPointer_validate p \<longleftrightarrow>
     sp_snapshot_id p \<noteq> 0 \<and> sp_snapshot_timestamp p \<noteq> 0 \<and> sp_file_length p \<noteq> 0 \<and>
     sp_snapshot_format_version p \<noteq> 0 \<and> validate_relative_snapshot_path (sp_relative_path p) \<and>
     list_all (\<lambda>i. i \<noteq> 0) (bt_keys (sp_table_ids p))"

definition CheckpointMarker_validate :: "CheckpointMarker \<Rightarrow> bool" where
  "CheckpointMarker_validate k \<longleftrightarrow> km_snapshot_id k \<noteq> 0 \<and> km_snapshot_timestamp k \<noteq> 0"

section \<open>Messages\<close>

datatype wal_write_Mutation = PutRow bytes | DeleteMarker

record proto_WalWrite =
  pw_key :: bytes
  pw_mutation :: "wal_write_Mutation option"

record proto_SingleNodeTxnCommit =
  psn_version :: u32
  psn_table_id :: "u64 option"
  psn_txn_id :: "u64 option"
  psn_start_timestamp :: "u64 option"
  psn_commit_timestamp :: "u64 option"
  psn_writes :: "proto_WalWrite list"
  psn_schema_version :: u64

record proto_CatalogUpdate =
  pcu_version :: u32
  pcu_update_timestamp :: "u64 option"
  pcu_table_id :: "u64 option"
  pcu_command :: "proto_CatalogCommand option"

record proto_SnapshotPointer =
  psp_version :: u32
  psp_snapshot_id :: u64
  psp_snapshot_timestamp :: "u64 option"
  psp_replay_from_lsn :: u64
  psp_relative_path :: bytes
  psp_table_ids :: "u64 list"
  psp_file_length :: u64
  psp_file_checksum_crc32c :: u32
  psp_snapshot_format_version :: u32

record proto_CheckpointMarker =
  pkm_version :: u32
  pkm_snapshot_id :: u64
  pkm_snapshot_timestamp :: "u64 option"
  pkm_replay_from_lsn :: u64

section \<open>Encoding\<close>

fun WalMutation_to_proto :: "WalMutation \<Rightarrow> wal_write_Mutation" where
  "WalMutation_to_proto (WalPut row) = PutRow row"
| "WalMutation_to_proto WalDelete = DeleteMarker"

definition SingleNodeTxnCommit_to_proto :: "SingleNodeTxnCommit \<Rightarrow> proto_SingleNodeTxnCommit" where
  "SingleNodeTxnCommit_to_proto c =
     \<lparr>psn_version = 2, psn_table_id = Some (sn_table_id c), psn_txn_id = Some (sn_txn_id c),
      psn_start_timestamp = Some (sn_start_timestamp c), psn_commit_timestamp = Some (sn_commit_timestamp c),
      psn_writes = map (\<lambda>(key, mutation). \<lparr>pw_key = key, pw_mutation = Some (WalMutation_to_proto mutation)\<rparr>)
        (bt_iter (sn_writes c)),
      psn_schema_version = sn_schema_version c\<rparr>"

definition CatalogUpdate_to_proto :: "CatalogUpdate \<Rightarrow> proto_CatalogUpdate" where
  "CatalogUpdate_to_proto u =
     \<lparr>pcu_version = 1, pcu_update_timestamp = Some (cu_update_timestamp u), pcu_table_id = Some (cu_table_id u),
      pcu_command = Some (CatalogCommand_to_proto (cu_command u))\<rparr>"

definition SnapshotPointer_to_proto :: "SnapshotPointer \<Rightarrow> proto_SnapshotPointer" where
  "SnapshotPointer_to_proto p =
     \<lparr>psp_version = 2, psp_snapshot_id = sp_snapshot_id p, psp_snapshot_timestamp = Some (sp_snapshot_timestamp p),
      psp_replay_from_lsn = sp_replay_from_lsn p, psp_relative_path = sp_relative_path p,
      psp_table_ids = bt_keys (sp_table_ids p), psp_file_length = sp_file_length p,
      psp_file_checksum_crc32c = sp_file_checksum_crc32c p,
      psp_snapshot_format_version = sp_snapshot_format_version p\<rparr>"

definition CheckpointMarker_to_proto :: "CheckpointMarker \<Rightarrow> proto_CheckpointMarker" where
  "CheckpointMarker_to_proto k =
     \<lparr>pkm_version = 1, pkm_snapshot_id = km_snapshot_id k, pkm_snapshot_timestamp = Some (km_snapshot_timestamp k),
      pkm_replay_from_lsn = km_replay_from_lsn k\<rparr>"

text \<open>\<open>checked_proto\<close> is \<^verbatim>\<open>encode\<close> up to the bytes: validation, then the message.\<close>

definition checked_proto :: "('a \<Rightarrow> bool) \<Rightarrow> ('a \<Rightarrow> 'p) \<Rightarrow> 'a \<Rightarrow> 'p result" where
  "checked_proto validate to_proto a = and_then (ensure (validate a) InvalidArgument) (\<lambda>_. Inr (to_proto a))"

section \<open>Decoding\<close>

definition parse_wal_write :: "proto_WalWrite \<Rightarrow> (bytes \<times> WalMutation) result" where
  "parse_wal_write w =
     (case pw_mutation w of
        Some (PutRow row) \<Rightarrow> Inr (pw_key w, WalPut row)
      | Some DeleteMarker \<Rightarrow> Inr (pw_key w, WalDelete)
      | None \<Rightarrow> Inl CorruptData)"

definition SingleNodeTxnCommit_from_proto :: "proto_SingleNodeTxnCommit \<Rightarrow> SingleNodeTxnCommit result" where
  "SingleNodeTxnCommit_from_proto p =
     and_then (ensure (psn_version p = 1 \<or> psn_version p = 2) CorruptData) (\<lambda>_.
     and_then (ok_or (psn_table_id p) CorruptData) (\<lambda>table.
     and_then (ok_or (psn_txn_id p) CorruptData) (\<lambda>txn.
     and_then (ok_or (psn_start_timestamp p) CorruptData) (\<lambda>start.
     and_then (ok_or (psn_commit_timestamp p) CorruptData) (\<lambda>commit.
     and_then (try_fold (\<lambda>m w. and_then (parse_wal_write w) (insert_unique (\<lambda>_. CorruptData) m)) bt_new (psn_writes p)) (\<lambda>writes.
     let record = \<lparr>sn_table_id = table, sn_txn_id = txn, sn_start_timestamp = start, sn_commit_timestamp = commit,
       sn_schema_version = (if psn_version p = 1 then 1 else psn_schema_version p), sn_writes = writes\<rparr> in
     and_then (ensure (SingleNodeTxnCommit_validate record) CorruptData) (\<lambda>_. Inr record)))))))"

definition CatalogUpdate_from_proto :: "proto_CatalogUpdate \<Rightarrow> CatalogUpdate result" where
  "CatalogUpdate_from_proto p =
     and_then (ensure (pcu_version p = 1) CorruptData) (\<lambda>_.
     and_then (ok_or (pcu_update_timestamp p) CorruptData) (\<lambda>ts.
     and_then (ok_or (pcu_table_id p) CorruptData) (\<lambda>table.
     and_then (ok_or (pcu_command p) CorruptData) (\<lambda>command.
     and_then (map_err (\<lambda>_. CorruptData) (CatalogCommand_from_proto command)) (\<lambda>command.
     let update = \<lparr>cu_table_id = table, cu_update_timestamp = ts, cu_command = command\<rparr> in
     and_then (ensure (CatalogUpdate_validate update) CorruptData) (\<lambda>_. Inr update))))))"

definition SnapshotPointer_from_proto :: "proto_SnapshotPointer \<Rightarrow> SnapshotPointer result" where
  "SnapshotPointer_from_proto p =
     and_then (ensure (psp_version p = 2) CorruptData) (\<lambda>_.
     and_then (ok_or (psp_snapshot_timestamp p) CorruptData) (\<lambda>ts.
     and_then (try_fold (\<lambda>m i. and_then (and_then (ensure (i \<noteq> 0) CorruptData) (\<lambda>_. Inr (i, ())))
         (insert_unique (\<lambda>_. CorruptData) m)) bt_new (psp_table_ids p)) (\<lambda>tables.
     let pointer = \<lparr>sp_snapshot_id = psp_snapshot_id p, sp_snapshot_timestamp = ts,
       sp_replay_from_lsn = psp_replay_from_lsn p, sp_relative_path = psp_relative_path p, sp_table_ids = tables,
       sp_file_length = psp_file_length p, sp_file_checksum_crc32c = psp_file_checksum_crc32c p,
       sp_snapshot_format_version = psp_snapshot_format_version p\<rparr> in
     and_then (ensure (SnapshotPointer_validate pointer) CorruptData) (\<lambda>_. Inr pointer))))"

definition CheckpointMarker_from_proto :: "proto_CheckpointMarker \<Rightarrow> CheckpointMarker result" where
  "CheckpointMarker_from_proto p =
     and_then (ensure (pkm_version p = 1) CorruptData) (\<lambda>_.
     and_then (ok_or (pkm_snapshot_timestamp p) CorruptData) (\<lambda>ts.
     let marker = \<lparr>km_snapshot_id = pkm_snapshot_id p, km_snapshot_timestamp = ts,
       km_replay_from_lsn = pkm_replay_from_lsn p\<rparr> in
     and_then (ensure (CheckpointMarker_validate marker) CorruptData) (\<lambda>_. Inr marker)))"

section \<open>Round trips\<close>

lemma checked_proto_Inr [result_simps]: "checked_proto v f a = Inr p \<longleftrightarrow> v a \<and> p = f a"
  by (auto simp: checked_proto_def result_simps)

lemma wal_writes_rebuild:
  "try_fold (\<lambda>m w. and_then (parse_wal_write w) (insert_unique (\<lambda>_. CorruptData) m)) bt_new
     (map (\<lambda>(key, mutation). \<lparr>pw_key = key, pw_mutation = Some (WalMutation_to_proto mutation)\<rparr>) (bt_iter m)) = Inr m"
proof (rule rebuild_map)
  fix k v
  show "parse_wal_write (case (k, v) of (key, mutation) \<Rightarrow>
      \<lparr>pw_key = key, pw_mutation = Some (WalMutation_to_proto mutation)\<rparr>) = Inr (k, v)"
    by (cases v) (simp_all add: parse_wal_write_def)
qed

lemma table_ids_rebuild:
  fixes m :: "TableId bset"
  assumes "list_all (\<lambda>i. i \<noteq> 0) (bt_keys m)"
  shows "try_fold (\<lambda>m i. and_then (and_then (ensure (i \<noteq> 0) CorruptData) (\<lambda>_. Inr (i, ())))
         (insert_unique (\<lambda>_. CorruptData) m)) bt_new (bt_keys m) = Inr m"
proof -
  have "bt_keys m = map fst (bt_iter m)" by (simp add: bt_keys_def)
  moreover have "k \<noteq> 0" if "bt_get m k = Some v" for k v
    using assms that by (auto simp: list_all_iff)
  ultimately show ?thesis by (auto intro!: rebuild_map)
qed

interpretation txn_commit_codec: wire_codec SingleNodeTxnCommit_validate
  "checked_proto SingleNodeTxnCommit_validate SingleNodeTxnCommit_to_proto" SingleNodeTxnCommit_from_proto
  by unfold_locales
    (auto simp: result_simps SingleNodeTxnCommit_from_proto_def SingleNodeTxnCommit_to_proto_def Let_def
      wal_writes_rebuild SingleNodeTxnCommit_validate_def)

interpretation catalog_update_codec: wire_codec CatalogUpdate_validate
  "checked_proto CatalogUpdate_validate CatalogUpdate_to_proto" CatalogUpdate_from_proto
  by unfold_locales
    (auto simp: result_simps CatalogUpdate_from_proto_def CatalogUpdate_to_proto_def Let_def CatalogCommand_roundtrip
      CatalogUpdate_validate_def table_definition_def)

interpretation snapshot_pointer_codec: wire_codec SnapshotPointer_validate
  "checked_proto SnapshotPointer_validate SnapshotPointer_to_proto" SnapshotPointer_from_proto
  by unfold_locales
    (auto simp: result_simps SnapshotPointer_from_proto_def SnapshotPointer_to_proto_def Let_def
      SnapshotPointer_validate_def table_ids_rebuild)

interpretation checkpoint_marker_codec: wire_codec CheckpointMarker_validate
  "checked_proto CheckpointMarker_validate CheckpointMarker_to_proto" CheckpointMarker_from_proto
  by unfold_locales
    (auto simp: result_simps CheckpointMarker_from_proto_def CheckpointMarker_to_proto_def Let_def
      CheckpointMarker_validate_def)

lemma from_proto_valid:
  "SingleNodeTxnCommit_from_proto p = Inr c \<Longrightarrow> SingleNodeTxnCommit_validate c"
  "CatalogUpdate_from_proto q = Inr u \<Longrightarrow> CatalogUpdate_validate u"
  "SnapshotPointer_from_proto r = Inr s \<Longrightarrow> SnapshotPointer_validate s"
  "CheckpointMarker_from_proto t = Inr k \<Longrightarrow> CheckpointMarker_validate k"
  by (auto simp: SingleNodeTxnCommit_from_proto_def CatalogUpdate_from_proto_def SnapshotPointer_from_proto_def
      CheckpointMarker_from_proto_def result_simps Let_def)

section \<open>The log library\<close>

text \<open>
  The log library and the message encoders are external. \<open>wal_library\<close> collects what the code
  calls: the first user record number, which numbers are internal, the append that waits for
  durability, and the encoders and decoders of the four messages. \<open>'w\<close> is the state of the log,
  \<open>'b\<close> a payload as the library stores it. \<open>wl_contents\<close> is what iteration from position zero
  returns when the log is reopened.
\<close>

datatype AppendFailure = NotStaged bool | OutcomeUnknown u64 u64

record DurableWalExtent =
  ex_start_lsn :: Lsn
  ex_end_lsn :: Lsn

type_synonym u16 = "16 word"

record ('w, 'b) wal_library =
  wl_user_min :: u16
  wl_is_internal :: "u16 \<Rightarrow> bool"
  wl_append_and_sync :: "'w \<Rightarrow> u16 \<Rightarrow> 'b \<Rightarrow> (AppendFailure + DurableWalExtent) \<times> 'w"
  wl_contents :: "'w \<Rightarrow> (Lsn \<times> u16 \<times> 'b) list"
  wl_encode_commit :: "proto_SingleNodeTxnCommit \<Rightarrow> 'b"
  wl_decode_commit :: "'b \<Rightarrow> proto_SingleNodeTxnCommit option"
  wl_encode_catalog :: "proto_CatalogUpdate \<Rightarrow> 'b"
  wl_decode_catalog :: "'b \<Rightarrow> proto_CatalogUpdate option"
  wl_encode_pointer :: "proto_SnapshotPointer \<Rightarrow> 'b"
  wl_decode_pointer :: "'b \<Rightarrow> proto_SnapshotPointer option"
  wl_encode_marker :: "proto_CheckpointMarker \<Rightarrow> 'b"
  wl_decode_marker :: "'b \<Rightarrow> proto_CheckpointMarker option"

text \<open>
  The log interleaves the user records with records of its own (segment seals, checkpoint chunks,
  shutdown witnesses): iteration returns all of them, and recovery skips the internal ones.
\<close>

definition user_records :: "('w, 'b) wal_library \<Rightarrow> 'w \<Rightarrow> (Lsn \<times> u16 \<times> 'b) list" where
  "user_records L w = filter (\<lambda>(_, t, _). \<not> wl_is_internal L t) (wl_contents L w)"

text \<open>
  What the code relies on, as documented for the library. An acknowledged append of a user record
  adds that record after the earlier user records, a record rejected before staging leaves them as
  they were, and after an append of unknown outcome recovery may retain the record or discard it.
  Nothing is said of internal records, which may appear anywhere. Decoding inverts encoding, and
  the record numbers of the registry are user numbers.
\<close>

definition wal_contract :: "('w, 'b) wal_library \<Rightarrow> bool" where
  "wal_contract L \<longleftrightarrow>
     (\<forall>w t b ext w'. wl_append_and_sync L w t b = (Inr ext, w') \<longrightarrow> \<not> wl_is_internal L t \<longrightarrow>
        user_records L w' = user_records L w @ [(ex_start_lsn ext, t, b)]) \<and>
     (\<forall>w t b r w'. wl_append_and_sync L w t b = (Inl (NotStaged r), w') \<longrightarrow> user_records L w' = user_records L w) \<and>
     (\<forall>w t b s e w'. wl_append_and_sync L w t b = (Inl (OutcomeUnknown s e), w') \<longrightarrow> \<not> wl_is_internal L t \<longrightarrow>
        user_records L w' = user_records L w \<or> user_records L w' = user_records L w @ [(s, t, b)]) \<and>
     (\<forall>p. wl_decode_commit L (wl_encode_commit L p) = Some p) \<and>
     (\<forall>p. wl_decode_catalog L (wl_encode_catalog L p) = Some p) \<and>
     (\<forall>p. wl_decode_pointer L (wl_encode_pointer L p) = Some p) \<and>
     (\<forall>p. wl_decode_marker L (wl_encode_marker L p) = Some p) \<and>
     \<not> wl_is_internal L (wl_user_min L + 3) \<and> \<not> wl_is_internal L (wl_user_min L + 5) \<and>
     \<not> wl_is_internal L (wl_user_min L + 6) \<and> \<not> wl_is_internal L (wl_user_min L + 7)"

section \<open>Record numbers\<close>

datatype SharedWalRecordType =
    RaftHardState
  | RaftLogEntry
  | SharedDatabaseSnapshotPointer
  | TabletSnapshotChunk
  | SharedSingleNodeTxnCommit
  | SharedCatalogUpdate
  | SharedCheckpointMarker
  | RaftSnapshotPointer

fun shared_record_id :: "u16 \<Rightarrow> SharedWalRecordType \<Rightarrow> u16" where
  "shared_record_id user_min RaftHardState = user_min + 1"
| "shared_record_id user_min RaftLogEntry = user_min + 2"
| "shared_record_id user_min SharedDatabaseSnapshotPointer = user_min + 3"
| "shared_record_id user_min TabletSnapshotChunk = user_min + 4"
| "shared_record_id user_min SharedSingleNodeTxnCommit = user_min + 5"
| "shared_record_id user_min SharedCatalogUpdate = user_min + 6"
| "shared_record_id user_min SharedCheckpointMarker = user_min + 7"
| "shared_record_id user_min RaftSnapshotPointer = user_min + 8"

definition shared_classify :: "u16 \<Rightarrow> u16 \<Rightarrow> SharedWalRecordType option" where
  "shared_classify user_min t =
     (if t = user_min + 1 then Some RaftHardState
      else if t = user_min + 2 then Some RaftLogEntry
      else if t = user_min + 3 then Some SharedDatabaseSnapshotPointer
      else if t = user_min + 4 then Some TabletSnapshotChunk
      else if t = user_min + 5 then Some SharedSingleNodeTxnCommit
      else if t = user_min + 6 then Some SharedCatalogUpdate
      else if t = user_min + 7 then Some SharedCheckpointMarker
      else if t = user_min + 8 then Some RaftSnapshotPointer
      else None)"

lemma shared_classify_id: "shared_classify user_min (shared_record_id user_min k) = Some k"
  by (cases k) (simp_all add: shared_classify_def)

datatype RagnorDbWalRecordType = RtSnapshotPointer | RtSingleNodeTxnCommit | RtCatalogUpdate | RtCheckpointMarker

fun shared_type_of :: "RagnorDbWalRecordType \<Rightarrow> SharedWalRecordType" where
  "shared_type_of RtSnapshotPointer = SharedDatabaseSnapshotPointer"
| "shared_type_of RtSingleNodeTxnCommit = SharedSingleNodeTxnCommit"
| "shared_type_of RtCatalogUpdate = SharedCatalogUpdate"
| "shared_type_of RtCheckpointMarker = SharedCheckpointMarker"

definition as_wal_record_type :: "u16 \<Rightarrow> RagnorDbWalRecordType \<Rightarrow> u16" where
  "as_wal_record_type user_min k = shared_record_id user_min (shared_type_of k)"

definition wal_classify :: "('w, 'b) wal_library \<Rightarrow> u16 \<Rightarrow> RagnorDbWalRecordType option result" where
  "wal_classify L t =
     (if wl_is_internal L t then Inr None
      else case shared_classify (wl_user_min L) t of
          Some SharedDatabaseSnapshotPointer \<Rightarrow> Inr (Some RtSnapshotPointer)
        | Some SharedSingleNodeTxnCommit \<Rightarrow> Inr (Some RtSingleNodeTxnCommit)
        | Some SharedCatalogUpdate \<Rightarrow> Inr (Some RtCatalogUpdate)
        | Some SharedCheckpointMarker \<Rightarrow> Inr (Some RtCheckpointMarker)
        | Some _ \<Rightarrow> Inr None
        | None \<Rightarrow> Inl CorruptData)"

lemma wal_classify_id:
  "wal_contract L \<Longrightarrow> wal_classify L (as_wal_record_type (wl_user_min L) k) = Inr (Some k)"
  by (cases k) (simp_all add: wal_contract_def wal_classify_def as_wal_record_type_def shared_classify_id
      del: shared_record_id.simps, simp_all)

section \<open>The adapter\<close>

fun map_commit_append_failure :: "AppendFailure \<Rightarrow> Error" where
  "map_commit_append_failure (NotStaged recovery_required) = WalAppendNotStaged recovery_required"
| "map_commit_append_failure (OutcomeUnknown s e) = CommitOutcomeUnknown s e"

fun map_catalog_append_failure :: "AppendFailure \<Rightarrow> Error" where
  "map_catalog_append_failure (NotStaged recovery_required) = WalAppendNotStaged recovery_required"
| "map_catalog_append_failure (OutcomeUnknown s e) = CatalogOutcomeUnknown s e"

fun map_checkpoint_append_failure :: "AppendFailure \<Rightarrow> Error" where
  "map_checkpoint_append_failure (NotStaged recovery_required) = WalAppendNotStaged recovery_required"
| "map_checkpoint_append_failure (OutcomeUnknown s e) = CheckpointOutcomeUnknown s e"

definition append_single_node_commit ::
  "('w, 'b) wal_library \<Rightarrow> 'w \<Rightarrow> SingleNodeTxnCommit \<Rightarrow> DurableWalExtent result \<times> 'w" where
  "append_single_node_commit L w commit =
     (case checked_proto SingleNodeTxnCommit_validate SingleNodeTxnCommit_to_proto commit of
        Inl e \<Rightarrow> (Inl e, w)
      | Inr p \<Rightarrow>
          (case wl_append_and_sync L w (as_wal_record_type (wl_user_min L) RtSingleNodeTxnCommit) (wl_encode_commit L p) of
             (r, w') \<Rightarrow> (map_err map_commit_append_failure r, w')))"

definition append_catalog_update ::
  "('w, 'b) wal_library \<Rightarrow> 'w \<Rightarrow> CatalogLogRecord \<Rightarrow> CatalogLogExtent result \<times> 'w" where
  "append_catalog_update L w record =
     (case checked_proto CatalogUpdate_validate CatalogUpdate_to_proto
        \<lparr>cu_table_id = cl_table_id record, cu_update_timestamp = cl_update_timestamp record,
         cu_command = cl_command record\<rparr> of
        Inl e \<Rightarrow> (Inl e, w)
      | Inr p \<Rightarrow>
          (case wl_append_and_sync L w (as_wal_record_type (wl_user_min L) RtCatalogUpdate) (wl_encode_catalog L p) of
             (r, w') \<Rightarrow>
               (and_then (map_err map_catalog_append_failure r) (\<lambda>extent.
                  Inr \<lparr>ce_start_lsn = ex_start_lsn extent, ce_end_lsn = ex_end_lsn extent\<rparr>), w')))"

record DurableCheckpointExtents =
  ke_pointer_extent :: DurableWalExtent
  ke_marker_extent :: DurableWalExtent

definition append_checkpoint_records ::
  "('w, 'b) wal_library \<Rightarrow> 'w \<Rightarrow> SnapshotPointer \<Rightarrow> CheckpointMarker \<Rightarrow> DurableCheckpointExtents result \<times> 'w" where
  "append_checkpoint_records L w pointer marker =
     (case and_then (ensure (sp_snapshot_id pointer = km_snapshot_id marker \<and>
              sp_snapshot_timestamp pointer = km_snapshot_timestamp marker \<and>
              sp_replay_from_lsn pointer = km_replay_from_lsn marker) InvalidArgument) (\<lambda>_.
            and_then (checked_proto SnapshotPointer_validate SnapshotPointer_to_proto pointer) (\<lambda>p.
            and_then (checked_proto CheckpointMarker_validate CheckpointMarker_to_proto marker) (\<lambda>k. Inr (p, k)))) of
        Inl e \<Rightarrow> (Inl e, w)
      | Inr (p, k) \<Rightarrow>
          (case wl_append_and_sync L w (as_wal_record_type (wl_user_min L) RtSnapshotPointer) (wl_encode_pointer L p) of
             (Inl f, w1) \<Rightarrow> (Inl (map_checkpoint_append_failure f), w1)
           | (Inr pointer_extent, w1) \<Rightarrow>
               (case wl_append_and_sync L w1 (as_wal_record_type (wl_user_min L) RtCheckpointMarker) (wl_encode_marker L k) of
                  (Inl f, w2) \<Rightarrow> (Inl (map_checkpoint_append_failure f), w2)
                | (Inr marker_extent, w2) \<Rightarrow>
                    (Inr \<lparr>ke_pointer_extent = pointer_extent, ke_marker_extent = marker_extent\<rparr>, w2))))"

end
