(* ===== verification/Single_Node.thy ===== *)
theory Single_Node
  imports Wal_Records Txn_Oracle
begin

text \<open>
  The single-node commit path (\<^verbatim>\<open>SingleNodeCommitCoordinator\<close> and \<^verbatim>\<open>OwnedMvccParticipant\<close> of
  \<^verbatim>\<open>ragnordb-txn/src/coordinator.rs\<close>): validate the whole transaction against the MVCC engine,
  allocate the commit timestamp, append the commit record durably, and only then apply it. The
  commit log is shared by handle, so its state is passed alongside the coordinator.
\<close>

section \<open>The participant\<close>

record OwnedMvccParticipant =
  op_table_id :: TableId
  op_storage :: InMemoryMvcc

definition OwnedMvccParticipant_new :: "TableId \<Rightarrow> InMemoryMvcc \<Rightarrow> OwnedMvccParticipant result" where
  "OwnedMvccParticipant_new table storage =
     and_then (ensure (table \<noteq> 0) InvalidArgument) (\<lambda>_. Inr \<lparr>op_table_id = table, op_storage = storage\<rparr>)"

definition schema_version :: "OwnedMvccParticipant \<Rightarrow> u64" where
  "schema_version p = 1"

definition participant_validate_commit :: "OwnedMvccParticipant \<Rightarrow> Transaction \<Rightarrow> unit result" where
  "participant_validate_commit p transaction =
     and_then (try_each (\<lambda>encoded_key.
         and_then (map_err (\<lambda>_. InvalidArgument) (decode_row_key encoded_key)) (\<lambda>row_key.
           ensure (table_id row_key = op_table_id p) InvalidArgument))
       (bt_keys (tx_writes transaction))) (\<lambda>_.
       validate_commit_batch (op_storage p) (tx_id transaction) (tx_start_ts transaction) (tx_writes transaction))"

definition participant_apply_commit ::
  "OwnedMvccParticipant \<Rightarrow> Transaction \<Rightarrow> Timestamp \<Rightarrow> nat result \<times> OwnedMvccParticipant" where
  "participant_apply_commit p transaction commit_timestamp =
     (case commit_batch (op_storage p) (tx_id transaction) (tx_start_ts transaction) commit_timestamp
             (tx_writes transaction) of
        (r, storage) \<Rightarrow> (r, p\<lparr>op_storage := storage\<rparr>))"

section \<open>The coordinator\<close>

record SingleNodeCommitOutcome =
  so_transaction_id :: TxnId
  so_commit_timestamp :: "Timestamp option"
  so_committed_writes :: nat
  so_wal_extent :: "DurableWalExtent option"

record SingleNodeCommitCoordinator =
  sc_participant :: OwnedMvccParticipant
  sc_recovery_required :: bool

definition with_participant :: "OwnedMvccParticipant \<Rightarrow> SingleNodeCommitCoordinator result" where
  "with_participant p =
     and_then (ensure (op_table_id p \<noteq> 0) InvalidArgument) (\<lambda>_.
       Inr \<lparr>sc_participant = p, sc_recovery_required = False\<rparr>)"

definition SingleNodeCommitCoordinator_new :: "TableId \<Rightarrow> InMemoryMvcc \<Rightarrow> SingleNodeCommitCoordinator result" where
  "SingleNodeCommitCoordinator_new table storage = and_then (OwnedMvccParticipant_new table storage) with_participant"

definition validate_transaction_metadata :: "Transaction \<Rightarrow> unit result" where
  "validate_transaction_metadata transaction =
     and_then (ensure (tx_id transaction \<noteq> 0) InvalidArgument) (\<lambda>_.
       ensure (tx_start_ts transaction \<noteq> 0) InvalidArgument)"

definition validate_allocated_commit_timestamp :: "Timestamp \<Rightarrow> Timestamp \<Rightarrow> unit result" where
  "validate_allocated_commit_timestamp start_timestamp commit_timestamp =
     ensure (\<not> (commit_timestamp = 0 \<or> commit_timestamp \<le> start_timestamp)) Configuration"

fun wal_mutation :: "Mutation \<Rightarrow> WalMutation" where
  "wal_mutation (PutMutation row) = WalPut row"
| "wal_mutation DeleteMutation = WalDelete"

definition build_commit_record :: "OwnedMvccParticipant \<Rightarrow> Transaction \<Rightarrow> Timestamp \<Rightarrow> SingleNodeTxnCommit" where
  "build_commit_record p transaction commit_timestamp =
     \<lparr>sn_table_id = op_table_id p, sn_txn_id = tx_id transaction, sn_start_timestamp = tx_start_ts transaction,
      sn_commit_timestamp = commit_timestamp, sn_schema_version = schema_version p,
      sn_writes = bt_from_list (map (\<lambda>(key, mutation). (key, wal_mutation mutation)) (bt_iter (tx_writes transaction)))\<rparr>"

definition coordinator_ensure_write_path :: "SingleNodeCommitCoordinator \<Rightarrow> unit result" where
  "coordinator_ensure_write_path c = ensure (\<not> sc_recovery_required c) RecoveryRequired"

text \<open>
  \<open>checked_commit\<close> is what happens before the log is touched. The timestamp allocator is the
  caller's; its answer is an argument.
\<close>

definition checked_commit ::
  "SingleNodeCommitCoordinator \<Rightarrow> Transaction \<Rightarrow> Timestamp result \<Rightarrow> Timestamp result" where
  "checked_commit c transaction allocated =
     and_then (coordinator_ensure_write_path c) (\<lambda>_.
     and_then (participant_validate_commit (sc_participant c) transaction) (\<lambda>_.
     and_then allocated (\<lambda>commit_timestamp.
     and_then (validate_allocated_commit_timestamp (tx_start_ts transaction) commit_timestamp) (\<lambda>_.
       Inr commit_timestamp))))"

definition coordinator_commit ::
  "('w \<Rightarrow> SingleNodeTxnCommit \<Rightarrow> DurableWalExtent result \<times> 'w) \<Rightarrow> 'w \<Rightarrow> SingleNodeCommitCoordinator \<Rightarrow>
     Transaction \<Rightarrow> Timestamp result \<Rightarrow> SingleNodeCommitOutcome result \<times> SingleNodeCommitCoordinator \<times> 'w" where
  "coordinator_commit append_commit w c transaction allocated =
     (case validate_transaction_metadata transaction of
        Inl e \<Rightarrow> (Inl e, c, w)
      | Inr _ \<Rightarrow>
          if bt_is_empty (tx_writes transaction)
          then (Inr \<lparr>so_transaction_id = tx_id transaction, so_commit_timestamp = None, so_committed_writes = 0,
                  so_wal_extent = None\<rparr>, c, w)
          else case checked_commit c transaction allocated of
              Inl e \<Rightarrow> (Inl e, c, w)
            | Inr commit_timestamp \<Rightarrow>
                (case append_commit w (build_commit_record (sc_participant c) transaction commit_timestamp) of
                   (Inl (CommitOutcomeUnknown s e), w') \<Rightarrow>
                     (Inl (CommitOutcomeUnknown s e), c\<lparr>sc_recovery_required := True\<rparr>, w')
                 | (Inl e, w') \<Rightarrow> (Inl e, c, w')
                 | (Inr extent, w') \<Rightarrow>
                     (case participant_apply_commit (sc_participant c) transaction commit_timestamp of
                        (Inl e, p) \<Rightarrow>
                          (Inl RecoveryRequired, c\<lparr>sc_participant := p, sc_recovery_required := True\<rparr>, w')
                      | (Inr applied_writes, p) \<Rightarrow>
                          if applied_writes \<noteq> bt_len (tx_writes transaction)
                          then (Inl RecoveryRequired, c\<lparr>sc_participant := p, sc_recovery_required := True\<rparr>, w')
                          else (Inr \<lparr>so_transaction_id = tx_id transaction, so_commit_timestamp = Some commit_timestamp,
                                  so_committed_writes = applied_writes, so_wal_extent = Some extent\<rparr>,
                                c\<lparr>sc_participant := p\<rparr>, w'))))"

definition apply_replicated_commit ::
  "SingleNodeCommitCoordinator \<Rightarrow> Transaction \<Rightarrow> Timestamp \<Rightarrow> nat result \<times> SingleNodeCommitCoordinator" where
  "apply_replicated_commit c transaction commit_timestamp =
     (case and_then (validate_transaction_metadata transaction) (\<lambda>_.
           and_then (coordinator_ensure_write_path c) (\<lambda>_.
           and_then (participant_validate_commit (sc_participant c) transaction) (\<lambda>_.
             validate_allocated_commit_timestamp (tx_start_ts transaction) commit_timestamp))) of
        Inl e \<Rightarrow> (Inl e, c)
      | Inr _ \<Rightarrow>
          (case participant_apply_commit (sc_participant c) transaction commit_timestamp of
             (Inl e, p) \<Rightarrow> (Inl RecoveryRequired, c\<lparr>sc_participant := p, sc_recovery_required := True\<rparr>)
           | (Inr applied_writes, p) \<Rightarrow>
               if applied_writes \<noteq> bt_len (tx_writes transaction)
               then (Inl RecoveryRequired, c\<lparr>sc_participant := p, sc_recovery_required := True\<rparr>)
               else (Inr applied_writes, c\<lparr>sc_participant := p\<rparr>)))"

end
