(* ===== verification/Recovery.thy ===== *)
theory Recovery
  imports Single_Node Mvcc_Snapshot
begin

text \<open>
  Crash recovery of the single-node database (\<^verbatim>\<open>ragnordb-storage/src/recovery.rs\<close>): decoding of
  log records, selection of the newest published checkpoint, replay of catalog updates and
  transaction commits into a private catalog and MVCC state, and the allocator floors. A failed
  step discards the whole private state, so the operations return the new state or an error.
\<close>

section \<open>Records\<close>

datatype RecoveryPayload =
    PlSnapshotPointer SnapshotPointer
  | PlSingleNodeTxnCommit SingleNodeTxnCommit
  | PlCatalogUpdate CatalogUpdate
  | PlCheckpointMarker CheckpointMarker

record DecodedRecoveryRecord =
  dr_lsn :: Lsn
  dr_payload :: RecoveryPayload

definition decode_recovery_record ::
  "('w, 'b) wal_library \<Rightarrow> Lsn \<Rightarrow> u16 \<Rightarrow> 'b \<Rightarrow> DecodedRecoveryRecord option result" where
  "decode_recovery_record L lsn record_type bs =
     and_then (map_err (\<lambda>_. CorruptData) (wal_classify L record_type)) (\<lambda>logical_type.
       case logical_type of
         None \<Rightarrow> Inr None
       | Some k \<Rightarrow>
           and_then (map_err (\<lambda>_. CorruptData) (case k of
               RtSnapshotPointer \<Rightarrow>
                 and_then (and_then (ok_or (wl_decode_pointer L bs) CorruptData) SnapshotPointer_from_proto)
                   (\<lambda>p. Inr (PlSnapshotPointer p))
             | RtSingleNodeTxnCommit \<Rightarrow>
                 and_then (and_then (ok_or (wl_decode_commit L bs) CorruptData) SingleNodeTxnCommit_from_proto)
                   (\<lambda>c. Inr (PlSingleNodeTxnCommit c))
             | RtCatalogUpdate \<Rightarrow>
                 and_then (and_then (ok_or (wl_decode_catalog L bs) CorruptData) CatalogUpdate_from_proto)
                   (\<lambda>u. Inr (PlCatalogUpdate u))
             | RtCheckpointMarker \<Rightarrow>
                 and_then (and_then (ok_or (wl_decode_marker L bs) CorruptData) CheckpointMarker_from_proto)
                   (\<lambda>k. Inr (PlCheckpointMarker k)))) (\<lambda>payload.
             Inr (Some \<lparr>dr_lsn = lsn, dr_payload = payload\<rparr>)))"

section \<open>Checkpoint selection\<close>

record RecoveryCheckpointCandidate =
  rk_pointer_lsn :: Lsn
  rk_marker_lsn :: Lsn
  rk_pointer :: SnapshotPointer

record PendingSnapshotPointer =
  pp_lsn :: Lsn
  pp_pointer :: SnapshotPointer

record RecoveryCheckpointSelector =
  sel_pending_pointers :: "(u64, PendingSnapshotPointer) btree"
  sel_selected :: "RecoveryCheckpointCandidate option"
  sel_last_observed_lsn :: "Lsn option"

definition RecoveryCheckpointSelector_new :: RecoveryCheckpointSelector where
  "RecoveryCheckpointSelector_new =
     \<lparr>sel_pending_pointers = bt_new, sel_selected = None, sel_last_observed_lsn = None\<rparr>"

definition validate_record_order :: "RecoveryCheckpointSelector \<Rightarrow> Lsn \<Rightarrow> RecoveryCheckpointSelector result" where
  "validate_record_order s lsn =
     and_then (ensure (case sel_last_observed_lsn s of None \<Rightarrow> True | Some previous \<Rightarrow> \<not> lsn \<le> previous) CorruptData) (\<lambda>_.
       Inr (s\<lparr>sel_last_observed_lsn := Some lsn\<rparr>))"

definition observe_pointer ::
  "RecoveryCheckpointSelector \<Rightarrow> Lsn \<Rightarrow> SnapshotPointer \<Rightarrow> RecoveryCheckpointSelector result" where
  "observe_pointer s lsn pointer =
     and_then (ensure (\<not> sp_replay_from_lsn pointer > lsn) CorruptData) (\<lambda>_.
     and_then (ensure (case bt_get (sel_pending_pointers s) (sp_snapshot_id pointer) of
         None \<Rightarrow> True | Some existing \<Rightarrow> pp_pointer existing = pointer) CorruptData) (\<lambda>_.
       Inr (s\<lparr>sel_pending_pointers := bt_insert (sp_snapshot_id pointer) \<lparr>pp_lsn = lsn, pp_pointer = pointer\<rparr>
         (sel_pending_pointers s)\<rparr>)))"

definition observe_marker ::
  "RecoveryCheckpointSelector \<Rightarrow> Lsn \<Rightarrow> CheckpointMarker \<Rightarrow> RecoveryCheckpointSelector result" where
  "observe_marker s lsn marker =
     and_then (ok_or (bt_get (sel_pending_pointers s) (km_snapshot_id marker)) CorruptData) (\<lambda>pending.
     and_then (ensure (sp_snapshot_timestamp (pp_pointer pending) = km_snapshot_timestamp marker \<and>
         sp_replay_from_lsn (pp_pointer pending) = km_replay_from_lsn marker) CorruptData) (\<lambda>_.
       Inr (s\<lparr>sel_pending_pointers := bt_remove (km_snapshot_id marker) (sel_pending_pointers s),
         sel_selected := Some \<lparr>rk_pointer_lsn = pp_lsn pending, rk_marker_lsn = lsn, rk_pointer = pp_pointer pending\<rparr>\<rparr>)))"

definition observe_record ::
  "RecoveryCheckpointSelector \<Rightarrow> DecodedRecoveryRecord \<Rightarrow> RecoveryCheckpointSelector result" where
  "observe_record s r =
     and_then (validate_record_order s (dr_lsn r)) (\<lambda>s.
       case dr_payload r of
         PlSnapshotPointer pointer \<Rightarrow> observe_pointer s (dr_lsn r) pointer
       | PlCheckpointMarker marker \<Rightarrow> observe_marker s (dr_lsn r) marker
       | _ \<Rightarrow> Inr s)"

section \<open>Allocator floors\<close>

record RecoveryHighWaterMarks =
  hw_max_transaction_id :: TxnId
  hw_max_timestamp :: Timestamp
  hw_max_table_id :: TableId
  hw_max_snapshot_id :: u64

record RecoveryAllocatorFloors =
  fl_next_transaction_id :: TxnId
  fl_next_timestamp :: Timestamp
  fl_next_table_id :: TableId
  fl_next_snapshot_id :: u64

definition RecoveryHighWaterMarks_default :: RecoveryHighWaterMarks where
  "RecoveryHighWaterMarks_default =
     \<lparr>hw_max_transaction_id = 0, hw_max_timestamp = 0, hw_max_table_id = 0, hw_max_snapshot_id = 0\<rparr>"

definition checked_recovery_successor :: "u64 \<Rightarrow> u64 result" where
  "checked_recovery_successor maximum = ok_or (checked_add maximum 1) RecoveryFailed"

definition checked_allocator_floors :: "RecoveryHighWaterMarks \<Rightarrow> RecoveryAllocatorFloors result" where
  "checked_allocator_floors h =
     and_then (checked_recovery_successor (hw_max_transaction_id h)) (\<lambda>txn.
     and_then (checked_recovery_successor (hw_max_timestamp h)) (\<lambda>ts.
     and_then (checked_recovery_successor (hw_max_table_id h)) (\<lambda>table.
     and_then (checked_recovery_successor (hw_max_snapshot_id h)) (\<lambda>snapshot.
       Inr \<lparr>fl_next_transaction_id = txn, fl_next_timestamp = ts, fl_next_table_id = table,
            fl_next_snapshot_id = snapshot\<rparr>))))"

definition observe_timestamp :: "Timestamp \<Rightarrow> RecoveryHighWaterMarks \<Rightarrow> RecoveryHighWaterMarks" where
  "observe_timestamp ts h = h\<lparr>hw_max_timestamp := max (hw_max_timestamp h) ts\<rparr>"

definition observe_table_id :: "TableId \<Rightarrow> RecoveryHighWaterMarks \<Rightarrow> RecoveryHighWaterMarks" where
  "observe_table_id table h = h\<lparr>hw_max_table_id := max (hw_max_table_id h) table\<rparr>"

definition observe_catalog_update :: "CatalogUpdate \<Rightarrow> RecoveryHighWaterMarks \<Rightarrow> RecoveryHighWaterMarks" where
  "observe_catalog_update u h = observe_timestamp (cu_update_timestamp u) (observe_table_id (cu_table_id u) h)"

definition observe_transaction_commit :: "SingleNodeTxnCommit \<Rightarrow> RecoveryHighWaterMarks \<Rightarrow> RecoveryHighWaterMarks" where
  "observe_transaction_commit c h =
     observe_timestamp (sn_commit_timestamp c) (observe_timestamp (sn_start_timestamp c)
       (observe_table_id (sn_table_id c)
         (h\<lparr>hw_max_transaction_id := max (hw_max_transaction_id h) (sn_txn_id c)\<rparr>)))"

definition observe_snapshot_pointer :: "SnapshotPointer \<Rightarrow> RecoveryHighWaterMarks \<Rightarrow> RecoveryHighWaterMarks" where
  "observe_snapshot_pointer p h =
     fold observe_table_id (bt_keys (sp_table_ids p))
       (observe_timestamp (sp_snapshot_timestamp p)
         (h\<lparr>hw_max_snapshot_id := max (hw_max_snapshot_id h) (sp_snapshot_id p)\<rparr>))"

definition observe_checkpoint_marker :: "CheckpointMarker \<Rightarrow> RecoveryHighWaterMarks \<Rightarrow> RecoveryHighWaterMarks" where
  "observe_checkpoint_marker k h =
     observe_timestamp (km_snapshot_timestamp k)
       (h\<lparr>hw_max_snapshot_id := max (hw_max_snapshot_id h) (km_snapshot_id k)\<rparr>)"

section \<open>Schema validation of replayed commits\<close>

fun value_matches_type :: "Value \<Rightarrow> DataType \<Rightarrow> bool \<Rightarrow> bool" where
  "value_matches_type VNull expected nullable = nullable"
| "value_matches_type (VInt _) expected nullable = (expected = DtInt)"
| "value_matches_type (VText _) expected nullable = (expected = DtText)"
| "value_matches_type (VBool _) expected nullable = (expected = DtBool)"

definition validate_replayed_row :: "TableSchema \<Rightarrow> bytes \<Rightarrow> Row \<Rightarrow> unit result" where
  "validate_replayed_row schema encoded_key row =
     and_then (ensure (length (row_values row) = length (ts_columns schema)) CorruptData) (\<lambda>_.
     and_then (ensure (list_all (\<lambda>(value, column). value_matches_type value (cs_ty column) (cs_nullable column))
         (zip (row_values row) (ts_columns schema))) CorruptData) (\<lambda>_.
     and_then (try_map (\<lambda>column_id.
         and_then (ok_or (column_ordinal schema column_id) CorruptData) (\<lambda>ordinal. Inr (row_values row ! ordinal)))
         (ts_primary_key_column_ids schema)) (\<lambda>row_primary_key.
     and_then (map_err (\<lambda>_. CorruptData)
         (and_then (make_row_key (ts_id schema) row_primary_key) encode_row_key)) (\<lambda>expected_key.
       ensure (expected_key = encoded_key) CorruptData))))"

definition validate_replayed_write :: "TableSchema \<Rightarrow> ColumnSchema list \<Rightarrow> bytes \<times> WalMutation \<Rightarrow> unit result" where
  "validate_replayed_write schema key_columns w =
     (case w of (encoded_key, mutation) \<Rightarrow>
     and_then (map_err (\<lambda>_. CorruptData) (decode_row_key encoded_key)) (\<lambda>row_key.
     and_then (map_err (\<lambda>_. CorruptData) (decode_primary_key (primary_key_bytes row_key))) (\<lambda>key_values.
     and_then (ensure (length key_values = length key_columns) CorruptData) (\<lambda>_.
     and_then (ensure (list_all (\<lambda>(value, column). value_matches_type value (cs_ty column) False)
         (zip key_values key_columns)) CorruptData) (\<lambda>_.
       case mutation of
         WalDelete \<Rightarrow> Inr ()
       | WalPut encoded_row \<Rightarrow>
           and_then (map_err (\<lambda>_. CorruptData) (decode_row encoded_row)) (validate_replayed_row schema encoded_key))))))"

definition validate_commit_against_schema :: "TableSchema \<Rightarrow> SingleNodeTxnCommit \<Rightarrow> unit result" where
  "validate_commit_against_schema schema commit =
     and_then (ensure (sn_schema_version commit = ts_schema_version schema) CorruptData) (\<lambda>_.
     and_then (map_err (\<lambda>_. CorruptData) (primary_key_columns schema)) (\<lambda>key_columns.
       try_each (validate_replayed_write schema key_columns) (bt_iter (sn_writes commit))))"

section \<open>Replay\<close>

record RecoveryState =
  rc_catalog :: MemoryCatalog
  rc_mvcc_by_table :: "(TableId, InMemoryMvcc) btree"
  rc_high_water_marks :: RecoveryHighWaterMarks
  rc_transactions_by_id :: "(TxnId, SingleNodeTxnCommit) btree"
  rc_transactions_by_commit_timestamp :: "(Timestamp, TxnId) btree"

definition RecoveryState_new :: RecoveryState where
  "RecoveryState_new =
     \<lparr>rc_catalog = MemoryCatalog_new, rc_mvcc_by_table = bt_new,
      rc_high_water_marks = RecoveryHighWaterMarks_default, rc_transactions_by_id = bt_new,
      rc_transactions_by_commit_timestamp = bt_new\<rparr>"

fun replayed_mutation :: "WalMutation \<Rightarrow> Mutation" where
  "replayed_mutation (WalPut row) = PutMutation row"
| "replayed_mutation WalDelete = DeleteMutation"

definition replayed_mutations :: "wal_writes \<Rightarrow> mutations" where
  "replayed_mutations writes =
     bt_from_list (map (\<lambda>(key, mutation). (key, replayed_mutation mutation)) (bt_iter writes))"

definition apply_catalog_update :: "RecoveryState \<Rightarrow> CatalogUpdate \<Rightarrow> RecoveryState result" where
  "apply_catalog_update s update =
     (case install_definition (rc_catalog s) (table_definition update) of
        (Inl _, _) \<Rightarrow> Inl CorruptData
      | (Inr schema, catalog) \<Rightarrow>
          and_then (ensure (ts_id schema = cu_table_id update) CorruptData) (\<lambda>_.
            Inr (s\<lparr>rc_catalog := catalog,
              rc_mvcc_by_table :=
                (case bt_get (rc_mvcc_by_table s) (cu_table_id update) of
                   Some _ \<Rightarrow> rc_mvcc_by_table s
                 | None \<Rightarrow> bt_insert (cu_table_id update) InMemoryMvcc_new (rc_mvcc_by_table s))\<rparr>)))"

definition apply_transaction_commit :: "RecoveryState \<Rightarrow> SingleNodeTxnCommit \<Rightarrow> RecoveryState result" where
  "apply_transaction_commit s commit =
     (case bt_get (rc_transactions_by_id s) (sn_txn_id commit) of
        Some previous \<Rightarrow> if previous = commit then Inr s else Inl CorruptData
      | None \<Rightarrow>
          and_then (ensure (bt_get (rc_transactions_by_commit_timestamp s) (sn_commit_timestamp commit) = None) CorruptData) (\<lambda>_.
          and_then (ok_or (table_by_id (rc_catalog s) (sn_table_id commit)) CorruptData) (\<lambda>schema.
          and_then (validate_commit_against_schema schema commit) (\<lambda>_.
          and_then (ok_or (bt_get (rc_mvcc_by_table s) (sn_table_id commit)) CorruptData) (\<lambda>storage.
            case commit_batch storage (sn_txn_id commit) (sn_start_timestamp commit) (sn_commit_timestamp commit)
                   (replayed_mutations (sn_writes commit)) of
              (Inl _, _) \<Rightarrow> Inl CorruptData
            | (Inr _, storage') \<Rightarrow>
                Inr (s\<lparr>rc_mvcc_by_table := bt_insert (sn_table_id commit) storage' (rc_mvcc_by_table s),
                  rc_transactions_by_id := bt_insert (sn_txn_id commit) commit (rc_transactions_by_id s),
                  rc_transactions_by_commit_timestamp :=
                    bt_insert (sn_commit_timestamp commit) (sn_txn_id commit) (rc_transactions_by_commit_timestamp s)\<rparr>))))))"

definition observe_marks :: "(RecoveryHighWaterMarks \<Rightarrow> RecoveryHighWaterMarks) \<Rightarrow> RecoveryState \<Rightarrow> RecoveryState" where
  "observe_marks f s = s\<lparr>rc_high_water_marks := f (rc_high_water_marks s)\<rparr>"

definition apply_record :: "RecoveryState \<Rightarrow> DecodedRecoveryRecord \<Rightarrow> RecoveryState result" where
  "apply_record s r =
     (case dr_payload r of
        PlCatalogUpdate update \<Rightarrow>
          and_then (apply_catalog_update s update) (\<lambda>s. Inr (observe_marks (observe_catalog_update update) s))
      | PlSingleNodeTxnCommit commit \<Rightarrow>
          and_then (apply_transaction_commit s commit) (\<lambda>s. Inr (observe_marks (observe_transaction_commit commit) s))
      | PlSnapshotPointer pointer \<Rightarrow> Inr (observe_marks (observe_snapshot_pointer pointer) s)
      | PlCheckpointMarker marker \<Rightarrow> Inr (observe_marks (observe_checkpoint_marker marker) s))"

text \<open>The loops over the record stream: internal records are skipped, the first error ends the replay.\<close>

fun replay_recovery_stream_from_state ::
  "('w, 'b) wal_library \<Rightarrow> (Lsn \<times> u16 \<times> 'b) list \<Rightarrow> RecoveryState \<Rightarrow> RecoveryState result" where
  "replay_recovery_stream_from_state L [] s = Inr s"
| "replay_recovery_stream_from_state L ((lsn, record_type, bs) # rest) s =
     and_then (decode_recovery_record L lsn record_type bs) (\<lambda>decoded.
       case decoded of
         None \<Rightarrow> replay_recovery_stream_from_state L rest s
       | Some r \<Rightarrow> and_then (apply_record s r) (\<lambda>s. replay_recovery_stream_from_state L rest s))"

definition replay_recovery_stream :: "('w, 'b) wal_library \<Rightarrow> (Lsn \<times> u16 \<times> 'b) list \<Rightarrow> RecoveryState result" where
  "replay_recovery_stream L stream = replay_recovery_stream_from_state L stream RecoveryState_new"

definition select_recovery_checkpoint ::
  "('w, 'b) wal_library \<Rightarrow> (Lsn \<times> u16 \<times> 'b) list \<Rightarrow> RecoveryCheckpointCandidate option result" where
  "select_recovery_checkpoint L stream =
     and_then (try_fold (\<lambda>s (lsn, record_type, bs).
         and_then (decode_recovery_record L lsn record_type bs) (\<lambda>decoded.
           case decoded of None \<Rightarrow> Inr s | Some r \<Rightarrow> observe_record s r))
       RecoveryCheckpointSelector_new stream) (\<lambda>s. Inr (sel_selected s))"

section \<open>Snapshots of the whole database\<close>

record AllocatorHighWaterMarks =
  ah_max_transaction_id :: "TxnId option"
  ah_max_timestamp :: "Timestamp option"
  ah_max_table_id :: "TableId option"
  ah_max_snapshot_id :: u64

record SnapshotTable =
  st_definition :: "proto_TableDefinition option"
  st_default_values :: "DefaultValueEntry list"
  st_locks :: "LockEntry list"
  st_writes :: "WriteEntry list"

record DatabaseSnapshot =
  db_snapshot_id :: u64
  db_snapshot_timestamp :: "Timestamp option"
  db_replay_from_lsn :: u64
  db_high_water_marks :: "AllocatorHighWaterMarks option"
  db_tables :: "SnapshotTable list"

definition into_snapshot_table :: "CapturedMvccState \<Rightarrow> TableDefinition \<Rightarrow> SnapshotTable" where
  "into_snapshot_table captured definition =
     \<lparr>st_definition = Some (TableDefinition_to_proto definition), st_default_values = cs_default_values captured,
      st_locks = cs_locks captured, st_writes = cs_writes captured\<rparr>"

definition restore_snapshot_table ::
  "MemoryCatalog \<times> (TableId, InMemoryMvcc) btree \<Rightarrow> SnapshotTable \<Rightarrow>
     (MemoryCatalog \<times> (TableId, InMemoryMvcc) btree) result" where
  "restore_snapshot_table s table =
     and_then (and_then (ok_or (st_definition table) CorruptData) (\<lambda>p.
         map_err (\<lambda>_. CorruptData) (TableDefinition_from_proto p))) (\<lambda>definition.
       case install_definition (fst s) definition of
         (Inl _, _) \<Rightarrow> Inl CorruptData
       | (Inr _, catalog) \<Rightarrow>
           and_then (from_snapshot_table (td_table_id definition) (st_default_values table) (st_locks table)
               (st_writes table)) (\<lambda>restored.
           and_then (ensure (bt_get (snd s) (td_table_id definition) = None) CorruptData) (\<lambda>_.
             Inr (catalog, bt_insert (td_table_id definition) (rs_storage restored) (snd s)))))"

definition RecoveryState_from_snapshot :: "DatabaseSnapshot \<Rightarrow> RecoveryState result" where
  "RecoveryState_from_snapshot snapshot =
     and_then (ok_or (db_high_water_marks snapshot) CorruptData) (\<lambda>high_water.
     and_then (ok_or (ah_max_transaction_id high_water) CorruptData) (\<lambda>max_transaction_id.
     and_then (ok_or (ah_max_timestamp high_water) CorruptData) (\<lambda>max_timestamp.
     and_then (ok_or (ah_max_table_id high_water) CorruptData) (\<lambda>max_table_id.
     and_then (try_fold restore_snapshot_table (MemoryCatalog_new, bt_new) (db_tables snapshot)) (\<lambda>(catalog, mvcc_by_table).
       Inr \<lparr>rc_catalog = catalog, rc_mvcc_by_table = mvcc_by_table,
            rc_high_water_marks = \<lparr>hw_max_transaction_id = max_transaction_id, hw_max_timestamp = max_timestamp,
              hw_max_table_id = max_table_id, hw_max_snapshot_id = ah_max_snapshot_id high_water\<rparr>,
            rc_transactions_by_id = bt_new, rc_transactions_by_commit_timestamp = bt_new\<rparr>)))))"

end
