(* ===== verification/Schema_Rows.thy ===== *)
theory Schema_Rows
  imports Recovery
begin

text \<open>
  What it means for a write to be a row of a table, said without the replay validator of
  \<^verbatim>\<open>ragnordb-storage/src/recovery.rs\<close>: the values have the types of their columns, the key is
  the encoding of the primary-key values, and the payload is the encoding of the row. Replay
  accepts every such write, so recovery does not refuse what a client could commit.
\<close>

section \<open>Rows of a schema\<close>

definition fits_column :: "Value \<Rightarrow> ColumnSchema \<Rightarrow> bool" where
  "fits_column v c \<longleftrightarrow>
     (case v of
        VNull \<Rightarrow> cs_nullable c
      | VInt _ \<Rightarrow> cs_ty c = DtInt
      | VText _ \<Rightarrow> cs_ty c = DtText
      | VBool _ \<Rightarrow> cs_ty c = DtBool)"

definition schema_row :: "TableSchema \<Rightarrow> Row \<Rightarrow> bool" where
  "schema_row t row \<longleftrightarrow> wf_row row \<and> list_all2 fits_column (row_values row) (ts_columns t)"

definition row_primary_key :: "TableSchema \<Rightarrow> Row \<Rightarrow> Value list" where
  "row_primary_key t row =
     map (\<lambda>i. the (map_of (zip (map cs_id (ts_columns t)) (row_values row)) i)) (ts_primary_key_column_ids t)"

text \<open>A write puts a row of the schema under its key, or deletes the key of one.\<close>

definition row_write :: "TableSchema \<Rightarrow> bytes \<Rightarrow> Mutation \<Rightarrow> bool" where
  "row_write t key mutation \<longleftrightarrow> length key \<le> usize_max \<and>
     (\<exists>row. schema_row t row \<and>
        and_then (make_row_key (ts_id t) (row_primary_key t row)) encode_row_key = Inr key \<and>
        (case mutation of
           PutMutation bs \<Rightarrow> encode_row row = Inr bs \<and> length bs \<le> usize_max
         | DeleteMutation \<Rightarrow> True))"

section \<open>Columns by identity\<close>

lemma find_position: "find p xs = map_option ((!) xs) (position p xs)"
  by (induction xs) (simp_all add: option.map_comp comp_def)

lemma position_less: "position p xs = Some n \<Longrightarrow> n < length xs"
  by (induction xs arbitrary: n) (auto split: if_splits)

lemma map_of_position:
  assumes "position (\<lambda>c. f c = i) cs = Some n" and "length vals = length cs"
  shows "map_of (zip (map f cs) vals) i = Some (vals ! n)"
  using assms(2,1)
proof (induction vals cs arbitrary: n rule: list_induct2)
  case (Cons v vals c cs)
  then show ?case by (cases "f c = i") auto
qed simp

lemma primary_key_column:
  assumes "validate_primary_key columns ids seen = Inr ()" and "i \<in> set ids"
  obtains n where "position (\<lambda>c. cs_id c = i) columns = Some n" and "\<not> cs_nullable (columns ! n)"
proof -
  have "\<exists>n. position (\<lambda>c. cs_id c = i) columns = Some n \<and> \<not> cs_nullable (columns ! n)"
    using assms by (induction columns ids seen rule: validate_primary_key.induct)
      (auto simp: result_simps find_position)
  with that show thesis by blast
qed

lemma schema_primary_key:
  assumes "validate_table_schema t = Inr ()" and "i \<in> set (ts_primary_key_column_ids t)"
  obtains n where "column_ordinal t i = Some n" and "column_by_id t i = Some (ts_columns t ! n)"
    and "\<not> cs_nullable (ts_columns t ! n)"
proof -
  have "validate_primary_key (ts_columns t) (ts_primary_key_column_ids t) [] = Inr ()"
    using assms(1) by (auto simp: validate_table_schema_def validate_table_definition_def result_simps)
  from primary_key_column [OF this assms(2)] obtain n where
    "position (\<lambda>c. cs_id c = i) (ts_columns t) = Some n" "\<not> cs_nullable (ts_columns t ! n)" .
  with that show thesis by (simp add: column_ordinal_def column_by_id_def find_position)
qed

text \<open>The primary-key columns and values of a row, in key order.\<close>

lemma row_primary_key_values:
  assumes "validate_table_schema t = Inr ()" and "schema_row t row"
  obtains columns where "primary_key_columns t = Inr columns"
    and "list_all2 (\<lambda>v c. fits_column v c \<and> \<not> cs_nullable c) (row_primary_key t row) columns"
    and "try_map (\<lambda>i. and_then (ok_or (column_ordinal t i) CorruptData) (\<lambda>n. Inr (row_values row ! n)))
      (ts_primary_key_column_ids t) = Inr (row_primary_key t row)"
    and "list_all wf_value (row_primary_key t row)"
proof -
  let ?ids = "ts_primary_key_column_ids t" and ?vals = "row_values row" and ?cs = "ts_columns t"
  have fits: "list_all2 fits_column ?vals ?cs" and wf: "list_all wf_value ?vals"
    using assms(2) by (simp_all add: schema_row_def wf_row_def)
  let ?column = "\<lambda>i. the (column_by_id t i)" and ?of_id = "\<lambda>i. the (map_of (zip (map cs_id ?cs) ?vals) i)"
  have id: "column_by_id t i = Some (?column i)" "fits_column (?of_id i) (?column i)" "\<not> cs_nullable (?column i)"
    "and_then (ok_or (column_ordinal t i) CorruptData) (\<lambda>n. Inr (?vals ! n)) = Inr (?of_id i)" "wf_value (?of_id i)"
    if "i \<in> set ?ids" for i
  proof -
    from schema_primary_key [OF assms(1) that] obtain n where n: "column_ordinal t i = Some n"
      "column_by_id t i = Some (?cs ! n)" "\<not> cs_nullable (?cs ! n)" .
    then have less: "n < length ?cs" by (auto simp: column_ordinal_def dest: position_less)
    have v: "?of_id i = ?vals ! n"
      using map_of_position n(1) list_all2_lengthD [OF fits] by (fastforce simp: column_ordinal_def)
    show "column_by_id t i = Some (?column i)" "\<not> cs_nullable (?column i)" using n by simp_all
    show "fits_column (?of_id i) (?column i)"
      using list_all2_nthD2 [OF fits less] n(2) v by simp
    show "and_then (ok_or (column_ordinal t i) CorruptData) (\<lambda>n. Inr (?vals ! n)) = Inr (?of_id i)"
      using n(1) v by simp
    show "wf_value (?of_id i)" using wf v less list_all2_lengthD [OF fits] by (simp add: list_all_length)
  qed
  show thesis
  proof (rule that)
    show "primary_key_columns t = Inr (map ?column ?ids)"
      using id(1) by (auto simp: primary_key_columns_def try_map_eq_Inr list_all2_conv_all_nth ok_or_eq_Inr)
    show "list_all2 (\<lambda>v c. fits_column v c \<and> \<not> cs_nullable c) (row_primary_key t row) (map ?column ?ids)"
      using id(2,3) by (simp add: row_primary_key_def list_all2_conv_all_nth)
    show "try_map (\<lambda>i. and_then (ok_or (column_ordinal t i) CorruptData) (\<lambda>n. Inr (?vals ! n))) ?ids =
        Inr (row_primary_key t row)"
      using id(4) by (auto simp: row_primary_key_def try_map_eq_Inr list_all2_conv_all_nth)
    show "list_all wf_value (row_primary_key t row)"
      using id(5) by (simp add: row_primary_key_def list_all_iff)
  qed
qed

section \<open>Replay accepts rows of the schema\<close>

lemma fits_matches:
  "fits_column v c \<Longrightarrow> value_matches_type v (cs_ty c) (cs_nullable c)"
  "fits_column v c \<Longrightarrow> \<not> cs_nullable c \<Longrightarrow> value_matches_type v (cs_ty c) False"
  by (cases v; simp add: fits_column_def)+

lemma list_all2_matches:
  assumes "list_all2 P vals cs" and "\<And>v c. P v c \<Longrightarrow> Q v c"
  shows "length vals = length cs" and "list_all (\<lambda>(v, c). Q v c) (zip vals cs)"
  using assms by (auto simp: list_all2_iff list_all_iff)

lemma encoded_key_decodes:
  assumes "and_then (make_row_key table vals) encode_row_key = Inr key" and "list_all wf_value vals"
    and "length key \<le> usize_max"
  obtains rk where "decode_row_key key = Inr rk" and "decode_primary_key (primary_key_bytes rk) = Inr vals"
proof -
  from assms(1) obtain pk where rk: "encode_row_key (RowKey table pk) = Inr key" "encode_primary_key vals = Inr pk"
    by (auto simp: make_row_key_def result_simps)
  have "length pk \<le> usize_max" using encode_row_key_bytes [OF rk(1)] assms(3) by simp
  then have "decode_primary_key pk = Inr vals" by (rule primary_key_codec.dec_enc [OF assms(2) rk(2)])
  moreover have "decode_row_key key = Inr (RowKey table pk)" by (rule row_key_codec.dec_enc [OF _ rk(1)]) simp_all
  ultimately show thesis using that by fastforce
qed

lemma row_write_accepted:
  assumes "validate_table_schema t = Inr ()" and "primary_key_columns t = Inr columns" and "row_write t key mu"
  shows "validate_replayed_write t columns (key, wal_mutation mu) = Inr ()"
proof -
  from assms(3) obtain row where row: "schema_row t row" "length key \<le> usize_max"
    "and_then (make_row_key (ts_id t) (row_primary_key t row)) encode_row_key = Inr key"
    "\<And>bs. mu = PutMutation bs \<Longrightarrow> encode_row row = Inr bs \<and> length bs \<le> usize_max"
    by (cases mu) (auto simp: row_write_def)
  from row_primary_key_values [OF assms(1) row(1)] assms(2) have
    typed: "list_all2 (\<lambda>v c. fits_column v c \<and> \<not> cs_nullable c) (row_primary_key t row) columns" and
    pk: "try_map (\<lambda>i. and_then (ok_or (column_ordinal t i) CorruptData) (\<lambda>n. Inr (row_values row ! n)))
      (ts_primary_key_column_ids t) = Inr (row_primary_key t row)" and
    wf: "list_all wf_value (row_primary_key t row)" by (metis sum.inject(2))+
  from encoded_key_decodes [OF row(3) wf row(2)] obtain rk where
    rk: "decode_row_key key = Inr rk" "decode_primary_key (primary_key_bytes rk) = Inr (row_primary_key t row)" .
  have key: "length (row_primary_key t row) = length columns"
    "list_all (\<lambda>(v, c). value_matches_type v (cs_ty c) False) (zip (row_primary_key t row) columns)"
    using list_all2_matches [OF typed, of "\<lambda>v c. value_matches_type v (cs_ty c) False"] fits_matches by auto
  have "validate_replayed_row t key row = Inr ()"
    using list_all2_matches [of fits_column "row_values row" "ts_columns t"
        "\<lambda>v c. value_matches_type v (cs_ty c) (cs_nullable c)"] fits_matches(1) row(1,3) pk
    by (simp add: validate_replayed_row_def schema_row_def)
  moreover have "decode_row bs = Inr row" if "mu = PutMutation bs" for bs
    using row_codec.dec_enc [of row bs] row(1,4) that by (simp add: schema_row_def)
  ultimately show ?thesis
    using rk key by (cases mu) (simp_all add: validate_replayed_write_def)
qed

lemma row_writes_accepted:
  assumes "validate_table_schema t = Inr ()" and "ts_schema_version t = sn_schema_version commit"
    and "\<And>key w. bt_get (sn_writes commit) key = Some w \<Longrightarrow> \<exists>mu. w = wal_mutation mu \<and> row_write t key mu"
  shows "validate_commit_against_schema t commit = Inr ()"
proof -
  have "\<exists>columns. primary_key_columns t = Inr columns"
    unfolding primary_key_columns_def try_map_eq_Inr
    by (rule exI [of _ "map (\<lambda>i. the (column_by_id t i)) (ts_primary_key_column_ids t)"])
      (auto simp: list_all2_conv_all_nth ok_or_eq_Inr elim!: schema_primary_key [OF assms(1) nth_mem])
  then obtain columns where columns: "primary_key_columns t = Inr columns" ..
  have "try_each (validate_replayed_write t columns) (bt_iter (sn_writes commit)) = Inr ()"
    using assms(3) row_write_accepted [OF assms(1) columns] by (fastforce simp: try_each_eq_Inr bt.iter_mem)
  with columns assms(2) show ?thesis by (simp add: validate_commit_against_schema_def)
qed

end
