(* ===== verification/Recovery_Props.thy ===== *)
theory Recovery_Props
  imports Schema_Rows Txn_Buffer
begin

text \<open>
  Crash recovery is exact. A node that creates tables and commits transactions through one shared
  log is compared with what recovery rebuilds from that log, and the recovered allocator floors
  lie above every identity and timestamp the recovered state holds.
\<close>

section \<open>Commits that were validated apply\<close>

text \<open>Single-node engines hold no rollback markers, so the newest write of a key is a commit.\<close>

definition engine_ok :: "InMemoryMvcc \<Rightarrow> bool" where
  "engine_ok m \<longleftrightarrow> mvcc_inv m \<and> (\<forall>k t w. wr m k t = Some w \<longrightarrow> w_op w \<noteq> Rollback)"

lemma engine_ok_new: "engine_ok InMemoryMvcc_new"
  using key_inv_new by (simp add: engine_ok_def mvcc_inv_def)

lemma no_replay:
  assumes "\<And>k mu. bt_get mus k = Some mu \<Longrightarrow> get2 (m_writes m) k c = None"
  shows "validate_batch_replay m mus s c = Inr False"
proof -
  have "try_fold (\<lambda>applied (key, mutation). and_then (is_exactly_applied m key mutation s c) (\<lambda>b.
      Inr (if b then applied + 1 else applied))) n xs = Inr n"
    if "set xs \<subseteq> set (bt_iter mus)" for xs and n :: nat
    using that
  proof (induction xs)
    case (Cons x xs)
    obtain k mu where x: "x = (k, mu)" by force
    with Cons.prems have "bt_get mus k = Some mu" by (simp add: bt.iter_mem)
    with assms have "is_exactly_applied m k mu s c = Inr False" by (simp add: is_exactly_applied_def)
    with Cons x show ?case by simp
  qed simp
  then show ?thesis by (simp add: validate_batch_replay_def)
qed

lemma commit_applies:
  assumes "engine_ok m" and "validate_commit_batch m txn s mus = Inr ()" and "s < c" and "\<not> bt_is_empty mus"
  shows "commit_batch m txn s c mus = (Inr (bt_len mus), fold (publish_mutation txn s c) (bt_iter mus) m)"
proof -
  have v: "txn \<noteq> 0" "s \<noteq> 0" "\<And>k mu. bt_get mus k = Some mu \<Longrightarrow> validate_mutation m k mu s = Inr () \<and> validate_write_history m k s = Inr ()"
    using assms(2) by (auto simp: validate_commit_batch_def and_then_eq_Inr try_each_eq_Inr validate_preflight_Inr
        Ball_def split_paired_All bt.iter_mem)
  have old: "t < c" if "bt_get mus k = Some mu" "wr m k t = Some w" for k mu t w
  proof -
    have "writes_ok m k" using assms(1) by (auto simp: engine_ok_def mvcc_inv_def key_inv_def)
    from validate_write_history_eq [OF this, of s] v(3) [OF that(1)] have "unfenced m k s" by (auto split: if_splits)
    with that(2) assms(1) have "t \<le> s" by (auto simp: unfenced_def engine_ok_def)
    with assms(3) show ?thesis by simp
  qed
  have "validate_batch_replay m mus s c = Inr False"
    by (rule no_replay) (use old in \<open>fastforce simp: wr_def\<close>)
  moreover have "try_each (\<lambda>key. validate_commit_timestamp m key c) (bt_keys mus) = Inr ()"
    using old by (auto simp: try_each_eq_Inr validate_commit_timestamp_Inr)
  moreover have "and_then (validate_commit_metadata txn s c) (\<lambda>_.
      try_each (\<lambda>(key, mutation). validate_mutation m key mutation s) (bt_iter mus)) = Inr ()"
    using v assms(3) by (auto simp: and_then_eq_Inr try_each_eq_Inr validate_metadata_Inr bt.iter_mem)
  ultimately show ?thesis using assms(2,4) by (simp add: commit_batch_def)
qed

lemma no_rollback_published:
  assumes "\<And>k t w. wr m k t = Some w \<Longrightarrow> w_op w \<noteq> Rollback"
  shows "wr (fold (publish_mutation txn s c) kvs m) k t = Some w \<Longrightarrow> w_op w \<noteq> Rollback"
  using assms
proof (induction kvs arbitrary: m)
  case (Cons kv kvs)
  obtain k' mu where kv: "kv = (k', mu)" by force
  have "w_op w \<noteq> Rollback" if "wr (publish_mutation txn s c kv m) k t = Some w" for k t w
    using that Cons.prems(2) by (cases mu) (auto simp: kv publish_mutation_view split: if_splits)
  with Cons show ?case by simp
qed simp

lemma engine_ok_commit:
  assumes "engine_ok m" and "commit_batch m txn s c mus = (r, m')"
  shows "engine_ok m'"
proof -
  have "mvcc_inv m'" using commit_batch_inv [OF _ assms(2)] assms(1) by (simp add: engine_ok_def)
  moreover from assms(2) have "\<forall>k t w. wr m' k t = Some w \<longrightarrow> w_op w \<noteq> Rollback"
    using assms(1) no_rollback_published [of m txn s c "bt_iter mus"]
    by (cases rule: commit_batch_cases) (auto simp: engine_ok_def)
  ultimately show ?thesis by (simp add: engine_ok_def)
qed

section \<open>A node over one log\<close>

text \<open>
  The node: the catalog writer and one commit coordinator per table, all over the same log. A
  call creates a table or commits a transaction on a table; both carry the timestamp the
  transaction manager hands out for them. A created table starts with an empty engine.
\<close>

record 'w LocalNode =
  ln_wal :: 'w
  ln_catalog :: MemoryCatalog
  ln_catalog_stopped :: bool
  ln_tables :: "(TableId, SingleNodeCommitCoordinator) btree"

datatype NodeCall =
    CallCreate bytes "ColumnSchema list" "ColumnId list" "Timestamp result"
  | CallCommit TableId Transaction "Timestamp result"

definition LocalNode_new :: "'w \<Rightarrow> 'w LocalNode" where
  "LocalNode_new w = \<lparr>ln_wal = w, ln_catalog = MemoryCatalog_new, ln_catalog_stopped = False, ln_tables = bt_new\<rparr>"

definition node_writer :: "'w LocalNode \<Rightarrow> 'w DurableCatalog" where
  "node_writer n =
     \<lparr>dc_catalog = ln_catalog n, dc_durable_log = ln_wal n, dc_recovery_required = ln_catalog_stopped n\<rparr>"

fun node_call ::
  "'w catalog_log \<Rightarrow> ('w \<Rightarrow> SingleNodeTxnCommit \<Rightarrow> DurableWalExtent result \<times> 'w) \<Rightarrow> 'w LocalNode \<Rightarrow> NodeCall \<Rightarrow>
     'w LocalNode" where
  "node_call append_update append_commit n (CallCreate name columns pk allocated) =
     (case create_table append_update (node_writer n) name columns pk allocated of (r, d) \<Rightarrow>
        n\<lparr>ln_wal := dc_durable_log d, ln_catalog := dc_catalog d, ln_catalog_stopped := dc_recovery_required d,
          ln_tables := (case r of
             Inl _ \<Rightarrow> ln_tables n
           | Inr oc \<Rightarrow> bt_insert (ts_id (co_schema oc))
               \<lparr>sc_participant = \<lparr>op_table_id = ts_id (co_schema oc), op_storage = InMemoryMvcc_new\<rparr>,
                sc_recovery_required = False\<rparr> (ln_tables n))\<rparr>)"
| "node_call append_update append_commit n (CallCommit table transaction allocated) =
     (case bt_get (ln_tables n) table of
        None \<Rightarrow> n
      | Some c \<Rightarrow>
          (case coordinator_commit append_commit (ln_wal n) c transaction allocated of (r, c', w) \<Rightarrow>
             n\<lparr>ln_wal := w, ln_tables := bt_insert table c' (ln_tables n)\<rparr>))"

abbreviation live_call :: "('w, 'b) wal_library \<Rightarrow> 'w LocalNode \<Rightarrow> NodeCall \<Rightarrow> 'w LocalNode" where
  "live_call L \<equiv> node_call (append_catalog_update L) (append_single_node_commit L)"

text \<open>The same call over a log that acknowledges everything: what the call does when it succeeds.\<close>

definition acked_call :: "'w LocalNode \<Rightarrow> NodeCall \<Rightarrow> 'w LocalNode" where
  "acked_call = node_call (\<lambda>w _. (Inr \<lparr>ce_start_lsn = 0, ce_end_lsn = 0\<rparr>, w))
     (\<lambda>w _. (Inr \<lparr>ex_start_lsn = 0, ex_end_lsn = 0\<rparr>, w))"

definition node_stopped :: "'w LocalNode \<Rightarrow> bool" where
  "node_stopped n \<longleftrightarrow> ln_catalog_stopped n \<or> (\<exists>t c. bt_get (ln_tables n) t = Some c \<and> sc_recovery_required c)"

text \<open>The database payloads a log holds, in order, and the commits among them.\<close>

fun logged_payloads :: "('w, 'b) wal_library \<Rightarrow> (Lsn \<times> u16 \<times> 'b) list \<Rightarrow> RecoveryPayload list" where
  "logged_payloads L [] = []"
| "logged_payloads L ((lsn, t, b) # rest) =
     (case decode_recovery_record L lsn t b of Inr (Some r) \<Rightarrow> [dr_payload r] | _ \<Rightarrow> []) @ logged_payloads L rest"

definition payload_commits :: "RecoveryPayload \<Rightarrow> SingleNodeTxnCommit list" where
  "payload_commits pl = (case pl of PlSingleNodeTxnCommit c \<Rightarrow> [c] | _ \<Rightarrow> [])"

definition logged_commits :: "('w, 'b) wal_library \<Rightarrow> (Lsn \<times> u16 \<times> 'b) list \<Rightarrow> SingleNodeTxnCommit list" where
  "logged_commits L stream = concat (map payload_commits (logged_payloads L stream))"

text \<open>
  What a caller owes when it commits: a transaction identity and a commit timestamp that no logged
  commit has, since the transaction manager hands each out once, and writes that are rows of the
  table, since the SQL executor builds them from typed values.
\<close>

fun admissible :: "('w, 'b) wal_library \<Rightarrow> 'w LocalNode \<Rightarrow> NodeCall \<Rightarrow> bool" where
  "admissible L n (CallCreate name columns pk allocated) \<longleftrightarrow> True"
| "admissible L n (CallCommit table transaction allocated) \<longleftrightarrow>
     (\<forall>ts schema. allocated = Inr ts \<longrightarrow> table_by_id (ln_catalog n) table = Some schema \<longrightarrow>
        list_all (\<lambda>old. sn_txn_id old \<noteq> tx_id transaction \<and> sn_commit_timestamp old \<noteq> ts)
          (logged_commits L (wl_contents L (ln_wal n))) \<and>
        list_all (\<lambda>(key, mutation). row_write schema key mutation) (bt_iter (tx_writes transaction)))"

inductive node_run :: "('w, 'b) wal_library \<Rightarrow> 'w \<Rightarrow> 'w LocalNode \<Rightarrow> bool" for L w where
  run_start: "node_run L w (LocalNode_new w)"
| run_call: "node_run L w n \<Longrightarrow> \<not> node_stopped n \<Longrightarrow> admissible L n call \<Longrightarrow> node_run L w (live_call L n call)"

text \<open>Recovery rebuilt the node: the same catalog, and per table the same MVCC engine.\<close>

definition recovers :: "'w LocalNode \<Rightarrow> RecoveryState \<Rightarrow> bool" where
  "recovers n s \<longleftrightarrow> rc_catalog s = ln_catalog n \<and>
     (\<forall>t. bt_get (rc_mvcc_by_table s) t = map_option (\<lambda>c. op_storage (sc_participant c)) (bt_get (ln_tables n) t))"

section \<open>Replaying one more record\<close>

lemma replay_append:
  "replay_recovery_stream_from_state L (xs @ ys) s =
     and_then (replay_recovery_stream_from_state L xs s) (replay_recovery_stream_from_state L ys)"
proof (induction xs arbitrary: s)
  case (Cons x xs)
  obtain lsn t b where x: "x = (lsn, t, b)" by (cases x)
  show ?case
  proof (cases "decode_recovery_record L lsn t b")
    case (Inr d)
    then show ?thesis
      by (cases d; cases "apply_record s (the d)") (simp_all add: x Cons)
  qed (simp add: x)
qed simp

lemma logged_payloads_append: "logged_payloads L (xs @ ys) = logged_payloads L xs @ logged_payloads L ys"
  by (induction L xs rule: logged_payloads.induct) simp_all

text \<open>Internal records are invisible to replay.\<close>

lemma decode_internal: "wl_is_internal L t \<Longrightarrow> decode_recovery_record L lsn t b = Inr None"
  by (simp add: decode_recovery_record_def wal_classify_def)

lemma replay_user_records:
  "replay_recovery_stream L (wl_contents L w) = replay_recovery_stream L (user_records L w)"
proof -
  have "replay_recovery_stream_from_state L (filter (\<lambda>(_, t, _). \<not> wl_is_internal L t) xs) s =
      replay_recovery_stream_from_state L xs s" for xs s
    by (induction L xs s rule: replay_recovery_stream_from_state.induct)
      (auto simp: decode_internal intro!: arg_cong2 [where f = and_then] ext split: option.splits)
  then show ?thesis by (simp add: replay_recovery_stream_def user_records_def)
qed

lemma logged_user_records: "logged_commits L (wl_contents L w) = logged_commits L (user_records L w)"
proof -
  have "logged_payloads L (filter (\<lambda>(_, t, _). \<not> wl_is_internal L t) xs) = logged_payloads L xs" for xs
    by (induction L xs rule: logged_payloads.induct) (auto simp: decode_internal)
  then show ?thesis by (simp add: logged_commits_def user_records_def)
qed

lemma decode_commit_record:
  assumes "wal_contract L" and "SingleNodeTxnCommit_validate c"
  shows "decode_recovery_record L lsn (as_wal_record_type (wl_user_min L) RtSingleNodeTxnCommit)
      (wl_encode_commit L (SingleNodeTxnCommit_to_proto c)) =
    Inr (Some \<lparr>dr_lsn = lsn, dr_payload = PlSingleNodeTxnCommit c\<rparr>)"
  using assms(1) wal_classify_id [OF assms(1), of RtSingleNodeTxnCommit] txn_commit_codec.dec_enc [of c] assms(2)
  by (simp add: decode_recovery_record_def wal_contract_def checked_proto_def)

lemma decode_catalog_record:
  assumes "wal_contract L" and "CatalogUpdate_validate u"
  shows "decode_recovery_record L lsn (as_wal_record_type (wl_user_min L) RtCatalogUpdate)
      (wl_encode_catalog L (CatalogUpdate_to_proto u)) =
    Inr (Some \<lparr>dr_lsn = lsn, dr_payload = PlCatalogUpdate u\<rparr>)"
  using assms(1) wal_classify_id [OF assms(1), of RtCatalogUpdate] catalog_update_codec.dec_enc [of u] assms(2)
  by (simp add: decode_recovery_record_def wal_contract_def checked_proto_def)

text \<open>
  What the adapters leave in the log: nothing when they refuse, the encoded record when they
  acknowledge, and one or the other when the outcome is unknown.
\<close>

lemma wal_append_records:
  assumes "wal_contract L" and "wl_append_and_sync L w t b = (q, w')" and "\<not> wl_is_internal L t"
  shows "user_records L w' = user_records L w \<and> \<not> is_ok q \<or>
    (\<exists>lsn. user_records L w' = user_records L w @ [(lsn, t, b)]) \<and> (is_ok q \<or> (\<exists>s e. q = Inl (OutcomeUnknown s e)))"
proof -
  have c: "wl_append_and_sync L w t b = (Inr ext, w') \<Longrightarrow> user_records L w' = user_records L w @ [(ex_start_lsn ext, t, b)]"
    "wl_append_and_sync L w t b = (Inl (NotStaged r), w') \<Longrightarrow> user_records L w' = user_records L w"
    "wl_append_and_sync L w t b = (Inl (OutcomeUnknown s e), w') \<Longrightarrow>
      user_records L w' = user_records L w \<or> user_records L w' = user_records L w @ [(s, t, b)]" for ext r s e
    using assms(1,3) unfolding wal_contract_def by blast+
  show ?thesis
  proof (cases q)
    case (Inl f)
    with assms(2) c(2,3) show ?thesis by (cases f) auto
  qed (use assms(2) c(1) in auto)
qed

lemma registry_not_internal: "wal_contract L \<Longrightarrow> \<not> wl_is_internal L (as_wal_record_type (wl_user_min L) k)"
  using wal_classify_id [of L k] by (auto simp: wal_classify_def)

definition logged :: "('w, 'b) wal_library \<Rightarrow> 'w \<Rightarrow> RecoveryPayload \<Rightarrow> 'w \<Rightarrow> bool" where
  "logged L w pl w' \<longleftrightarrow> (\<exists>lsn t b. user_records L w' = user_records L w @ [(lsn, t, b)] \<and>
     decode_recovery_record L lsn t b = Inr (Some \<lparr>dr_lsn = lsn, dr_payload = pl\<rparr>))"

lemma append_commit_logged:
  assumes "wal_contract L" and "append_single_node_commit L w c = (r, w')"
  shows "user_records L w' = user_records L w \<and> \<not> is_ok r \<or>
    logged L w (PlSingleNodeTxnCommit c) w' \<and> (is_ok r \<or> (\<exists>a b. r = Inl (CommitOutcomeUnknown a b)))"
proof (cases "SingleNodeTxnCommit_validate c")
  case True
  then obtain q where q: "wl_append_and_sync L w (as_wal_record_type (wl_user_min L) RtSingleNodeTxnCommit)
      (wl_encode_commit L (SingleNodeTxnCommit_to_proto c)) = (q, w')" "r = map_err map_commit_append_failure q"
    using assms(2) by (auto simp: append_single_node_commit_def checked_proto_def split: prod.splits)
  then have "is_ok r \<longleftrightarrow> is_ok q" "q = Inl (OutcomeUnknown s e) \<Longrightarrow> r = Inl (CommitOutcomeUnknown s e)" for s e
    by (cases q; simp)+
  with wal_append_records [OF assms(1) q(1) registry_not_internal [OF assms(1)]] decode_commit_record [OF assms(1) True] show ?thesis
    unfolding logged_def by blast
qed (use assms(2) in \<open>auto simp: append_single_node_commit_def checked_proto_def\<close>)

definition update_of :: "CatalogLogRecord \<Rightarrow> CatalogUpdate" where
  "update_of record = \<lparr>cu_table_id = cl_table_id record, cu_update_timestamp = cl_update_timestamp record,
     cu_command = cl_command record\<rparr>"

lemma append_catalog_logged:
  assumes "wal_contract L" and "append_catalog_update L w record = (r, w')"
  shows "user_records L w' = user_records L w \<and> \<not> is_ok r \<or>
    logged L w (PlCatalogUpdate (update_of record)) w' \<and> (is_ok r \<or> (\<exists>a b. r = Inl (CatalogOutcomeUnknown a b)))"
proof (cases "CatalogUpdate_validate (update_of record)")
  case True
  then obtain q where q: "wl_append_and_sync L w (as_wal_record_type (wl_user_min L) RtCatalogUpdate)
      (wl_encode_catalog L (CatalogUpdate_to_proto (update_of record))) = (q, w')"
    "r = and_then (map_err map_catalog_append_failure q) (\<lambda>extent.
        Inr \<lparr>ce_start_lsn = ex_start_lsn extent, ce_end_lsn = ex_end_lsn extent\<rparr>)"
    using assms(2) by (auto simp: append_catalog_update_def checked_proto_def update_of_def split: prod.splits)
  then have "is_ok r \<longleftrightarrow> is_ok q" "q = Inl (OutcomeUnknown s e) \<Longrightarrow> r = Inl (CatalogOutcomeUnknown s e)" for s e
    by (cases q; simp)+
  with wal_append_records [OF assms(1) q(1) registry_not_internal [OF assms(1)]] decode_catalog_record [OF assms(1) True] show ?thesis
    unfolding logged_def by blast
qed (use assms(2) in \<open>auto simp: append_catalog_update_def checked_proto_def update_of_def\<close>)

section \<open>The commit path and its replay\<close>

definition committed_engine :: "InMemoryMvcc \<Rightarrow> Transaction \<Rightarrow> Timestamp \<Rightarrow> InMemoryMvcc" where
  "committed_engine m transaction ts =
     snd (commit_batch m (tx_id transaction) (tx_start_ts transaction) ts (tx_writes transaction))"

lemma checked_commit_applies:
  assumes "engine_ok (op_storage (sc_participant c))" and "checked_commit c transaction allocated = Inr ts"
    and "\<not> bt_is_empty (tx_writes transaction)"
  shows "commit_batch (op_storage (sc_participant c)) (tx_id transaction) (tx_start_ts transaction) ts
      (tx_writes transaction) =
    (Inr (bt_len (tx_writes transaction)), committed_engine (op_storage (sc_participant c)) transaction ts)"
    and "allocated = Inr ts" and "tx_start_ts transaction < ts"
proof -
  have v: "validate_commit_batch (op_storage (sc_participant c)) (tx_id transaction) (tx_start_ts transaction)
      (tx_writes transaction) = Inr ()" "tx_start_ts transaction < ts" "allocated = Inr ts"
    using assms(2) by (auto simp: checked_commit_def participant_validate_commit_def
        validate_allocated_commit_timestamp_def result_simps)
  from commit_applies [OF assms(1) v(1,2) assms(3)]
  show "commit_batch (op_storage (sc_participant c)) (tx_id transaction) (tx_start_ts transaction) ts
      (tx_writes transaction) =
    (Inr (bt_len (tx_writes transaction)), committed_engine (op_storage (sc_participant c)) transaction ts)"
    by (simp add: committed_engine_def)
qed (use assms(2) in \<open>auto simp: checked_commit_def validate_allocated_commit_timestamp_def result_simps\<close>)

definition with_engine :: "SingleNodeCommitCoordinator \<Rightarrow> InMemoryMvcc \<Rightarrow> SingleNodeCommitCoordinator" where
  "with_engine c m = c\<lparr>sc_participant := (sc_participant c)\<lparr>op_storage := m\<rparr>\<rparr>"

lemma coordinator_commit_cases:
  assumes "engine_ok (op_storage (sc_participant c))"
    and "coordinator_commit append_commit w c transaction allocated = (r, c', w')"
  obtains (refused) "c' = c" "w' = w"
  | (appended) ts a where "validate_transaction_metadata transaction = Inr ()" "checked_commit c transaction allocated = Inr ts" "\<not> bt_is_empty (tx_writes transaction)"
    "append_commit w (build_commit_record (sc_participant c) transaction ts) = (a, w')"
    "c' = (case a of Inr _ \<Rightarrow> with_engine c (committed_engine (op_storage (sc_participant c)) transaction ts)
       | Inl (CommitOutcomeUnknown _ _) \<Rightarrow> c\<lparr>sc_recovery_required := True\<rparr> | Inl _ \<Rightarrow> c)"
proof (cases "is_ok (validate_transaction_metadata transaction) \<and> \<not> bt_is_empty (tx_writes transaction) \<and>
    is_ok (checked_commit c transaction allocated)")
  case True
  then obtain ts where u: "validate_transaction_metadata transaction = Inr ()" "\<not> bt_is_empty (tx_writes transaction)"
    "checked_commit c transaction allocated = Inr ts"
    by (auto simp: is_ok_iff)
  obtain a w1 where a: "append_commit w (build_commit_record (sc_participant c) transaction ts) = (a, w1)" by force
  note ap = checked_commit_applies(1) [OF assms(1) u(3,2)]
  have "w1 = w' \<and> c' = (case a of Inr _ \<Rightarrow> with_engine c (committed_engine (op_storage (sc_participant c)) transaction ts)
       | Inl (CommitOutcomeUnknown _ _) \<Rightarrow> c\<lparr>sc_recovery_required := True\<rparr> | Inl _ \<Rightarrow> c)"
  proof (cases a)
    case (Inl e)
    with assms(2) u a show ?thesis by (cases e) (simp_all add: coordinator_commit_def)
  next
    case (Inr ext)
    with assms(2) u a ap show ?thesis
      by (simp add: coordinator_commit_def participant_apply_commit_def with_engine_def)
  qed
  with u a that(2) show thesis by blast
next
  case False
  then have "snd (coordinator_commit append_commit w c transaction allocated) = (c, w)"
    by (cases "validate_transaction_metadata transaction"; cases "checked_commit c transaction allocated")
      (auto simp: coordinator_commit_def)
  with assms(2) that(1) show thesis by simp
qed

lemma bt_get_map_values:
  "bt_get (bt_from_list (map (\<lambda>(k, v). (k, f v)) (bt_iter m))) k = map_option f (bt_get m k)"
proof -
  have "map_of (map (\<lambda>(k, v). (k, f v)) (bt_iter m)) k = map_option f (map_of (bt_iter m) k)"
    by (rule map_of_map [THEN fun_cong, unfolded comp_def])
  then show ?thesis by (simp add: bt_get_from_list bt.iter_distinct comp_def case_prod_beta' bt.iter_get)
qed

lemma replayed_mutations_build: "replayed_mutations (sn_writes (build_commit_record p transaction ts)) = tx_writes transaction"
proof -
  have "replayed_mutation (wal_mutation mu) = mu" for mu by (cases mu) simp_all
  then show ?thesis
    by (simp add: bt_eq_iff replayed_mutations_def build_commit_record_def bt_get_map_values option.map_comp comp_def
        option.map_ident)
qed

text \<open>Replay's duplicate detection only knows commits of the log.\<close>

definition indexed :: "SingleNodeTxnCommit list \<Rightarrow> RecoveryState \<Rightarrow> bool" where
  "indexed cs s \<longleftrightarrow>
     (\<forall>i c. bt_get (rc_transactions_by_id s) i = Some c \<longrightarrow> i \<in> sn_txn_id ` set cs) \<and>
     (\<forall>t i. bt_get (rc_transactions_by_commit_timestamp s) t = Some i \<longrightarrow> t \<in> sn_commit_timestamp ` set cs)"

definition node_ok :: "'w LocalNode \<Rightarrow> bool" where
  "node_ok n \<longleftrightarrow> catalog_ok (ln_catalog n) \<and>
     (\<forall>t schema. table_by_id (ln_catalog n) t = Some schema \<longrightarrow> ts_schema_version schema = 1) \<and>
     (\<forall>t. bt_get (ln_tables n) t = None \<longleftrightarrow> table_by_id (ln_catalog n) t = None) \<and>
     (\<forall>t c. bt_get (ln_tables n) t = Some c \<longrightarrow> op_table_id (sc_participant c) = t \<and> engine_ok (op_storage (sc_participant c)))"

lemma node_okD:
  assumes "node_ok n"
  shows "catalog_ok (ln_catalog n)" and "bt_get (ln_tables n) t = None \<longleftrightarrow> table_by_id (ln_catalog n) t = None"
    and "bt_get (ln_tables n) t = Some c \<Longrightarrow> op_table_id (sc_participant c) = t \<and> engine_ok (op_storage (sc_participant c))"
    and "table_by_id (ln_catalog n) t = Some schema \<Longrightarrow> validate_table_schema schema = Inr () \<and> ts_schema_version schema = 1"
proof -
  note ok = assms [unfolded node_ok_def]
  show "catalog_ok (ln_catalog n)" "bt_get (ln_tables n) t = None \<longleftrightarrow> table_by_id (ln_catalog n) t = None"
    "bt_get (ln_tables n) t = Some c \<Longrightarrow> op_table_id (sc_participant c) = t \<and> engine_ok (op_storage (sc_participant c))"
    using ok by blast+
  show "table_by_id (ln_catalog n) t = Some schema \<Longrightarrow> validate_table_schema schema = Inr () \<and> ts_schema_version schema = 1"
    using ok catalog_okD(1) by (metis table_by_id_def)
qed

definition tracks :: "('w, 'b) wal_library \<Rightarrow> 'w LocalNode \<Rightarrow> 'w LocalNode \<Rightarrow> RecoveryState \<Rightarrow> bool" where
  "tracks L n view s \<longleftrightarrow> replay_recovery_stream L (wl_contents L (ln_wal n)) = Inr s \<and>
     indexed (logged_commits L (wl_contents L (ln_wal n))) s \<and> recovers view s"

definition commit_replayed :: "RecoveryState \<Rightarrow> SingleNodeTxnCommit \<Rightarrow> InMemoryMvcc \<Rightarrow> RecoveryState" where
  "commit_replayed s commit m = s\<lparr>rc_mvcc_by_table := bt_insert (sn_table_id commit) m (rc_mvcc_by_table s),
     rc_transactions_by_id := bt_insert (sn_txn_id commit) commit (rc_transactions_by_id s),
     rc_transactions_by_commit_timestamp :=
       bt_insert (sn_commit_timestamp commit) (sn_txn_id commit) (rc_transactions_by_commit_timestamp s)\<rparr>"

lemma commit_replays:
  assumes ok: "node_ok n" and c: "bt_get (ln_tables n) t = Some c" and r: "recovers n s" and ix: "indexed cs s"
    and chk: "checked_commit c transaction allocated = Inr ts" "\<not> bt_is_empty (tx_writes transaction)"
    and adm: "list_all (\<lambda>old. sn_txn_id old \<noteq> tx_id transaction \<and> sn_commit_timestamp old \<noteq> ts) cs"
    and sch: "\<And>schema. table_by_id (ln_catalog n) t = Some schema \<Longrightarrow>
      validate_commit_against_schema schema (build_commit_record (sc_participant c) transaction ts) = Inr ()"
  defines "commit \<equiv> build_commit_record (sc_participant c) transaction ts"
  obtains s' where "\<And>lsn. apply_record s \<lparr>dr_lsn = lsn, dr_payload = PlSingleNodeTxnCommit commit\<rparr> = Inr s'"
    and "indexed (cs @ [commit]) s'" and "rc_catalog s' = rc_catalog s"
    and "rc_mvcc_by_table s' = bt_insert t (committed_engine (op_storage (sc_participant c)) transaction ts) (rc_mvcc_by_table s)"
proof -
  note okc = node_okD(3) [OF ok c]
  obtain schema where schema: "table_by_id (ln_catalog n) t = Some schema"
    using node_okD(2) [OF ok, of t] c by auto
  have f: "sn_txn_id commit = tx_id transaction" "sn_commit_timestamp commit = ts" "sn_table_id commit = t"
    "sn_start_timestamp commit = tx_start_ts transaction"
    using okc by (simp_all add: commit_def build_commit_record_def)
  have "bt_get (rc_transactions_by_id s) (tx_id transaction) = None"
    "bt_get (rc_transactions_by_commit_timestamp s) ts = None"
    using ix adm by (auto simp: indexed_def list_all_iff)
      (metis (no_types, lifting) imageE not_None_eq)+
  moreover have "bt_get (rc_mvcc_by_table s) t = Some (op_storage (sc_participant c))" "rc_catalog s = ln_catalog n"
    using r c by (simp_all add: recovers_def)
  moreover have "validate_commit_against_schema schema commit = Inr ()"
    using sch [OF schema] by (simp add: commit_def)
  moreover note checked_commit_applies(1) [OF conjunct2 [OF okc] chk]
  ultimately have "apply_transaction_commit s commit =
      Inr (commit_replayed s commit (committed_engine (op_storage (sc_participant c)) transaction ts))"
    using schema replayed_mutations_build [of "sc_participant c" transaction ts]
    by (simp add: apply_transaction_commit_def commit_replayed_def f ensure_def commit_def [symmetric])
  then have "apply_record s \<lparr>dr_lsn = lsn, dr_payload = PlSingleNodeTxnCommit commit\<rparr> =
      Inr (observe_marks (observe_transaction_commit commit)
        (commit_replayed s commit (committed_engine (op_storage (sc_participant c)) transaction ts)))" for lsn
    by (simp add: apply_record_def)
  then show thesis
    by (rule that) (use ix in \<open>simp_all add: indexed_def observe_marks_def commit_replayed_def f\<close>)
qed

lemma tracks_user:
  "tracks L n view s \<longleftrightarrow> replay_recovery_stream L (user_records L (ln_wal n)) = Inr s \<and>
     indexed (logged_commits L (user_records L (ln_wal n))) s \<and> recovers view s"
  by (simp add: tracks_def replay_user_records logged_user_records)

lemma tracks_logged:
  assumes "tracks L n view s" and "logged L (ln_wal n) pl (ln_wal n')"
    and "\<And>lsn. apply_record s \<lparr>dr_lsn = lsn, dr_payload = pl\<rparr> = Inr s'"
    and "indexed (logged_commits L (wl_contents L (ln_wal n)) @ payload_commits pl) s'" and "recovers view' s'"
  shows "tracks L n' view' s'"
  using assms unfolding tracks_user logged_user_records
  by (auto simp: logged_def replay_recovery_stream_def replay_append logged_commits_def logged_payloads_append)

lemma tracks_same:
  assumes "tracks L n n s" and "user_records L (ln_wal n') = user_records L (ln_wal n)" and "ln_catalog n' = ln_catalog n"
    and "\<And>t. map_option (\<lambda>c. op_storage (sc_participant c)) (bt_get (ln_tables n') t) =
      map_option (\<lambda>c. op_storage (sc_participant c)) (bt_get (ln_tables n) t)"
  shows "tracks L n' n' s"
  using assms by (simp add: tracks_user recovers_def)

definition settled :: "('w, 'b) wal_library \<Rightarrow> 'w LocalNode \<Rightarrow> NodeCall \<Rightarrow> bool" where
  "settled L n call \<longleftrightarrow> node_ok (live_call L n call) \<and>
     (\<exists>s. tracks L (live_call L n call) (live_call L n call) s \<or>
        node_stopped (live_call L n call) \<and> tracks L (live_call L n call) (acked_call n call) s)"

lemma node_ok_table:
  assumes "node_ok n" and "bt_get (ln_tables n) t = Some c" and "op_table_id (sc_participant c') = t"
    and "engine_ok (op_storage (sc_participant c'))"
  shows "node_ok (n\<lparr>ln_wal := w, ln_tables := bt_insert t c' (ln_tables n)\<rparr>)"
proof -
  have "table_by_id (ln_catalog n) t \<noteq> None" using node_okD(2) [OF assms(1), of t] assms(2) by simp
  then show ?thesis using assms by (auto simp: node_ok_def)
qed

lemma built_commit_accepted:
  assumes "node_ok n" and "table_by_id (ln_catalog n) t = Some schema"
    and "list_all (\<lambda>(key, mutation). row_write schema key mutation) (bt_iter (tx_writes transaction))"
  shows "validate_commit_against_schema schema (build_commit_record p transaction ts) = Inr ()"
proof (rule row_writes_accepted)
  show "validate_table_schema schema = Inr ()"
    "ts_schema_version schema = sn_schema_version (build_commit_record p transaction ts)"
    using node_okD(4) [OF assms(1,2)] by (simp_all add: build_commit_record_def schema_version_def)
  show "\<exists>mu. w = wal_mutation mu \<and> row_write schema key mu"
    if "bt_get (sn_writes (build_commit_record p transaction ts)) key = Some w" for key w
    using that assms(3) by (fastforce simp: build_commit_record_def bt_get_map_values list_all_iff bt.iter_mem)
qed

lemma logged_commit_tracked:
  assumes ok: "node_ok n" and c: "bt_get (ln_tables n) t = Some c" and tr: "tracks L n n s"
    and adm: "admissible L n (CallCommit t transaction allocated)"
    and chk: "checked_commit c transaction allocated = Inr ts" "\<not> bt_is_empty (tx_writes transaction)"
    and log: "logged L (ln_wal n) (PlSingleNodeTxnCommit (build_commit_record (sc_participant c) transaction ts)) (ln_wal n')"
    and view: "ln_catalog view = ln_catalog n" "ln_tables view = bt_insert t c' (ln_tables n)"
      "op_storage (sc_participant c') = committed_engine (op_storage (sc_participant c)) transaction ts"
  obtains s' where "tracks L n' view s'"
proof -
  note okc = node_okD(3) [OF ok c]
  have al: "allocated = Inr ts" by (rule checked_commit_applies(2) [OF conjunct2 [OF okc] chk])
  have r: "recovers n s" and ix: "indexed (logged_commits L (wl_contents L (ln_wal n))) s"
    using tr by (simp_all add: tracks_def)
  have "table_by_id (ln_catalog n) t \<noteq> None" using node_okD(2) [OF ok, of t] c by simp
  then have adm': "list_all (\<lambda>old. sn_txn_id old \<noteq> tx_id transaction \<and> sn_commit_timestamp old \<noteq> ts)
      (logged_commits L (wl_contents L (ln_wal n)))"
    "table_by_id (ln_catalog n) t = Some schema \<Longrightarrow>
      validate_commit_against_schema schema (build_commit_record (sc_participant c) transaction ts) = Inr ()" for schema
    using adm al built_commit_accepted [OF ok] by auto
  from commit_replays [OF ok c r ix chk adm'] obtain s' where
    s': "\<And>lsn. apply_record s \<lparr>dr_lsn = lsn, dr_payload = PlSingleNodeTxnCommit (build_commit_record (sc_participant c) transaction ts)\<rparr> = Inr s'"
    "indexed (logged_commits L (wl_contents L (ln_wal n)) @ [build_commit_record (sc_participant c) transaction ts]) s'"
    "rc_catalog s' = rc_catalog s"
    "rc_mvcc_by_table s' = bt_insert t (committed_engine (op_storage (sc_participant c)) transaction ts) (rc_mvcc_by_table s)"
    by blast
  have "recovers view s'" using r s'(3,4) view by (simp add: recovers_def)
  then have "tracks L n' view s'"
    by (intro tracks_logged [OF tr log s'(1)]) (use s'(2) in \<open>simp_all add: payload_commits_def\<close>)
  then show thesis by (rule that)
qed

lemma acked_commit:
  assumes "engine_ok (op_storage (sc_participant c))" and "bt_get (ln_tables n) t = Some c"
    and "validate_transaction_metadata transaction = Inr ()"
    and "checked_commit c transaction allocated = Inr ts" and "\<not> bt_is_empty (tx_writes transaction)"
  shows "acked_call n (CallCommit t transaction allocated) =
    n\<lparr>ln_tables := bt_insert t (with_engine c (committed_engine (op_storage (sc_participant c)) transaction ts)) (ln_tables n)\<rparr>"
  using assms(2-5) checked_commit_applies(1) [OF assms(1,4,5)]
  by (simp add: acked_call_def coordinator_commit_def participant_apply_commit_def with_engine_def)

lemma commit_settles:
  assumes L: "wal_contract L" and ok: "node_ok n" and tr: "tracks L n n s"
    and adm: "admissible L n (CallCommit t transaction allocated)"
  shows "settled L n (CallCommit t transaction allocated)"
proof (cases "bt_get (ln_tables n) t")
  case None
  with ok tr show ?thesis by (auto simp: settled_def)
next
  case (Some c)
  note okc = node_okD(3) [OF ok Some]
  obtain r c' w' where cc: "coordinator_commit (append_single_node_commit L) (ln_wal n) c transaction allocated = (r, c', w')"
    by (metis prod_cases3)
  let ?n = "n\<lparr>ln_wal := w', ln_tables := bt_insert t c' (ln_tables n)\<rparr>"
  have n': "live_call L n (CallCommit t transaction allocated) = ?n" using Some cc by simp
  show ?thesis
  proof (cases rule: coordinator_commit_cases [OF conjunct2 [OF okc] cc])
    case 1
    have "node_ok ?n" by (rule node_ok_table [OF ok Some]) (use okc 1 in simp_all)
    moreover have "tracks L ?n ?n s" by (rule tracks_same [OF tr]) (use 1 Some in simp_all)
    ultimately show ?thesis unfolding settled_def n' by blast
  next
    case (2 ts a)
    let ?m = "committed_engine (op_storage (sc_participant c)) transaction ts"
    have st: "op_storage (sc_participant c') = (if is_ok a then ?m else op_storage (sc_participant c))"
      "op_table_id (sc_participant c') = t" "(\<exists>x y. a = Inl (CommitOutcomeUnknown x y)) \<Longrightarrow> sc_recovery_required c'"
      using 2(5) okc by (cases a; auto simp: with_engine_def split: Error.splits)+
    have em: "engine_ok ?m" using checked_commit_applies(1) [OF conjunct2 [OF okc] 2(2,3)] engine_ok_commit okc by blast
    have nok: "node_ok ?n" by (rule node_ok_table [OF ok Some]) (use st okc em in auto)
    consider (kept) "user_records L w' = user_records L (ln_wal n)" "\<not> is_ok a"
      | (ack) "logged L (ln_wal n) (PlSingleNodeTxnCommit (build_commit_record (sc_participant c) transaction ts)) w'" "is_ok a"
      | (unknown) "logged L (ln_wal n) (PlSingleNodeTxnCommit (build_commit_record (sc_participant c) transaction ts)) w'"
        "\<not> is_ok a" "sc_recovery_required c'"
      using append_commit_logged [OF L 2(4)] st(3) by blast
    then have "(\<exists>s'. tracks L ?n ?n s') \<or>
        node_stopped ?n \<and> (\<exists>s'. tracks L ?n (acked_call n (CallCommit t transaction allocated)) s')"
    proof cases
      case kept
      have "tracks L ?n ?n s" by (rule tracks_same [OF tr]) (use kept st Some in simp_all)
      then show ?thesis by blast
    next
      case ack
      obtain s' where "tracks L ?n ?n s'"
        by (rule logged_commit_tracked [OF ok Some tr adm 2(2,3), of ?n ?n c']) (use ack st in simp_all)
      then show ?thesis by blast
    next
      case unknown
      obtain s' where "tracks L ?n (acked_call n (CallCommit t transaction allocated)) s'"
        unfolding acked_commit [OF conjunct2 [OF okc] Some 2(1,2,3)]
        by (rule logged_commit_tracked [OF ok Some tr adm 2(2,3), of ?n
              "n\<lparr>ln_tables := bt_insert t (with_engine c ?m) (ln_tables n)\<rparr>" "with_engine c ?m"])
          (use unknown in \<open>simp_all add: with_engine_def\<close>)
      with unknown show ?thesis by (auto simp: node_stopped_def)
    qed
    with nok show ?thesis unfolding settled_def n' by blast
  qed
qed

section \<open>Table creation and its replay\<close>

lemma create_table_cases:
  assumes ok: "catalog_ok (dc_catalog d)"
    and "create_table append_update d name columns pk allocated = (r, d')"
  obtains (refused) e where "r = Inl e" "d' = d"
  | (appended) t ts a log where "checked_creation d name columns pk allocated = Inr (t, ts)"
    "installable (dc_catalog d) t" "ts \<noteq> 0" "append_update (dc_durable_log d) (catalog_record t ts) = (a, log)"
    "dc_durable_log d' = log" "dc_recovery_required d' = (dc_recovery_required d \<or> (\<exists>x y. a = Inl (CatalogOutcomeUnknown x y)))"
    "case a of Inl _ \<Rightarrow> \<not> is_ok r \<and> dc_catalog d' = dc_catalog d
     | Inr ext \<Rightarrow> dc_catalog d' = installed (dc_catalog d) t \<and>
         r = Inr \<lparr>co_schema = t, co_update_timestamp = ts, co_wal_extent = ext\<rparr>"
proof (cases "checked_creation d name columns pk allocated")
  case (Inl e)
  with assms(2) that(1) show thesis by (auto simp: create_table_def)
next
  case (Inr p)
  obtain t ts where p: "p = (t, ts)" by force
  with Inr have pre: "prepare_table (dc_catalog d) name columns pk = Inr t" "ts \<noteq> 0"
    by (auto simp: checked_creation_def result_simps)
  note new = prepare_table_Inr(1,2) [OF ok pre(1)]
  note pub = publish_prepared_table_eq [OF new]
  obtain a log where a: "append_update (dc_durable_log d) (catalog_record t ts) = (a, log)" by force
  have "dc_durable_log d' = log \<and>
      dc_recovery_required d' = (dc_recovery_required d \<or> (\<exists>x y. a = Inl (CatalogOutcomeUnknown x y))) \<and>
      (case a of Inl _ \<Rightarrow> \<not> is_ok r \<and> dc_catalog d' = dc_catalog d
       | Inr ext \<Rightarrow> dc_catalog d' = installed (dc_catalog d) t \<and>
           r = Inr \<lparr>co_schema = t, co_update_timestamp = ts, co_wal_extent = ext\<rparr>)"
    using assms(2) Inr p a pub by (cases a) (auto simp: create_table_def split: Error.splits)
  with that(2) Inr p new(1) pre(2) a show thesis by blast
qed

text \<open>The record of a creation replays on the catalog it was prepared for.\<close>

definition table_created :: "RecoveryState \<Rightarrow> TableSchema \<Rightarrow> RecoveryState" where
  "table_created s t = s\<lparr>rc_catalog := installed (rc_catalog s) t,
     rc_mvcc_by_table := bt_insert (ts_id t) InMemoryMvcc_new (rc_mvcc_by_table s)\<rparr>"

lemma creation_replays:
  assumes "installable (rc_catalog s) t" and "bt_get (rc_mvcc_by_table s) (ts_id t) = None"
  shows "apply_record s \<lparr>dr_lsn = lsn, dr_payload = PlCatalogUpdate (update_of (catalog_record t ts))\<rparr> =
    Inr (observe_marks (observe_catalog_update (update_of (catalog_record t ts))) (table_created s t))"
  using install_definition_new [OF assms(1)] assms(2)
  by (simp add: apply_record_def apply_catalog_update_def update_of_def catalog_record_def table_definition_def
      table_created_def ensure_def)

definition node_created :: "'w LocalNode \<Rightarrow> TableSchema \<Rightarrow> 'w LocalNode" where
  "node_created n t = n\<lparr>ln_catalog := installed (ln_catalog n) t,
     ln_tables := bt_insert (ts_id t) \<lparr>sc_participant = \<lparr>op_table_id = ts_id t, op_storage = InMemoryMvcc_new\<rparr>,
       sc_recovery_required = False\<rparr> (ln_tables n)\<rparr>"

lemma checked_creation_version: "checked_creation d name columns pk allocated = Inr (t, ts) \<Longrightarrow> ts_schema_version t = 1"
  by (auto simp: checked_creation_def prepare_table_def Let_def result_simps)

lemma node_created_ok:
  assumes "node_ok n" and "installable (ln_catalog n) t" and "ts_schema_version t = 1"
  shows "node_ok (node_created n t)"
  using installed_ok [OF node_okD(1) [OF assms(1)] assms(2)] assms(1,3) engine_ok_new
  by (auto simp: node_ok_def node_created_def table_by_id_def installed_def)

lemma logged_creation_tracked:
  assumes ok: "node_ok n" and tr: "tracks L n n s" and new: "installable (ln_catalog n) t"
    and log: "logged L (ln_wal n) (PlCatalogUpdate (update_of (catalog_record t ts))) (ln_wal n')"
    and view: "ln_catalog view = ln_catalog (node_created n t)" "ln_tables view = ln_tables (node_created n t)"
  obtains s' where "tracks L n' view s'"
proof -
  have r: "recovers n s" using tr by (simp add: tracks_def)
  have "table_by_id (ln_catalog n) (ts_id t) = None" using new by (simp add: installable_def table_by_id_def)
  then have "bt_get (rc_mvcc_by_table s) (ts_id t) = None" using r node_okD(2) [OF ok, of "ts_id t"] by (simp add: recovers_def)
  moreover have "installable (rc_catalog s) t" using new r by (simp add: recovers_def)
  ultimately have "tracks L n' view (observe_marks (observe_catalog_update (update_of (catalog_record t ts))) (table_created s t))"
    using tr r view
    by (intro tracks_logged [OF tr log creation_replays])
      (simp_all add: payload_commits_def tracks_def indexed_def recovers_def observe_marks_def table_created_def node_created_def)
  then show thesis by (rule that)
qed

lemma acked_creation:
  assumes ok: "node_ok n" and chk: "checked_creation (node_writer n) name columns pk allocated = Inr (t, ts)"
  shows "ln_catalog (acked_call n (CallCreate name columns pk allocated)) = ln_catalog (node_created n t)"
    and "ln_tables (acked_call n (CallCreate name columns pk allocated)) = ln_tables (node_created n t)"
proof -
  have "prepare_table (ln_catalog n) name columns pk = Inr t"
    using chk by (auto simp: checked_creation_def node_writer_def result_simps)
  note pub = publish_prepared_table_eq [OF prepare_table_Inr(1,2) [OF node_okD(1) [OF ok] this]]
  show "ln_catalog (acked_call n (CallCreate name columns pk allocated)) = ln_catalog (node_created n t)"
    and "ln_tables (acked_call n (CallCreate name columns pk allocated)) = ln_tables (node_created n t)"
    using chk pub by (simp_all add: acked_call_def create_table_def node_created_def node_writer_def)
qed

lemma create_settles:
  assumes L: "wal_contract L" and ok: "node_ok n" and tr: "tracks L n n s"
  shows "settled L n (CallCreate name columns pk allocated)"
proof -
  obtain r d' where cr: "create_table (append_catalog_update L) (node_writer n) name columns pk allocated = (r, d')" by force
  define n' where "n' = live_call L n (CallCreate name columns pk allocated)"
  have n': "ln_wal n' = dc_durable_log d'" "ln_catalog n' = dc_catalog d'" "ln_catalog_stopped n' = dc_recovery_required d'"
    "\<not> is_ok r \<Longrightarrow> ln_tables n' = ln_tables n"
    "r = Inr oc \<Longrightarrow> ln_tables n' = ln_tables (node_created n (co_schema oc))" for oc
    using cr by (auto simp: n'_def node_created_def is_ok_def split: sum.splits)
  have w: "dc_catalog (node_writer n) = ln_catalog n" "dc_durable_log (node_writer n) = ln_wal n" by (simp_all add: node_writer_def)
  have same: "node_ok n' \<and> tracks L n' n' s" if "\<not> is_ok r" "dc_catalog d' = ln_catalog n" "user_records L (dc_durable_log d') = user_records L (ln_wal n)"
    using that n' tracks_same [OF tr, of n'] ok by (simp add: node_ok_def)
  have "node_ok n' \<and> (\<exists>s'. tracks L n' n' s' \<or>
      node_stopped n' \<and> tracks L n' (acked_call n (CallCreate name columns pk allocated)) s')"
  proof (cases rule: create_table_cases [OF node_okD(1) [OF ok, folded w(1)] cr])
    case 1
    with same w show ?thesis by auto
  next
    case (2 t ts a log)
    note lg = append_catalog_logged [OF L 2(4)]
    show ?thesis
    proof (cases a)
      case (Inr ext)
      with lg 2 w have log: "logged L (ln_wal n) (PlCatalogUpdate (update_of (catalog_record t ts))) (ln_wal n')" by (simp add: n')
      have v: "ln_catalog n' = ln_catalog (node_created n t)" "ln_tables n' = ln_tables (node_created n t)"
        using 2 Inr n' w by (simp_all add: node_created_def)
      obtain s' where "tracks L n' n' s'" by (rule logged_creation_tracked [OF ok tr 2(2) [unfolded w] log v])
      with node_created_ok [OF ok 2(2) [unfolded w] checked_creation_version [OF 2(1)]] v show ?thesis by (auto simp: node_ok_def)
    next
      case (Inl e)
      show ?thesis
      proof (cases "user_records L (dc_durable_log d') = user_records L (ln_wal n)")
        case True
        with same 2 Inl w show ?thesis by auto
      next
        case False
        with lg 2 w Inl have log: "logged L (ln_wal n) (PlCatalogUpdate (update_of (catalog_record t ts))) (ln_wal n')"
          and stop: "ln_catalog_stopped n'" by (auto simp: n')
        obtain s' where "tracks L n' (acked_call n (CallCreate name columns pk allocated)) s'"
          by (rule logged_creation_tracked [OF ok tr 2(2) [unfolded w] log acked_creation [OF ok 2(1)]])
        with stop 2 Inl n' w ok show ?thesis by (auto simp: node_stopped_def node_ok_def)
      qed
    qed
  qed
  then show ?thesis by (auto simp: settled_def n'_def)
qed

lemma call_settles:
  assumes "wal_contract L" and "node_ok n" and "tracks L n n s" and "admissible L n call"
  shows "settled L n call"
  using assms by (cases call) (metis create_settles commit_settles)+

text \<open>While nothing has stopped, the log replays to the live node.\<close>

lemma run_tracks:
  assumes "wal_contract L" and "user_records L w = []" and "node_run L w n"
  shows "node_ok n \<and> (\<not> node_stopped n \<longrightarrow> (\<exists>s. tracks L n n s))"
  using assms(3)
proof induction
  case run_start
  have "tracks L (LocalNode_new w) (LocalNode_new w) RecoveryState_new"
    using assms(2) by (simp add: tracks_user logged_commits_def replay_recovery_stream_def LocalNode_new_def recovers_def RecoveryState_new_def indexed_def)
  moreover have "node_ok (LocalNode_new w)"
    using catalog_ok_new by (simp add: node_ok_def LocalNode_new_def table_by_id_def MemoryCatalog_new_def)
  ultimately show ?case by blast
next
  case (run_call n call)
  then show ?case using call_settles [OF assms(1)] unfolding settled_def by blast
qed

text \<open>
  A log for the witness: a fresh one already holds a segment marker, its first append is
  acknowledged and followed by a segment seal, and later appends have an unknown outcome with the
  record on disk.
\<close>

datatype demo_payload =
    DpCommit proto_SingleNodeTxnCommit
  | DpCatalog proto_CatalogUpdate
  | DpPointer proto_SnapshotPointer
  | DpMarker proto_CheckpointMarker
  | DpInternal

type_synonym demo_records = "(Lsn \<times> u16 \<times> demo_payload) list"

definition demo_fresh :: demo_records where
  "demo_fresh = [(1, 2, DpInternal)]"

definition demo_wal :: "(demo_records, demo_payload) wal_library" where
  "demo_wal =
     \<lparr>wl_user_min = 1000, wl_is_internal = (\<lambda>t. t < 1000),
      wl_append_and_sync = (\<lambda>w t b.
        if length w = 1 then (Inr \<lparr>ex_start_lsn = 2, ex_end_lsn = 3\<rparr>, w @ [(2, t, b), (3, 6, DpInternal)])
        else (Inl (OutcomeUnknown 4 5), w @ [(4, t, b)])),
      wl_contents = (\<lambda>w. w),
      wl_encode_commit = DpCommit, wl_decode_commit = (\<lambda>b. case b of DpCommit p \<Rightarrow> Some p | _ \<Rightarrow> None),
      wl_encode_catalog = DpCatalog, wl_decode_catalog = (\<lambda>b. case b of DpCatalog p \<Rightarrow> Some p | _ \<Rightarrow> None),
      wl_encode_pointer = DpPointer, wl_decode_pointer = (\<lambda>b. case b of DpPointer p \<Rightarrow> Some p | _ \<Rightarrow> None),
      wl_encode_marker = DpMarker, wl_decode_marker = (\<lambda>b. case b of DpMarker p \<Rightarrow> Some p | _ \<Rightarrow> None)\<rparr>"

lemma demo_wal_contract: "wal_contract demo_wal" "user_records demo_wal demo_fresh = []"
  by (auto simp: wal_contract_def demo_wal_def user_records_def demo_fresh_def split: if_splits)

definition demo_schema :: TableSchema where
  "demo_schema = \<lparr>ts_id = 1, ts_name = [0x74], ts_columns = [\<lparr>cs_id = 1, cs_name = [0x63], cs_ty = DtBool, cs_nullable = False\<rparr>],
     ts_primary_key_column_ids = [1], ts_schema_version = 1, ts_tablet_count = 1\<rparr>"

definition demo_create :: NodeCall where
  "demo_create = CallCreate (ts_name demo_schema) (ts_columns demo_schema) (ts_primary_key_column_ids demo_schema) (Inr 3)"

definition demo_commit :: NodeCall where
  "demo_commit = CallCommit 1 demo_tx (Inr 8)"

definition demo_coordinator :: SingleNodeCommitCoordinator where
  "demo_coordinator = \<lparr>sc_participant = \<lparr>op_table_id = 1, op_storage = InMemoryMvcc_new\<rparr>, sc_recovery_required = False\<rparr>"

definition demo_node :: "demo_records LocalNode" where
  "demo_node = live_call demo_wal (LocalNode_new demo_fresh) demo_create"

lemma demo_node_fields:
  "ln_tables demo_node = bt_insert 1 demo_coordinator bt_new" "\<not> ln_catalog_stopped demo_node"
  "table_by_id (ln_catalog demo_node) 1 = Some demo_schema"
  "logged_commits demo_wal (wl_contents demo_wal (ln_wal demo_node)) = []"
  by code_simp+

lemma demo_node_runs: "node_run demo_wal demo_fresh demo_node"
proof -
  have "\<not> node_stopped (LocalNode_new demo_fresh)" by (simp add: node_stopped_def LocalNode_new_def)
  then show ?thesis
    unfolding demo_node_def using run_call [OF run_start, of demo_fresh demo_wal demo_create] by (simp add: demo_create_def)
qed

lemma demo_node_live: "\<not> node_stopped demo_node"
  by (auto simp: node_stopped_def demo_node_fields demo_coordinator_def split: if_splits)

lemma demo_row_write: "row_write demo_schema demo_key (PutMutation demo_row)"
proof -
  have "schema_row demo_schema \<lparr>row_values = [VBool True]\<rparr>" by code_simp
  moreover have "and_then (make_row_key (ts_id demo_schema) (row_primary_key demo_schema \<lparr>row_values = [VBool True]\<rparr>))
      encode_row_key = Inr demo_key" by code_simp
  moreover have "encode_row \<lparr>row_values = [VBool True]\<rparr> = Inr demo_row" by code_simp
  moreover have "length demo_key \<le> usize_max" "length demo_row \<le> usize_max"
    by (simp_all add: demo_key_def demo_row_def usize_max_def)
  ultimately show ?thesis unfolding row_write_def by auto
qed

lemma demo_commit_admissible: "admissible demo_wal demo_node demo_commit"
  using demo_node_fields demo_row_write
  by (auto simp: demo_commit_def demo_tx_def bt_iter_single)

lemma demo_commit_stops: "node_stopped (live_call demo_wal demo_node demo_commit)"
proof -
  have "map_option sc_recovery_required (bt_get (ln_tables (live_call demo_wal demo_node demo_commit)) 1) = Some True"
    by code_simp
  then show ?thesis by (auto simp: node_stopped_def)
qed

text \<open>
  C4. Crash recovery is exact. Take a node that started on a log without user records and ran any
  sequence of table creations and transaction commits, and let it make one more call, whatever the
  log answers to it. If the process stops now, replaying the log succeeds and rebuilds the catalog
  and every table's MVCC engine exactly as they were in memory; only a call whose log append had
  an unknown outcome may come back instead as if it had succeeded, and that call had stopped its
  writer. The side conditions are: the log behaves as documented (\<open>wal_contract\<close>: an
  acknowledged append leaves its record after the earlier ones, a rejected append leaves none,
  internal records may appear anywhere, and the message encoders round-trip), every commit has a
  transaction identity and a commit timestamp that no logged commit has, and its writes are rows
  of the table (\<open>row_write\<close>: typed values under the key they encode to).
\<close>

theorem crash_recovery_exact:
  assumes "wal_contract L" and "user_records L w = []" and "node_run L w n" and "\<not> node_stopped n"
    and "admissible L n call"
  shows "\<exists>s. replay_recovery_stream L (wl_contents L (ln_wal (live_call L n call))) = Inr s \<and>
    (recovers (live_call L n call) s \<or>
     node_stopped (live_call L n call) \<and> recovers (acked_call n call) s)"
  using run_tracks [OF assms(1-3)] assms(4) call_settles [OF assms(1) _ _ assms(5)]
  unfolding settled_def tracks_def by blast

theorem crash_recovery_exact_witness:
  "node_stopped (live_call demo_wal demo_node demo_commit) \<and>
   (\<exists>s. replay_recovery_stream demo_wal (wl_contents demo_wal (ln_wal (live_call demo_wal demo_node demo_commit))) = Inr s \<and>
     (recovers (live_call demo_wal demo_node demo_commit) s \<or>
      node_stopped (live_call demo_wal demo_node demo_commit) \<and> recovers (acked_call demo_node demo_commit) s))"
  using crash_recovery_exact [OF demo_wal_contract demo_node_runs demo_node_live demo_commit_admissible] demo_commit_stops
  by simp

section \<open>The recovered allocators\<close>

definition engine_below :: "Timestamp \<Rightarrow> InMemoryMvcc \<Rightarrow> bool" where
  "engine_below ts m \<longleftrightarrow> list_all (\<lambda>ws. list_all (\<lambda>t. t < ts) (bt_keys ws)) (bt_values (m_writes m))"

lemma engine_below_wr: "engine_below ts m \<longleftrightarrow> (\<forall>k t w. wr m k t = Some w \<longrightarrow> t < ts)"
  by (simp add: engine_below_def list_all_iff Ball_def bt_values_mem wr_def get2_Some dom_def) blast

text \<open>What the marks must reach for one payload of the log.\<close>

fun covers_payload :: "RecoveryHighWaterMarks \<Rightarrow> RecoveryPayload \<Rightarrow> bool" where
  "covers_payload h (PlCatalogUpdate u) \<longleftrightarrow>
     cu_table_id u \<le> hw_max_table_id h \<and> cu_update_timestamp u \<le> hw_max_timestamp h"
| "covers_payload h (PlSingleNodeTxnCommit c) \<longleftrightarrow>
     sn_txn_id c \<le> hw_max_transaction_id h \<and> sn_start_timestamp c \<le> hw_max_timestamp h \<and>
     sn_commit_timestamp c \<le> hw_max_timestamp h \<and> sn_table_id c \<le> hw_max_table_id h"
| "covers_payload h (PlSnapshotPointer p) \<longleftrightarrow>
     sp_snapshot_id p \<le> hw_max_snapshot_id h \<and> sp_snapshot_timestamp p \<le> hw_max_timestamp h \<and>
     list_all (\<lambda>i. i \<le> hw_max_table_id h) (bt_keys (sp_table_ids p))"
| "covers_payload h (PlCheckpointMarker k) \<longleftrightarrow>
     km_snapshot_id k \<le> hw_max_snapshot_id h \<and> km_snapshot_timestamp k \<le> hw_max_timestamp h"

definition covers_state :: "RecoveryState \<Rightarrow> bool" where
  "covers_state s \<longleftrightarrow>
     (\<forall>i t. bt_get (mc_tables_by_id (rc_catalog s)) i = Some t \<longrightarrow> i \<le> hw_max_table_id (rc_high_water_marks s)) \<and>
     (\<forall>table m k t w. bt_get (rc_mvcc_by_table s) table = Some m \<longrightarrow> wr m k t = Some w \<longrightarrow>
        t \<le> hw_max_timestamp (rc_high_water_marks s))"

definition marks_le :: "RecoveryHighWaterMarks \<Rightarrow> RecoveryHighWaterMarks \<Rightarrow> bool" where
  "marks_le h h' \<longleftrightarrow> hw_max_transaction_id h \<le> hw_max_transaction_id h' \<and> hw_max_timestamp h \<le> hw_max_timestamp h' \<and>
     hw_max_table_id h \<le> hw_max_table_id h' \<and> hw_max_snapshot_id h \<le> hw_max_snapshot_id h'"

lemma marks_le_refl [simp]: "marks_le h h"
  by (simp add: marks_le_def)

lemma marks_le_trans: "marks_le a b \<Longrightarrow> marks_le b c \<Longrightarrow> marks_le a c"
  unfolding marks_le_def by (meson order_trans)

lemma covers_mono: "covers_payload h pl \<Longrightarrow> marks_le h h' \<Longrightarrow> covers_payload h' pl"
  by (cases pl) (auto simp: marks_le_def list_all_iff intro: order_trans)

lemma observe_le:
  "marks_le h (observe_timestamp ts h)" "marks_le h (observe_table_id table h)"
  "marks_le h (h\<lparr>hw_max_transaction_id := max (hw_max_transaction_id h) i\<rparr>)"
  "marks_le h (h\<lparr>hw_max_snapshot_id := max (hw_max_snapshot_id h) j\<rparr>)"
  by (simp_all add: marks_le_def observe_timestamp_def observe_table_id_def)

lemma observe_tables_le: "marks_le h h' \<Longrightarrow> marks_le h (fold observe_table_id ts h')"
  by (induction ts arbitrary: h') (simp_all add: marks_le_trans [OF _ observe_le(2)])

lemma observe_records_le:
  "marks_le h (observe_catalog_update u h)" "marks_le h (observe_transaction_commit c h)"
  "marks_le h (observe_snapshot_pointer p h)" "marks_le h (observe_checkpoint_marker k h)"
proof -
  note up = observe_le(1,2) [THEN marks_le_trans [rotated]]
  show "marks_le h (observe_catalog_update u h)" "marks_le h (observe_transaction_commit c h)"
    "marks_le h (observe_snapshot_pointer p h)" "marks_le h (observe_checkpoint_marker k h)"
    unfolding observe_catalog_update_def observe_transaction_commit_def observe_snapshot_pointer_def
      observe_checkpoint_marker_def
    by (intro up observe_tables_le observe_le)+
qed

text \<open>Each observation reaches its own payload.\<close>

lemma observe_tables_fields:
  "hw_max_timestamp (fold observe_table_id ts h) = hw_max_timestamp h"
  "hw_max_snapshot_id (fold observe_table_id ts h) = hw_max_snapshot_id h"
  "i \<in> set ts \<Longrightarrow> i \<le> hw_max_table_id (fold observe_table_id ts h)"
proof -
  show "hw_max_timestamp (fold observe_table_id ts h) = hw_max_timestamp h"
    "hw_max_snapshot_id (fold observe_table_id ts h) = hw_max_snapshot_id h"
    by (induction ts arbitrary: h) (simp_all add: observe_table_id_def)
  show "i \<in> set ts \<Longrightarrow> i \<le> hw_max_table_id (fold observe_table_id ts h)"
  proof (induction ts arbitrary: h)
    case (Cons t ts)
    have "t \<le> hw_max_table_id (observe_table_id t h)" by (simp add: observe_table_id_def)
    moreover have "marks_le (observe_table_id t h) (fold observe_table_id ts (observe_table_id t h))"
      by (rule observe_tables_le) simp
    ultimately show ?case using Cons by (auto simp: marks_le_def)
  qed simp
qed

lemma observed_payload:
  "covers_payload (observe_catalog_update u h) (PlCatalogUpdate u)"
  "covers_payload (observe_transaction_commit c h) (PlSingleNodeTxnCommit c)"
  "covers_payload (observe_snapshot_pointer p h) (PlSnapshotPointer p)"
  "covers_payload (observe_checkpoint_marker k h) (PlCheckpointMarker k)"
  by (auto simp: observe_catalog_update_def observe_transaction_commit_def observe_snapshot_pointer_def
      observe_checkpoint_marker_def observe_timestamp_def observe_table_id_def observe_tables_fields
      list_all_iff le_max_iff_disj)

lemma published_times:
  "wr (fold (publish_mutation txn s c) kvs m) k t = Some w \<Longrightarrow> t = c \<or> (\<exists>w. wr m k t = Some w)"
proof (induction kvs arbitrary: m)
  case (Cons kv kvs)
  obtain k' mu where kv: "kv = (k', mu)" by force
  from Cons.prems Cons.IH [of "publish_mutation txn s c kv m"] show ?case
    by (cases mu) (auto simp: kv publish_mutation_view split: if_splits)
qed auto

lemma commit_batch_times:
  assumes "commit_batch m txn s c mus = (r, m')" and "wr m' k t = Some w"
  shows "t = c \<or> (\<exists>w. wr m k t = Some w)"
  using assms published_times by (cases rule: commit_batch_cases) auto

lemma install_definition_tables:
  assumes "install_definition c d = (Inr schema, c')" and "bt_get (mc_tables_by_id c') i = Some t"
  shows "i = ts_id schema \<or> bt_get (mc_tables_by_id c) i = Some t"
  using assms by (auto simp: install_definition_def install_table_def split: sum.splits option.splits if_splits)

lemma apply_catalog_update_tables:
  assumes "apply_catalog_update s u = Inr s'"
  shows "rc_high_water_marks s' = rc_high_water_marks s"
    and "bt_get (mc_tables_by_id (rc_catalog s')) i = Some t \<Longrightarrow>
      i = cu_table_id u \<or> bt_get (mc_tables_by_id (rc_catalog s)) i = Some t"
    and "bt_get (rc_mvcc_by_table s') j = Some m \<Longrightarrow> m = InMemoryMvcc_new \<or> bt_get (rc_mvcc_by_table s) j = Some m"
proof -
  obtain r c where rc: "install_definition (rc_catalog s) (table_definition u) = (r, c)" by force
  with assms obtain schema where r: "r = Inr schema" by (cases r) (simp_all add: apply_catalog_update_def)
  with assms rc have id: "ts_id schema = cu_table_id u"
    and s': "s' = s\<lparr>rc_catalog := c, rc_mvcc_by_table :=
        (case bt_get (rc_mvcc_by_table s) (cu_table_id u) of Some _ \<Rightarrow> rc_mvcc_by_table s
         | None \<Rightarrow> bt_insert (cu_table_id u) InMemoryMvcc_new (rc_mvcc_by_table s))\<rparr>"
    by (simp_all add: apply_catalog_update_def and_then_eq_Inr ensure_eq_Inr)
  show "rc_high_water_marks s' = rc_high_water_marks s" by (simp add: s')
  show "bt_get (mc_tables_by_id (rc_catalog s')) i = Some t \<Longrightarrow>
      i = cu_table_id u \<or> bt_get (mc_tables_by_id (rc_catalog s)) i = Some t"
    using install_definition_tables [OF rc [unfolded r]] id by (simp add: s')
  show "bt_get (rc_mvcc_by_table s') j = Some m \<Longrightarrow> m = InMemoryMvcc_new \<or> bt_get (rc_mvcc_by_table s) j = Some m"
    by (simp add: s' split: option.splits if_splits)
qed

lemma covers_stateD:
  assumes "covers_state s"
  shows "bt_get (mc_tables_by_id (rc_catalog s)) i = Some t \<Longrightarrow> i \<le> hw_max_table_id (rc_high_water_marks s)"
    and "bt_get (rc_mvcc_by_table s) table = Some m \<Longrightarrow> wr m k ts = Some w \<Longrightarrow> ts \<le> hw_max_timestamp (rc_high_water_marks s)"
  using assms unfolding covers_state_def by blast+

text \<open>One more record keeps the state covered when its marks grow and whatever it adds is covered.\<close>

lemma covers_grows:
  assumes "covers_state s" and le: "marks_le (rc_high_water_marks s) (rc_high_water_marks s')"
    and "\<And>i t. bt_get (mc_tables_by_id (rc_catalog s')) i = Some t \<Longrightarrow>
      i \<le> hw_max_table_id (rc_high_water_marks s') \<or> bt_get (mc_tables_by_id (rc_catalog s)) i = Some t"
    and "\<And>table m k ts w. bt_get (rc_mvcc_by_table s') table = Some m \<Longrightarrow> wr m k ts = Some w \<Longrightarrow>
      ts \<le> hw_max_timestamp (rc_high_water_marks s') \<or> (\<exists>m w. bt_get (rc_mvcc_by_table s) table = Some m \<and> wr m k ts = Some w)"
  shows "covers_state s'"
  unfolding covers_state_def
proof (intro conjI allI impI)
  fix i t
  assume "bt_get (mc_tables_by_id (rc_catalog s')) i = Some t"
  from assms(3) [OF this] show "i \<le> hw_max_table_id (rc_high_water_marks s')"
    using covers_stateD(1) [OF assms(1)] le unfolding marks_le_def by (meson order_trans)
next
  fix table m k ts w
  assume "bt_get (rc_mvcc_by_table s') table = Some m" "wr m k ts = Some w"
  from assms(4) [OF this] show "ts \<le> hw_max_timestamp (rc_high_water_marks s')"
    using covers_stateD(2) [OF assms(1)] le unfolding marks_le_def by (meson order_trans)
qed

lemma apply_transaction_commit_tables:
  assumes "apply_transaction_commit s c = Inr s'"
  shows "rc_high_water_marks s' = rc_high_water_marks s" and "rc_catalog s' = rc_catalog s"
    and "bt_get (rc_mvcc_by_table s') table = Some m \<Longrightarrow> wr m k ts = Some w \<Longrightarrow>
      ts = sn_commit_timestamp c \<or> (\<exists>m w. bt_get (rc_mvcc_by_table s) table = Some m \<and> wr m k ts = Some w)"
proof -
  have "s' = s \<or> (\<exists>st r st'. bt_get (rc_mvcc_by_table s) (sn_table_id c) = Some st \<and>
      commit_batch st (sn_txn_id c) (sn_start_timestamp c) (sn_commit_timestamp c) (replayed_mutations (sn_writes c)) = (r, st') \<and>
      s' = commit_replayed s c st')"
    using assms by (auto simp: apply_transaction_commit_def commit_replayed_def result_simps ok_or_def
        split: option.splits if_splits prod.splits sum.splits)
  then show "rc_high_water_marks s' = rc_high_water_marks s" "rc_catalog s' = rc_catalog s"
    "bt_get (rc_mvcc_by_table s') table = Some m \<Longrightarrow> wr m k ts = Some w \<Longrightarrow>
      ts = sn_commit_timestamp c \<or> (\<exists>m w. bt_get (rc_mvcc_by_table s) table = Some m \<and> wr m k ts = Some w)"
    by (auto simp: commit_replayed_def split: if_splits) (metis commit_batch_times option.distinct(1))
qed

lemma catalog_update_covers:
  assumes "covers_state s" and "apply_catalog_update s u = Inr s1"
  defines "s' \<equiv> observe_marks (observe_catalog_update u) s1"
  shows "covers_state s' \<and> marks_le (rc_high_water_marks s) (rc_high_water_marks s')"
proof -
  note ap = apply_catalog_update_tables [OF assms(2)]
  have tid: "cu_table_id u \<le> hw_max_table_id (rc_high_water_marks s')"
    using observed_payload(1) [of u] by (simp add: s'_def observe_marks_def)
  have le: "marks_le (rc_high_water_marks s) (rc_high_water_marks s')"
    using observe_records_le(1) by (simp add: s'_def observe_marks_def ap(1))
  have "covers_state s'"
  proof (rule covers_grows [OF assms(1) le])
    fix i t
    assume "bt_get (mc_tables_by_id (rc_catalog s')) i = Some t"
    then have "bt_get (mc_tables_by_id (rc_catalog s1)) i = Some t" by (simp add: s'_def observe_marks_def)
    from ap(2) [OF this] tid show "i \<le> hw_max_table_id (rc_high_water_marks s') \<or> bt_get (mc_tables_by_id (rc_catalog s)) i = Some t"
      by blast
  next
    fix table m k ts w
    assume m: "bt_get (rc_mvcc_by_table s') table = Some m" "wr m k ts = Some w"
    then have "bt_get (rc_mvcc_by_table s1) table = Some m" by (simp add: s'_def observe_marks_def)
    moreover have "m \<noteq> InMemoryMvcc_new" using m(2) by (auto simp: wr_def InMemoryMvcc_new_def)
    ultimately show "ts \<le> hw_max_timestamp (rc_high_water_marks s') \<or>
        (\<exists>m w. bt_get (rc_mvcc_by_table s) table = Some m \<and> wr m k ts = Some w)"
      using ap(3) m(2) by blast
  qed
  with le show ?thesis by blast
qed

lemma transaction_commit_covers:
  assumes "covers_state s" and "apply_transaction_commit s c = Inr s1"
  defines "s' \<equiv> observe_marks (observe_transaction_commit c) s1"
  shows "covers_state s' \<and> marks_le (rc_high_water_marks s) (rc_high_water_marks s')"
proof -
  note ap = apply_transaction_commit_tables [OF assms(2)]
  have cov: "sn_commit_timestamp c \<le> hw_max_timestamp (rc_high_water_marks s')"
    using observed_payload(2) [of c] by (simp add: s'_def observe_marks_def)
  have le: "marks_le (rc_high_water_marks s) (rc_high_water_marks s')"
    using observe_records_le(2) by (simp add: s'_def observe_marks_def ap(1))
  have "covers_state s'"
  proof (rule covers_grows [OF assms(1) le])
    fix table m k ts w
    assume m: "bt_get (rc_mvcc_by_table s') table = Some m" "wr m k ts = Some w"
    then have "bt_get (rc_mvcc_by_table s1) table = Some m" by (simp add: s'_def observe_marks_def)
    from ap(3) [OF this m(2)] cov
    show "ts \<le> hw_max_timestamp (rc_high_water_marks s') \<or>
        (\<exists>m w. bt_get (rc_mvcc_by_table s) table = Some m \<and> wr m k ts = Some w)"
      by blast
  qed (simp add: s'_def observe_marks_def ap(2))
  with le show ?thesis by blast
qed

lemma observe_marks_covers:
  assumes "covers_state s" and "marks_le (rc_high_water_marks s) (f (rc_high_water_marks s))"
  shows "covers_state (observe_marks f s) \<and> marks_le (rc_high_water_marks s) (rc_high_water_marks (observe_marks f s))"
proof -
  have le: "marks_le (rc_high_water_marks s) (rc_high_water_marks (observe_marks f s))"
    using assms(2) by (simp add: observe_marks_def)
  have "covers_state (observe_marks f s)"
    by (rule covers_grows [OF assms(1) le]) (auto simp: observe_marks_def)
  with le show ?thesis by blast
qed

lemma apply_record_covers:
  assumes "covers_state s" and "apply_record s r = Inr s'"
  shows "covers_state s' \<and> marks_le (rc_high_water_marks s) (rc_high_water_marks s') \<and>
    covers_payload (rc_high_water_marks s') (dr_payload r)"
proof (cases "dr_payload r")
  case (PlCatalogUpdate u)
  with assms catalog_update_covers [OF assms(1)] observed_payload(1) show ?thesis
    by (auto simp: apply_record_def and_then_eq_Inr observe_marks_def)
next
  case (PlSingleNodeTxnCommit c)
  with assms transaction_commit_covers [OF assms(1)] observed_payload(2) show ?thesis
    by (auto simp: apply_record_def and_then_eq_Inr observe_marks_def)
next
  case (PlSnapshotPointer p)
  with assms(2) observe_marks_covers [OF assms(1), of "observe_snapshot_pointer p"] observe_records_le(3)
    observed_payload(3) show ?thesis
    by (auto simp: apply_record_def observe_marks_def)
next
  case (PlCheckpointMarker p)
  with assms(2) observe_marks_covers [OF assms(1), of "observe_checkpoint_marker p"] observe_records_le(4)
    observed_payload(4) show ?thesis
    by (auto simp: apply_record_def observe_marks_def)
qed

lemma replay_covers:
  assumes "covers_state s" and "replay_recovery_stream_from_state L stream s = Inr s'"
  shows "covers_state s' \<and> marks_le (rc_high_water_marks s) (rc_high_water_marks s') \<and>
    list_all (covers_payload (rc_high_water_marks s')) (logged_payloads L stream)"
  using assms
proof (induction stream arbitrary: s)
  case (Cons x rest)
  obtain lsn t b where x: "x = (lsn, t, b)" by (cases x)
  with Cons.prems(2) obtain d where d: "decode_recovery_record L lsn t b = Inr d" by (auto simp: and_then_eq_Inr)
  show ?case
  proof (cases d)
    case None
    with Cons d x show ?thesis by simp
  next
    case (Some r)
    with Cons.prems(2) d x obtain s1 where s1: "apply_record s r = Inr s1" "replay_recovery_stream_from_state L rest s1 = Inr s'"
      by (auto simp: and_then_eq_Inr)
    note one = apply_record_covers [OF Cons.prems(1) s1(1)]
    with Cons.IH [OF _ s1(2)] have rest: "covers_state s'" "marks_le (rc_high_water_marks s1) (rc_high_water_marks s')"
      "list_all (covers_payload (rc_high_water_marks s')) (logged_payloads L rest)" by simp_all
    show ?thesis
      using rest one marks_le_trans covers_mono [OF _ rest(2)] by (auto simp: x d Some)
  qed
qed simp

lemma checked_floors:
  assumes "checked_allocator_floors h = Inr f"
  shows "hw_max_transaction_id h < fl_next_transaction_id f" "hw_max_timestamp h < fl_next_timestamp f"
    "hw_max_table_id h < fl_next_table_id f" "hw_max_snapshot_id h < fl_next_snapshot_id f"
proof -
  have "i < j" if "checked_recovery_successor i = Inr j" for i j
    by (rule checked_add_less) (use that in \<open>auto simp: checked_recovery_successor_def ok_or_def split: option.splits\<close>)
  with assms show "hw_max_transaction_id h < fl_next_transaction_id f" "hw_max_timestamp h < fl_next_timestamp f"
    "hw_max_table_id h < fl_next_table_id f" "hw_max_snapshot_id h < fl_next_snapshot_id f"
    by (auto simp: checked_allocator_floors_def and_then_eq_Inr)
qed

text \<open>Every identity and timestamp of a payload lies below the floors.\<close>

fun payload_below :: "RecoveryAllocatorFloors \<Rightarrow> RecoveryPayload \<Rightarrow> bool" where
  "payload_below f (PlCatalogUpdate u) \<longleftrightarrow>
     cu_table_id u < fl_next_table_id f \<and> cu_update_timestamp u < fl_next_timestamp f"
| "payload_below f (PlSingleNodeTxnCommit c) \<longleftrightarrow>
     sn_txn_id c < fl_next_transaction_id f \<and> sn_start_timestamp c < fl_next_timestamp f \<and>
     sn_commit_timestamp c < fl_next_timestamp f \<and> sn_table_id c < fl_next_table_id f"
| "payload_below f (PlSnapshotPointer p) \<longleftrightarrow>
     sp_snapshot_id p < fl_next_snapshot_id f \<and> sp_snapshot_timestamp p < fl_next_timestamp f \<and>
     list_all (\<lambda>i. i < fl_next_table_id f) (bt_keys (sp_table_ids p))"
| "payload_below f (PlCheckpointMarker k) \<longleftrightarrow>
     km_snapshot_id k < fl_next_snapshot_id f \<and> km_snapshot_timestamp k < fl_next_timestamp f"

lemma covered_below:
  "checked_allocator_floors h = Inr f \<Longrightarrow> covers_payload h pl \<Longrightarrow> payload_below f pl"
  using checked_floors [of h f] by (cases pl) (auto simp: list_all_iff intro: le_less_trans)

text \<open>
  C5. The allocators a recovered node restarts with cannot hand out anything again. Whatever the log
  held, if replaying it succeeds and the allocator floors can be computed, then every payload in the
  log lies below them: the table identity and timestamp of a catalog update, the transaction and
  table identity and both timestamps of a commit, the snapshot identity, timestamp and table
  identities of a snapshot pointer, and the snapshot identity and timestamp of a checkpoint marker.
  Every recovered table has an identity below the next table identity, and no recovered engine
  holds a version at or above the next timestamp.
\<close>

theorem recovered_floors_are_fresh:
  assumes "replay_recovery_stream L stream = Inr s" and "checked_allocator_floors (rc_high_water_marks s) = Inr f"
  shows "list_all (payload_below f) (logged_payloads L stream) \<and>
    list_all (\<lambda>i. i < fl_next_table_id f) (bt_keys (mc_tables_by_id (rc_catalog s))) \<and>
    list_all (engine_below (fl_next_timestamp f)) (bt_values (rc_mvcc_by_table s))"
proof -
  have "covers_state RecoveryState_new" by (simp add: covers_state_def RecoveryState_new_def MemoryCatalog_new_def)
  from replay_covers [OF this assms(1) [unfolded replay_recovery_stream_def]]
  have cov: "covers_state s" "list_all (covers_payload (rc_high_water_marks s)) (logged_payloads L stream)" by simp_all
  note fl = checked_floors [OF assms(2)]
  have "list_all (payload_below f) (logged_payloads L stream)"
    using cov(2) covered_below [OF assms(2)] by (simp add: list_all_iff)
  moreover have "list_all (\<lambda>i. i < fl_next_table_id f) (bt_keys (mc_tables_by_id (rc_catalog s)))"
    using covers_stateD(1) [OF cov(1)] fl(3) by (auto simp: list_all_iff dest: le_less_trans)
  moreover have "list_all (engine_below (fl_next_timestamp f)) (bt_values (rc_mvcc_by_table s))"
    using covers_stateD(2) [OF cov(1)] fl(2) unfolding list_all_iff Ball_def bt_values_mem engine_below_wr
    by (meson le_less_trans)
  ultimately show ?thesis by blast
qed

text \<open>The log of the witness above, followed by a checkpoint that names a later table.\<close>

definition demo_pointer :: SnapshotPointer where
  "demo_pointer = \<lparr>sp_snapshot_id = 4, sp_snapshot_timestamp = 9, sp_replay_from_lsn = 1, sp_relative_path = [0x73],
     sp_table_ids = bs_insert 6 bt_new, sp_file_length = 10, sp_file_checksum_crc32c = 0, sp_snapshot_format_version = 1\<rparr>"

definition demo_marker :: CheckpointMarker where
  "demo_marker = \<lparr>km_snapshot_id = 4, km_snapshot_timestamp = 9, km_replay_from_lsn = 1\<rparr>"

definition demo_log :: demo_records where
  "demo_log = ln_wal (live_call demo_wal demo_node demo_commit) @
     [(5, 1003, DpPointer (SnapshotPointer_to_proto demo_pointer)),
      (6, 1007, DpMarker (CheckpointMarker_to_proto demo_marker))]"

lemma demo_log_replays:
  "is_ok (replay_recovery_stream demo_wal demo_log)"
  "is_ok (and_then (replay_recovery_stream demo_wal demo_log) (\<lambda>s. checked_allocator_floors (rc_high_water_marks s)))"
  "length (logged_payloads demo_wal demo_log) = 4"
  by code_simp+

theorem recovered_floors_are_fresh_witness:
  "\<exists>s f. replay_recovery_stream demo_wal demo_log = Inr s \<and> checked_allocator_floors (rc_high_water_marks s) = Inr f \<and>
     length (logged_payloads demo_wal demo_log) = 4 \<and> list_all (payload_below f) (logged_payloads demo_wal demo_log)"
  using recovered_floors_are_fresh [of demo_wal demo_log] demo_log_replays by (auto simp: is_ok_iff and_then_eq_Inr)

end
