(* ===== verification/Spec2Isabelle.thy ===== *)
theory Spec2Isabelle
  imports Tablet_Props Txn_Concurrent Recovery_Props
begin

text \<open>
  Verification of RagnorDB, a distributed SQL database written in Rust (the crates under
  \<^verbatim>\<open>src/crates\<close>). This theory collects the development and documents it.

  \<^bold>\<open>The program.\<close> A row lives in a tablet, under a byte key that orders like its primary key. The
  MVCC engine of a tablet keeps three ordered maps: payloads by key and start timestamp, locks
  (intents) by key, and commit or rollback records by key and timestamp. A distributed transaction
  buffers its writes on the client, prewrites them as intents, decides its outcome at the tablet of
  its primary key, and then commits or rolls back every intent. Tablets are Raft state machines:
  each committed log entry is an envelope with a command, and applying it must be deterministic,
  take effect once per request, and survive snapshots. A single-node database uses the same engine
  with one write-ahead log: it appends a transaction or a table creation durably, then publishes it
  in memory, and after a crash it rebuilds the catalog, the engines and its allocators from the log.
  Timestamps and transaction identities come from managers that reserve intervals durably.

  \<^bold>\<open>Conventions.\<close> A struct is a \<^verbatim>\<open>record\<close> with a short prefix on its fields, an enum a
  \<^verbatim>\<open>datatype\<close>, a function or method a definition with the name of the source (prefixed where two
  types have a method of that name). Integers are words of their width; lengths and counters of
  type \<^verbatim>\<open>usize\<close> are natural numbers with the bound \<^verbatim>\<open>usize_max\<close> (64 bits) written out in
  checked and saturating arithmetic. Byte vectors and strings are lists of 8-bit words. \<^verbatim>\<open>Result\<close>
  is a sum type with the error on the left, chained by \<^verbatim>\<open>and_then\<close>; a method on
  \<^verbatim>\<open>&mut self\<close> returns its result and the state it leaves behind, so what an error does to the
  state is visible. Error values carry no formatted text. Clock readings, the answers of allocators
  passed as closures, and the behaviour of external code are arguments: the log library with its
  message encoders (record \<^verbatim>\<open>wal_library\<close>, contract \<^verbatim>\<open>wal_contract\<close>), the protobuf byte
  encoders, the BLAKE3 hash, and the provider of timestamp reservations.

  \<^bold>\<open>Theories and sources.\<close>

  \<^item> \<^verbatim>\<open>Prelude\<close>: integers, the \<^verbatim>\<open>Error\<close> enum of \<^verbatim>\<open>ragnordb-common/src/result.rs\<close>, the result
    combinators, and the locales \<^verbatim>\<open>wire_codec\<close> (a validated conversion and its inverse) and
    \<^verbatim>\<open>step_invariant\<close> (an invariant of a transition system).
  \<^item> \<^verbatim>\<open>BTreeMap\<close>: ordered maps and sets of the standard library, with the interface
    \<^verbatim>\<open>ordered_map\<close> and the ranges that panic. \<^verbatim>\<open>Bytes\<close>: fixed-width integers as bytes, UTF-8, and
    the locales \<^verbatim>\<open>byte_codec\<close> and \<^verbatim>\<open>ordered_code\<close>. \<^verbatim>\<open>Std_Text\<close>: blank strings.
  \<^item> \<^verbatim>\<open>Value_Encoding\<close> (\<^verbatim>\<open>ragnordb-common/src/encoding.rs\<close>) and \<^verbatim>\<open>Row_Key\<close>
    (\<^verbatim>\<open>ragnordb-storage/src/key.rs\<close>): the row codec and the ordered key codec.
  \<^item> \<^verbatim>\<open>Mvcc_Records\<close> (\<^verbatim>\<open>ragnordb-common/src/codec.rs\<close>): locks, write records, transaction status.
  \<^item> \<^verbatim>\<open>Mvcc\<close>, \<^verbatim>\<open>Mvcc_Scan\<close>, \<^verbatim>\<open>Mvcc_Snapshot\<close> (\<^verbatim>\<open>ragnordb-storage/src/mvcc.rs\<close> and
    \<^verbatim>\<open>checkpoint.rs\<close>): the engine, its scans, its snapshots. \<^verbatim>\<open>Mvcc_View\<close>, \<^verbatim>\<open>Mvcc_Inv\<close>,
    \<^verbatim>\<open>Mvcc_History\<close>, \<^verbatim>\<open>Mvcc_Replay\<close>, \<^verbatim>\<open>Mvcc_Props\<close>, \<^verbatim>\<open>Mvcc_Pages\<close>: the proofs about it.
  \<^item> \<^verbatim>\<open>Txn_Ids\<close> (\<^verbatim>\<open>ragnordb-common/src/ids.rs\<close>), \<^verbatim>\<open>Commands\<close>, \<^verbatim>\<open>Catalog_Codec\<close>,
    \<^verbatim>\<open>Command_Codec\<close>, \<^verbatim>\<open>Envelope\<close>, \<^verbatim>\<open>Tablet_Codec\<close> (\<^verbatim>\<open>command_codec.rs\<close>,
    \<^verbatim>\<open>catalog_codec.rs\<close>): identities, commands, envelopes, batches, snapshot metadata and their
    wire forms.
  \<^item> \<^verbatim>\<open>Tablet_Machine\<close> (\<^verbatim>\<open>ragnordb-tablet/src/command.rs\<close>): the replicated tablet.
    \<^verbatim>\<open>Tablet_Inv\<close>, \<^verbatim>\<open>Tablet_Step\<close>, \<^verbatim>\<open>Tablet_Props\<close>: the proofs about it.
  \<^item> \<^verbatim>\<open>Txn_Buffer\<close> (\<^verbatim>\<open>ragnordb-txn/src/lib.rs\<close>): the client side of a transaction.
    \<^verbatim>\<open>Txn_Oracle\<close> and \<^verbatim>\<open>Txn_Concurrent\<close> (\<^verbatim>\<open>manager.rs\<close>): the managers and oracles, the
    concurrent one at the grain of its atomic operations.
  \<^item> \<^verbatim>\<open>Catalog\<close> (\<^verbatim>\<open>ragnordb-catalog/src/lib.rs\<close>, \<^verbatim>\<open>durable.rs\<close>), \<^verbatim>\<open>Wal_Records\<close>
    (\<^verbatim>\<open>ragnordb-storage/src/wal.rs\<close>), \<^verbatim>\<open>Single_Node\<close> (\<^verbatim>\<open>ragnordb-txn/src/coordinator.rs\<close>),
    \<^verbatim>\<open>Recovery\<close> (\<^verbatim>\<open>ragnordb-storage/src/recovery.rs\<close>): the single-node database.
    \<^verbatim>\<open>Schema_Rows\<close> says which writes are rows of a table; \<^verbatim>\<open>Recovery_Props\<close> has the proofs.

  \<^bold>\<open>What is shown.\<close>

  \<^item> Codecs. Rows, primary keys, row keys, records, commands and envelopes have one spelling:
    decoding inverts encoding and accepts nothing else; the record codecs accept exactly the
    records that satisfy predicates stated apart from the validators. The byte order of keys is
    the order of the tuples. The identity of a command is the digest of its transaction, phase and
    key, and two commands share one only by a hash collision.
  \<^item> MVCC. Every reachable engine satisfies an invariant per key. Reads refine a history of
    committed versions, are repeatable, and scans and pages return exactly the snapshot; no scan
    panics. First committer wins, rollbacks are final, prewritten intents can be committed, failed
    calls change nothing, repeated calls are idempotent, a batch equals the sequence of its
    single-key calls made atomic, and snapshots restore the engine exactly.
  \<^item> Tablets. Decisions are final, a committed decision has its primary write, a request takes
    effect at most once, a refused command changes no data, and a snapshot restores the machine.
  \<^item> Transactions. The footprint of a buffered transaction is exact and within its policy, and
    what it buffered prewrites. Managers and the concurrent oracle allocate increasing timestamps
    under every interleaving.
  \<^item> Recovery. Replaying the log after a crash rebuilds the catalog and the engines exactly, and
    the recovered allocators lie above everything the log and the recovered state hold.

  Reachable states are those of an inductive step relation with every operation of the component,
  successful or not. The contracts between components are locales, each interpreted on the model's
  own operations.

  \<^bold>\<open>Bounds.\<close> No definition uses fuel. Loops are structural recursion over the lists that the
  source iterates, or functions with a termination measure: the bytes left for the key decoders,
  the entries left for the scan loops. The concurrent oracle takes one step at a time, so its loops
  need no bound. Conditions on sizes appear where a real process cannot exceed them: byte strings
  and buffered writes fit the address space. Two conditions exclude a case in which the source
  misbehaves: the timestamp theorems do not let a caller observe the largest 64-bit timestamp.
  The concurrent model is sequentially consistent over the atomics.

  \<^bold>\<open>Not modelled.\<close> The SQL parser, planner and executor (they reach the model as typed rows and
  calls); the planning and dispatch of distributed transactions (\<^verbatim>\<open>prewrite.rs\<close>, \<^verbatim>\<open>commit.rs\<close>,
  \<^verbatim>\<open>rollback.rs\<close>, \<^verbatim>\<open>status.rs\<close>, \<^verbatim>\<open>heartbeat.rs\<close>, \<^verbatim>\<open>resolve.rs\<close> and the distributed part of
  \<^verbatim>\<open>coordinator.rs\<close>), which run over caller-supplied transports and whose replicated effects are
  the tablet commands; the metadata state machine and the tablet router; tablet read barriers, the
  cleaner and snapshot files; the Raft host, server, command line and benchmarks (threads, network
  and files around external crates); \<^verbatim>\<open>reset_after_failover\<close> of the concurrent oracle, which no
  serving path calls. The text of error messages and of cached rejections is dropped, and so are
  latency counters.
\<close>

end
